theory Spec2Isabelle
  imports Complex_Main "HOL-Library.List_Lexorder" "HOL-Library.Char_ord"
begin

section \<open>The term type of \<^verbatim>\<open>Types/Symbol.js\<close>\<close>

text \<open>
  A \<^verbatim>\<open>Symbol\<close> is a JavaScript object with a group tag, a value (its hash), a rational
  multiplier, a power that is a rational or (for group EX) again a Symbol, and, for the
  composite groups, a children object \<^verbatim>\<open>symbols\<close> keyed by strings together with a
  hand-kept counter \<^verbatim>\<open>length\<close>.

  Modelled from the spec: the enumeration \<^verbatim>\<open>Groups\<close> (\<^verbatim>\<open>Types/Groups\<close> is imported by
  the class and is not among the sources). The spec lists the tags as
  N, P, S, EX, FN, PL, CP, CB; the class only ever compares a tag with \<^verbatim>\<open>Groups.FN\<close>
  (\<^verbatim>\<open>group > Groups.FN\<close>), which singles out the three groups with children.
\<close>

datatype group =
  Groups_N | Groups_P | Groups_S | Groups_EX | Groups_FN | Groups_PL | Groups_CP | Groups_CB

fun group_num :: "group \<Rightarrow> nat" where
  "group_num Groups_N = 1"
| "group_num Groups_P = 2"
| "group_num Groups_S = 3"
| "group_num Groups_EX = 4"
| "group_num Groups_FN = 5"
| "group_num Groups_PL = 6"
| "group_num Groups_CP = 7"
| "group_num Groups_CB = 8"

text \<open>
  Modelled from the spec: the rational \<^verbatim>\<open>Frac\<close> (\<^verbatim>\<open>Types/Frac\<close> is not among the
  sources). The spec keeps a fraction in lowest terms with the sign on the numerator, so
  two fractions are equal exactly when they are the same rational number: \<^typ>\<open>rat\<close>.
  The power of a Symbol is a \<^verbatim>\<open>Frac\<close> or a Symbol.
\<close>

datatype 's power_val = PFrac rat | PSym 's

text \<open>
  The fields are those the class reads or writes. A field that JavaScript may leave
  \<^verbatim>\<open>undefined\<close> is an option; \<^verbatim>\<open>isConversion\<close>, \<^verbatim>\<open>isUnit\<close> and \<^verbatim>\<open>isImgSymbol\<close> are
  only ever tested for truthiness, so they are booleans (absent is \<open>False\<close>). The children
  object is an association list in insertion order.
\<close>

datatype symbol = Symbol
  (group_of: "group option")
  (value_of: string)
  (multiplier: rat)
  (power_of: "symbol power_val")
  (symbols: "(string \<times> symbol) list option")
  (length_of: "int option")
  (previousGroup: "group option")
  (imaginary: "bool option")
  (isInfinity: "bool option")
  (fname: "string option")
  (args: "symbol list option")
  (scientific: "bool option")
  (isConversion: bool)
  (isUnit: bool)
  (parens: "bool option")
  (isImgSymbol: bool)

text \<open>An argument that the class tests with \<^verbatim>\<open>isSymbol\<close>: a Symbol or a number.\<close>

datatype arg = ASym symbol | ANum rat

datatype error =
  TypeError
| KernelError string
| ParityError string

text \<open>
  What the class takes from modules that are not among the sources, as parameters of the
  model: the settings; the renderer \<^verbatim>\<open>text\<close> of \<^verbatim>\<open>Core/Text\<close> (with and without the
  \<^verbatim>\<open>'hash'\<close> option); the decimal and string forms of a \<^verbatim>\<open>Frac\<close> and the \<^verbatim>\<open>Frac\<close> read from
  a string; how \<^verbatim>\<open>Frac.lessThan\<close> reads a Symbol argument; the number
  \<^verbatim>\<open>m * Math.pow(value, power)\<close> that \<^verbatim>\<open>convert\<close> computes in floating point; the helpers
  \<^verbatim>\<open>isInt\<close> and \<^verbatim>\<open>isNumericSymbol\<close> of \<^verbatim>\<open>Core/Utils\<close>; JavaScript's \<^verbatim>\<open>isNaN\<close> on a string;
  and the kernel functions \<^verbatim>\<open>add\<close>, \<^verbatim>\<open>multiply\<close>, \<^verbatim>\<open>subtract\<close> of \<^verbatim>\<open>Functions/Core\<close> and
  \<^verbatim>\<open>evaluate\<close>, \<^verbatim>\<open>parse\<close> of the parser, which may raise.
\<close>

record env =
  CONST_HASH :: string
  IMAGINARY :: string
  POWER_OPERATOR :: string
  PARENTHESIS :: string
  text_hash :: "symbol \<Rightarrow> string"
  text_plain :: "symbol \<Rightarrow> string"
  frac_toDecimal :: "rat \<Rightarrow> string"
  frac_toString :: "rat \<Rightarrow> string"
  frac_of_string :: "string \<Rightarrow> rat"
  text_frac :: "rat \<Rightarrow> string"
  float_fold :: "string \<Rightarrow> string \<Rightarrow> symbol power_val \<Rightarrow> rat"
  isInt :: "symbol power_val \<Rightarrow> bool"
  isNaN :: "string \<Rightarrow> bool"
  isNumericSymbol :: "symbol \<Rightarrow> bool"
  kernel_add :: "symbol \<Rightarrow> symbol \<Rightarrow> error + symbol"
  kernel_multiply :: "symbol \<Rightarrow> symbol \<Rightarrow> error + symbol"
  kernel_add_inherited :: "string \<Rightarrow> symbol \<Rightarrow> error + symbol"
  kernel_multiply_inherited :: "string \<Rightarrow> symbol \<Rightarrow> error + symbol"
  kernel_subtract :: "symbol \<Rightarrow> symbol \<Rightarrow> error + symbol"
  kernel_evaluate :: "symbol \<Rightarrow> error + symbol"
  kernel_parse :: "string \<Rightarrow> error + symbol"

subsection \<open>Field updates and the children object\<close>

fun set_group :: "group option \<Rightarrow> symbol \<Rightarrow> symbol" where
  "set_group x (Symbol g v m pw sy l pg im nf fn ar sc co un pa ig) =
     Symbol x v m pw sy l pg im nf fn ar sc co un pa ig"

fun set_value :: "string \<Rightarrow> symbol \<Rightarrow> symbol" where
  "set_value x (Symbol g v m pw sy l pg im nf fn ar sc co un pa ig) =
     Symbol g x m pw sy l pg im nf fn ar sc co un pa ig"

fun set_multiplier :: "rat \<Rightarrow> symbol \<Rightarrow> symbol" where
  "set_multiplier x (Symbol g v m pw sy l pg im nf fn ar sc co un pa ig) =
     Symbol g v x pw sy l pg im nf fn ar sc co un pa ig"

fun set_power :: "symbol power_val \<Rightarrow> symbol \<Rightarrow> symbol" where
  "set_power x (Symbol g v m pw sy l pg im nf fn ar sc co un pa ig) =
     Symbol g v m x sy l pg im nf fn ar sc co un pa ig"

fun set_symbols :: "(string \<times> symbol) list option \<Rightarrow> symbol \<Rightarrow> symbol" where
  "set_symbols x (Symbol g v m pw sy l pg im nf fn ar sc co un pa ig) =
     Symbol g v m pw x l pg im nf fn ar sc co un pa ig"

fun set_length :: "int option \<Rightarrow> symbol \<Rightarrow> symbol" where
  "set_length x (Symbol g v m pw sy l pg im nf fn ar sc co un pa ig) =
     Symbol g v m pw sy x pg im nf fn ar sc co un pa ig"

fun set_previousGroup :: "group option \<Rightarrow> symbol \<Rightarrow> symbol" where
  "set_previousGroup x (Symbol g v m pw sy l pg im nf fn ar sc co un pa ig) =
     Symbol g v m pw sy l x im nf fn ar sc co un pa ig"

fun set_imaginary :: "bool option \<Rightarrow> symbol \<Rightarrow> symbol" where
  "set_imaginary x (Symbol g v m pw sy l pg im nf fn ar sc co un pa ig) =
     Symbol g v m pw sy l pg x nf fn ar sc co un pa ig"

fun set_isInfinity :: "bool option \<Rightarrow> symbol \<Rightarrow> symbol" where
  "set_isInfinity x (Symbol g v m pw sy l pg im nf fn ar sc co un pa ig) =
     Symbol g v m pw sy l pg im x fn ar sc co un pa ig"

fun set_fname :: "string option \<Rightarrow> symbol \<Rightarrow> symbol" where
  "set_fname x (Symbol g v m pw sy l pg im nf fn ar sc co un pa ig) =
     Symbol g v m pw sy l pg im nf x ar sc co un pa ig"

fun set_args :: "symbol list option \<Rightarrow> symbol \<Rightarrow> symbol" where
  "set_args x (Symbol g v m pw sy l pg im nf fn ar sc co un pa ig) =
     Symbol g v m pw sy l pg im nf fn x sc co un pa ig"

fun set_scientific :: "bool option \<Rightarrow> symbol \<Rightarrow> symbol" where
  "set_scientific x (Symbol g v m pw sy l pg im nf fn ar sc co un pa ig) =
     Symbol g v m pw sy l pg im nf fn ar x co un pa ig"

fun set_isConversion :: "bool \<Rightarrow> symbol \<Rightarrow> symbol" where
  "set_isConversion x (Symbol g v m pw sy l pg im nf fn ar sc co un pa ig) =
     Symbol g v m pw sy l pg im nf fn ar sc x un pa ig"

fun set_isUnit :: "bool \<Rightarrow> symbol \<Rightarrow> symbol" where
  "set_isUnit x (Symbol g v m pw sy l pg im nf fn ar sc co un pa ig) =
     Symbol g v m pw sy l pg im nf fn ar sc co x pa ig"

fun set_parens :: "bool option \<Rightarrow> symbol \<Rightarrow> symbol" where
  "set_parens x (Symbol g v m pw sy l pg im nf fn ar sc co un pa ig) =
     Symbol g v m pw sy l pg im nf fn ar sc co un x ig"

fun set_isImgSymbol :: "bool \<Rightarrow> symbol \<Rightarrow> symbol" where
  "set_isImgSymbol x (Symbol g v m pw sy l pg im nf fn ar sc co un pa ig) =
     Symbol g v m pw sy l pg im nf fn ar sc co un pa x"

text \<open>
  The children object: \<^verbatim>\<open>key in obj\<close> and \<^verbatim>\<open>obj[key]\<close>, the assignment \<^verbatim>\<open>obj[key] = s\<close>
  (an existing key keeps its place, a new key goes last) and \<^verbatim>\<open>delete obj[key]\<close>.
\<close>

definition obj_get :: "(string \<times> 'a) list \<Rightarrow> string \<Rightarrow> 'a option" where
  "obj_get obj key = map_of obj key"

fun obj_set :: "(string \<times> 'a) list \<Rightarrow> string \<Rightarrow> 'a \<Rightarrow> (string \<times> 'a) list" where
  "obj_set [] key s = [(key, s)]"
| "obj_set ((k, x) # obj) key s =
     (if k = key then (k, s) # obj else (k, x) # obj_set obj key s)"

definition obj_delete :: "(string \<times> 'a) list \<Rightarrow> string \<Rightarrow> (string \<times> 'a) list" where
  "obj_delete obj key = filter (\<lambda>kv. fst kv \<noteq> key) obj"

text \<open>
  \<^verbatim>\<open>key in this.symbols ? this.symbols[key] : false\<close>. The children object is made by \<^verbatim>\<open>{}\<close>,
  so \<^verbatim>\<open>in\<close> also answers true for the property names that every object inherits from
  \<^verbatim>\<open>Object.prototype\<close>; what is read at such a key, when no child is stored there, is the
  inherited function or object and not a child.
\<close>

datatype slot = Absent | Own symbol | Inherited

definition inherited_names :: "string list" where
  "inherited_names =
     [''constructor'', ''__defineGetter__'', ''__defineSetter__'', ''hasOwnProperty'',
      ''__lookupGetter__'', ''__lookupSetter__'', ''isPrototypeOf'', ''propertyIsEnumerable'',
      ''toString'', ''valueOf'', ''__proto__'', ''toLocaleString'']"

definition slot_of :: "(string \<times> symbol) list \<Rightarrow> string \<Rightarrow> slot" where
  "slot_of obj key =
     (case obj_get obj key of
        Some c \<Rightarrow> Own c
      | None \<Rightarrow> if key \<in> set inherited_names then Inherited else Absent)"

text \<open>
  The assignment \<^verbatim>\<open>this.symbols[key] = s\<close> in \<^verbatim>\<open>insert\<close> and \<^verbatim>\<open>convert\<close>. The inherited \<^verbatim>\<open>__proto__\<close> is an accessor:
  unless a property of that name is stored, assigning to it stores no property (it replaces
  the prototype of the children object, which is not part of the children).
\<close>

definition obj_assign :: "(string \<times> 'a) list \<Rightarrow> string \<Rightarrow> 'a \<Rightarrow> (string \<times> 'a) list" where
  "obj_assign obj key s =
     (if key = ''__proto__'' \<and> obj_get obj key = None then obj else obj_set obj key s)"

text \<open>\<^verbatim>\<open>group > Groups.FN\<close>; an undefined group compares false.\<close>

definition gt_FN :: "group option \<Rightarrow> bool" where
  "gt_FN g = (case g of None \<Rightarrow> False | Some g' \<Rightarrow> group_num g' > group_num Groups_FN)"

text \<open>Sequencing of calls that may raise.\<close>

definition and_then :: "error + 'a \<Rightarrow> ('a \<Rightarrow> error + 'b) \<Rightarrow> error + 'b" where
  "and_then r f = (case r of Inl e \<Rightarrow> Inl e | Inr x \<Rightarrow> f x)"

text \<open>The decimal digits of an integer, as \<^verbatim>\<open>toString\<close> prints them.\<close>

definition digit_char :: "nat \<Rightarrow> char" where
  "digit_char d = ''0123456789'' ! d"

fun string_of_nat :: "nat \<Rightarrow> string" where
  "string_of_nat n =
     (if n < 10 then [digit_char n]
      else string_of_nat (n div 10) @ [digit_char (n mod 10)])"

declare string_of_nat.simps [simp del]

definition string_of_int :: "int \<Rightarrow> string" where
  "string_of_int i = (if i < 0 then CHR ''-'' # string_of_nat (nat (- i)) else string_of_nat (nat i))"

text \<open>The numerator of a \<^verbatim>\<open>Frac\<close> (the sign lives on it).\<close>

definition frac_num :: "rat \<Rightarrow> int" where
  "frac_num q = fst (quotient_of q)"

subsection \<open>The constructor on a number\<close>

text \<open>
  \<^verbatim>\<open>new Symbol(obj)\<close> with a numeric \<^verbatim>\<open>obj\<close>: group N, the constant hash as value, the
  number as multiplier, power 1.
\<close>

definition new_Symbol :: "env \<Rightarrow> rat \<Rightarrow> symbol" where
  "new_Symbol E q =
     Symbol (Some Groups_N) (CONST_HASH E) q (PFrac 1) None None None None None None None None
       False False None False"

subsection \<open>\<^verbatim>\<open>equals\<close>\<close>

text \<open>
  \<^verbatim>\<open>this.value === symbol.value && this.power.equals(symbol.power)
    && this.multiplier.equals(symbol.multiplier) && this.group === symbol.group\<close>,
  after a non-Symbol argument has been wrapped by the constructor. \<^verbatim>\<open>this.power.equals\<close> is
  \<^verbatim>\<open>Frac.equals\<close> on a rational power and \<^verbatim>\<open>Symbol.equals\<close> again on a Symbol power.
  Modelled from the spec: \<^verbatim>\<open>Frac.equals\<close> on a Symbol argument is \<open>False\<close> (a rational is
  not a term).
\<close>

fun equals :: "env \<Rightarrow> symbol \<Rightarrow> arg \<Rightarrow> bool" where
  "equals E (Symbol g v m (PFrac p) sy l pg im nf fn ar sc co un pa ig) a =
     (let symbol = (case a of ASym s \<Rightarrow> s | ANum q \<Rightarrow> new_Symbol E q)
      in v = value_of symbol
         \<and> (case power_of symbol of PFrac p' \<Rightarrow> p = p' | PSym s' \<Rightarrow> False)
         \<and> m = multiplier symbol
         \<and> g = group_of symbol)"
| "equals E (Symbol g v m (PSym ps) sy l pg im nf fn ar sc co un pa ig) a =
     (let symbol = (case a of ASym s \<Rightarrow> s | ANum q \<Rightarrow> new_Symbol E q)
      in v = value_of symbol
         \<and> (case power_of symbol of PFrac p' \<Rightarrow> equals E ps (ANum p')
                                     | PSym s' \<Rightarrow> equals E ps (ASym s'))
         \<and> m = multiplier symbol
         \<and> g = group_of symbol)"

text \<open>
  The spec's "children maps agree key-wise": both terms have no children object, or both
  have one with the same keys and, at each key, children that are equal.
\<close>

definition children_agree :: "env \<Rightarrow> symbol \<Rightarrow> symbol \<Rightarrow> bool" where
  "children_agree E a b =
     (case (symbols a, symbols b) of
        (None, None) \<Rightarrow> True
      | (Some xs, Some ys) \<Rightarrow>
          set (map fst xs) = set (map fst ys)
          \<and> list_all (\<lambda>k. case (map_of xs k, map_of ys k) of
                             (Some c, Some d) \<Rightarrow> equals E c (ASym d)
                           | _ \<Rightarrow> False) (map fst xs)
      | _ \<Rightarrow> False)"

subsection \<open>\<^verbatim>\<open>toUnitMultiplier\<close>, \<^verbatim>\<open>isOne\<close>, \<^verbatim>\<open>isConstant\<close>\<close>

text \<open>
  \<^verbatim>\<open>this.multiplier.num = new bigInt(this.multiplier.num.isNegative() && keepSign ? -1 : 1);
  this.multiplier.den = new bigInt(1)\<close>.
\<close>

definition toUnitMultiplier :: "bool \<Rightarrow> symbol \<Rightarrow> symbol" where
  "toUnitMultiplier keepSign t =
     set_multiplier (if multiplier t < 0 \<and> keepSign then - 1 else 1) t"

text \<open>\<^verbatim>\<open>this.power.equals(n)\<close> for a number \<open>n\<close>: \<^verbatim>\<open>Frac.equals\<close> or \<^verbatim>\<open>Symbol.equals\<close>.\<close>

definition power_equals_num :: "env \<Rightarrow> symbol power_val \<Rightarrow> rat \<Rightarrow> bool" where
  "power_equals_num E pw n = (case pw of PFrac p \<Rightarrow> p = n | PSym s \<Rightarrow> equals E s (ANum n))"

text \<open>
  \<^verbatim>\<open>isOne(abs)\<close>: on group N the multiplier is compared with 1 (\<^verbatim>\<open>absEquals\<close> when \<^verbatim>\<open>abs\<close>),
  on every other group the power is compared with 0.
\<close>

definition isOne :: "env \<Rightarrow> bool \<Rightarrow> symbol \<Rightarrow> bool" where
  "isOne E abs_flag t =
     (if group_of t = Some Groups_N
      then (if abs_flag then \<bar>multiplier t\<bar> = 1 else multiplier t = 1)
      else power_equals_num E (power_of t) 0)"

text \<open>
  \<^verbatim>\<open>isConstant(check_all)\<close> as the class calls it here: \<^verbatim>\<open>isConstant()\<close> in \<^verbatim>\<open>insert\<close> and
  \<^verbatim>\<open>isConstant(true)\<close> in \<^verbatim>\<open>greaterThan\<close> (the modes \<^verbatim>\<open>'functions'\<close> and \<^verbatim>\<open>'all'\<close> and the flag
  \<^verbatim>\<open>check_symbols\<close> are not used by them). With \<^verbatim>\<open>check_all\<close>, a function is constant when
  every argument is: the loop returns false at the first argument that is not, and
  reading \<^verbatim>\<open>this.args.length\<close> raises when there are no arguments at all.
\<close>

fun first_false :: "(error + bool) list \<Rightarrow> error + bool" where
  "first_false [] = Inr True"
| "first_false (Inl e # rs) = Inl e"
| "first_false (Inr False # rs) = Inr False"
| "first_false (Inr True # rs) = first_false rs"

fun isConstant :: "env \<Rightarrow> bool \<Rightarrow> symbol \<Rightarrow> error + bool" where
  "isConstant E check_all (Symbol g v m pw sy l pg im nf fn ar sc co un pa ig) =
     (if check_all \<and> g = Some Groups_FN then
        (case ar of
           None \<Rightarrow> Inl TypeError
         | Some as \<Rightarrow> first_false (map (isConstant E check_all) as))
      else if check_all then
        Inr (isNumericSymbol E (Symbol g v m pw sy l pg im nf fn ar sc co un pa ig))
      else Inr (v = CONST_HASH E))"

subsection \<open>\<^verbatim>\<open>lessThan\<close> and \<^verbatim>\<open>greaterThan\<close>\<close>

text \<open>
  Modelled from the spec: the class \<^verbatim>\<open>Frac\<close> is not among the sources. \<^verbatim>\<open>Frac.lessThan\<close> and
  \<^verbatim>\<open>Frac.greaterThan\<close> are the order of the rationals (the spec's Rational supports
  \<^verbatim>\<open>lessThan/greaterThan\<close>). The argument of \<^verbatim>\<open>Frac.lessThan\<close> is read as a rational: a number
  is itself, and a Term is the rational it carries, its multiplier (the spec: the
  multiplier is the rational coefficient carried on every term, and for group N the
  numeric information is solely in the multiplier).
\<close>

definition Frac_lessThan :: "rat \<Rightarrow> arg \<Rightarrow> bool" where
  "Frac_lessThan q n = (case n of ANum r \<Rightarrow> q < r | ASym s \<Rightarrow> q < multiplier s)"

text \<open>
  \<^verbatim>\<open>return this.multiplier.lessThan(n)\<close>: the argument goes to \<^verbatim>\<open>Frac.lessThan\<close> as it is, with
  no test on the term or on the argument.
\<close>

definition lessThan_sym :: "symbol \<Rightarrow> arg \<Rightarrow> bool" where
  "lessThan_sym t n = Frac_lessThan (multiplier t) n"

text \<open>
  \<^verbatim>\<open>if (!isSymbol(n)) n = new Symbol(n);
  if (!this.isConstant(true) || !n.isConstant(true)) return false;
  return this.multiplier.greaterThan(n.multiplier)\<close>.
\<close>

definition greaterThan_sym :: "env \<Rightarrow> symbol \<Rightarrow> arg \<Rightarrow> error + bool" where
  "greaterThan_sym E t n =
     (let n' = (case n of ASym s \<Rightarrow> s | ANum q \<Rightarrow> new_Symbol E q)
      in and_then (isConstant E True t) (\<lambda>c.
           if \<not> c then Inr False
           else and_then (isConstant E True n') (\<lambda>c'.
             if \<not> c' then Inr False
             else Inr (multiplier t > multiplier n'))))"

subsection \<open>\<^verbatim>\<open>clone\<close>\<close>

text \<open>
  \<^verbatim>\<open>clone(c)\<close> copies onto \<^verbatim>\<open>c\<close>, or onto \<^verbatim>\<open>new Symbol(0)\<close> when \<^verbatim>\<open>c\<close> is not given: the
  children one by one through \<^verbatim>\<open>clone()\<close>, then each property of the list
  \<^verbatim>\<open>value, group, length, previousGroup, imaginary, fname, args, isInfinity, scientific\<close>
  that is not undefined (\<open>copy_defined\<close>; a value is never undefined), then the power
  (\<^verbatim>\<open>this.power.clone()\<close>) and the multiplier, then \<^verbatim>\<open>isConversion\<close> and \<^verbatim>\<open>isUnit\<close> when
  they are set (\<open>copy_flags\<close>).
\<close>

definition copy_defined :: "symbol \<Rightarrow> symbol \<Rightarrow> symbol" where
  "copy_defined this c =
     (let c2 = set_value (value_of this) c;
          c3 = (if group_of this \<noteq> None then set_group (group_of this) c2 else c2);
          c4 = (if length_of this \<noteq> None then set_length (length_of this) c3 else c3);
          c5 = (if previousGroup this \<noteq> None then set_previousGroup (previousGroup this) c4 else c4);
          c6 = (if imaginary this \<noteq> None then set_imaginary (imaginary this) c5 else c5);
          c7 = (if fname this \<noteq> None then set_fname (fname this) c6 else c6);
          c8 = (if args this \<noteq> None then set_args (args this) c7 else c7);
          c9 = (if isInfinity this \<noteq> None then set_isInfinity (isInfinity this) c8 else c8);
          c10 = (if scientific this \<noteq> None then set_scientific (scientific this) c9 else c9)
      in c10)"

definition copy_flags :: "symbol \<Rightarrow> symbol \<Rightarrow> symbol" where
  "copy_flags this c =
     (let c13 = (if isConversion this then set_isConversion (isConversion this) c else c);
          c14 = (if isUnit this then set_isUnit (isUnit this) c13 else c13)
      in c14)"

fun clone :: "env \<Rightarrow> symbol option \<Rightarrow> symbol \<Rightarrow> symbol" where
  "clone E c (Symbol g v m pw sy l pg im nf fn ar sc co un pa ig) =
     (let this = Symbol g v m pw sy l pg im nf fn ar sc co un pa ig;
          c0 = (case c of None \<Rightarrow> new_Symbol E 0 | Some c' \<Rightarrow> c');
          c1 = (case sy of None \<Rightarrow> c0
                | Some xs \<Rightarrow> set_symbols (Some (map (\<lambda>kv. (fst kv, clone E None (snd kv))) xs)) c0);
          c10 = copy_defined this c1;
          c11 = set_power (case pw of PFrac p \<Rightarrow> PFrac p | PSym s \<Rightarrow> PSym (clone E None s)) c10;
          c12 = set_multiplier m c11
      in copy_flags this c12)"

subsection \<open>\<^verbatim>\<open>distributeMultiplier\<close> and \<^verbatim>\<open>negate\<close>\<close>

text \<open>
  \<^verbatim>\<open>distributeMultiplier()\<close> with its default \<^verbatim>\<open>all = false\<close>, which is how \<^verbatim>\<open>negate\<close> and the
  recursive call use it: when the term has children, power 1, a group other than CB and a
  multiplier other than 1, every child's multiplier is multiplied by the head's and the
  child distributes in turn; then the head's multiplier is set to 1.
\<close>

function distributeMultiplier :: "env \<Rightarrow> symbol \<Rightarrow> symbol" where
  "distributeMultiplier E (Symbol g v m pw sy l pg im nf fn ar sc co un pa ig) =
     (let is_one = power_equals_num E pw 1 in
      case sy of
        None \<Rightarrow> Symbol g v m pw sy l pg im nf fn ar sc co un pa ig
      | Some xs \<Rightarrow>
          if is_one \<and> g \<noteq> Some Groups_CB \<and> m \<noteq> 1 then
            toUnitMultiplier False
              (Symbol g v m pw
                 (Some (map (\<lambda>kv. (fst kv,
                          distributeMultiplier E (set_multiplier (multiplier (snd kv) * m) (snd kv))))
                        xs))
                 l pg im nf fn ar sc co un pa ig)
          else Symbol g v m pw sy l pg im nf fn ar sc co un pa ig)"
  by pat_completeness auto
termination
proof (relation "measure (\<lambda>(E, t). size t)")
  show "wf (measure (\<lambda>(E, t). size t))" by simp
next
  fix E g v m pw sy l pg im nf fn ar sc co un pa ig is_one xs and kv :: "string \<times> symbol"
  assume "sy = Some xs" and mem: "kv \<in> set xs"
  have same: "size (set_multiplier q s) = size s" for q s
    by (cases s) simp
  have "size (snd kv) \<le> size_prod (\<lambda>x. 0) size kv"
    by (cases kv) simp
  with mem have "size (snd kv) \<le> size_list (size_prod (\<lambda>x. 0) size) xs"
    by (rule size_list_estimation')
  then show "((E, set_multiplier (multiplier (snd kv) * m) (snd kv)),
              (E, Symbol g v m pw sy l pg im nf fn ar sc co un pa ig))
             \<in> measure (\<lambda>(E, t). size t)"
    using \<open>sy = Some xs\<close> by (simp add: same)
qed

text \<open>
  \<^verbatim>\<open>this.multiplier.negate();
  if (this.group === Groups.CP || this.group === Groups.PL) this.distributeMultiplier();\<close>
\<close>

definition negate :: "env \<Rightarrow> symbol \<Rightarrow> symbol" where
  "negate E t =
     (let t' = set_multiplier (- multiplier t) t
      in if group_of t' = Some Groups_CP \<or> group_of t' = Some Groups_PL
         then distributeMultiplier E t' else t')"

subsection \<open>\<^verbatim>\<open>keyForGroup\<close> and \<^verbatim>\<open>updateHash\<close>\<close>

text \<open>
  \<^verbatim>\<open>this.power.toDecimal()\<close> exists on a \<^verbatim>\<open>Frac\<close> only; \<^verbatim>\<open>this.power.toString()\<close> is
  \<^verbatim>\<open>Frac.toString\<close> or the text of a Symbol; \<^verbatim>\<open>text(this.power)\<close> is the renderer on either.
  \<^verbatim>\<open>inBrackets\<close> (of \<^verbatim>\<open>Core/Utils\<close>, not among the sources) puts a string in round brackets.
\<close>

definition power_toDecimal :: "env \<Rightarrow> symbol power_val \<Rightarrow> error + string" where
  "power_toDecimal E pw = (case pw of PFrac p \<Rightarrow> Inr (frac_toDecimal E p) | PSym s \<Rightarrow> Inl TypeError)"

definition power_toString :: "env \<Rightarrow> symbol power_val \<Rightarrow> string" where
  "power_toString E pw = (case pw of PFrac p \<Rightarrow> frac_toString E p | PSym s \<Rightarrow> text_plain E s)"

definition power_text :: "env \<Rightarrow> symbol power_val \<Rightarrow> string" where
  "power_text E pw = (case pw of PFrac p \<Rightarrow> text_frac E p | PSym s \<Rightarrow> text_plain E s)"

definition inBrackets :: "string \<Rightarrow> string" where
  "inBrackets str = ''('' @ str @ '')''"

text \<open>
  \<^verbatim>\<open>keyForGroup(group)\<close>, branch by branch. For a term of group CP the first \<^verbatim>\<open>if\<close> has no
  \<^verbatim>\<open>else\<close>, so the hash it computes for a CP parent is overwritten by the value. A term
  whose group is undefined gets no key, and the property name is then \<^verbatim>\<open>undefined\<close>.
\<close>

definition keyForGroup :: "env \<Rightarrow> symbol \<Rightarrow> group \<Rightarrow> error + string" where
  "keyForGroup E t grp =
     (case group_of t of
        None \<Rightarrow> Inr ''undefined''
      | Some Groups_N \<Rightarrow> Inr (value_of t)
      | Some Groups_S \<Rightarrow>
          if grp = Groups_PL then power_toDecimal E (power_of t) else Inr (value_of t)
      | Some Groups_P \<Rightarrow>
          if grp = Groups_PL then power_toDecimal E (power_of t) else Inr (value_of t)
      | Some Groups_FN \<Rightarrow>
          if grp = Groups_PL then power_toDecimal E (power_of t) else Inr (text_hash E t)
      | Some Groups_PL \<Rightarrow>
          if grp = Groups_CB then Inr (text_hash E t)
          else if grp = Groups_CP then
            (if power_equals_num E (power_of t) 1 then Inr (value_of t)
             else and_then (power_toDecimal E (power_of t))
                    (\<lambda>d. Inr (inBrackets (text_hash E t) @ POWER_OPERATOR E @ d)))
          else if grp = Groups_PL then Inr (power_toString E (power_of t))
          else Inr (value_of t)
      | Some Groups_CP \<Rightarrow>
          if grp = Groups_PL then power_toDecimal E (power_of t) else Inr (value_of t)
      | Some Groups_CB \<Rightarrow>
          if grp = Groups_PL then power_toDecimal E (power_of t) else Inr (text_hash E t)
      | Some Groups_EX \<Rightarrow>
          if grp = Groups_PL then Inr (power_text E (power_of t)) else Inr (text_hash E t))"

text \<open>The loop \<^verbatim>\<open>contents += (i === 0 ? '' : ',') + text(args[i])\<close>.\<close>

fun comma_join :: "string list \<Rightarrow> string" where
  "comma_join [] = []"
| "comma_join [x] = x"
| "comma_join (x # y # ys) = x @ '','' @ comma_join (y # ys)"

text \<open>
  \<^verbatim>\<open>updateHash()\<close>: nothing on group N; on a function the name and the rendered arguments
  (reading \<^verbatim>\<open>args.length\<close> raises without arguments, a missing name prints as
  \<^verbatim>\<open>undefined\<close>); on S and PL nothing; otherwise the hash text.
\<close>

definition updateHash :: "env \<Rightarrow> symbol \<Rightarrow> error + symbol" where
  "updateHash E t =
     (if group_of t = Some Groups_N then Inr t
      else if group_of t = Some Groups_FN then
        (case args t of
           None \<Rightarrow> Inl TypeError
         | Some as \<Rightarrow>
             let contents = comma_join (map (text_plain E) as);
                 is_parens = (fname t = Some (PARENTHESIS E));
                 fn_name = (if is_parens then [] else (case fname t of None \<Rightarrow> ''undefined'' | Some f \<Rightarrow> f))
             in Inr (set_value (fn_name @ (if is_parens then contents else inBrackets contents)) t))
      else if \<not> (group_of t = Some Groups_S \<or> group_of t = Some Groups_PL)
        then Inr (set_value (text_hash E t) t)
      else Inr t)"

subsection \<open>\<^verbatim>\<open>convert\<close>, \<^verbatim>\<open>toLinear\<close> and \<^verbatim>\<open>setPower\<close>\<close>

text \<open>
  The three methods call each other: \<^verbatim>\<open>convert\<close> to a group with children calls
  \<^verbatim>\<open>toLinear\<close>, which calls \<^verbatim>\<open>setPower(new Frac(1))\<close>, which calls \<^verbatim>\<open>convert\<close> to EX or P.

  \<^verbatim>\<open>convert(group, imaginary)\<close>:
  \<^item> to PL, CP or CB: a clone of the term becomes the only child, under its key for the new
    group; for CB the clone gives up its multiplier (the head keeps it), otherwise the
    head does; a function hands its arguments to the clone; the head becomes linear;
  \<^item> to EX: unless the term is the number 1, the old group is remembered, the value
    becomes the numerator (for a number, which then gets multiplier 1) or the hash text;
  \<^item> to N: the children are dropped and \<^verbatim>\<open>new Symbol(m)\<close>, or for group P
    \<^verbatim>\<open>new Symbol(m * Math.pow(value, power))\<close>, with \<open>m\<close> the decimal text of the multiplier,
    is cloned onto the term (the number is taken to be finite);
  \<^item> to P from N: the value becomes the numerator (its absolute value unless
    \<^verbatim>\<open>imaginary\<close>), the multiplier 1 or, unless \<^verbatim>\<open>imaginary\<close>, its sign.
\<close>

function convert :: "env \<Rightarrow> group \<Rightarrow> bool \<Rightarrow> symbol \<Rightarrow> error + symbol"
  and toLinear :: "env \<Rightarrow> symbol \<Rightarrow> error + symbol"
  and setPower :: "env \<Rightarrow> symbol power_val \<Rightarrow> bool \<Rightarrow> symbol \<Rightarrow> error + symbol"
where
  "convert E grp imaginary_flag t =
     (if group_num grp > group_num Groups_FN then
        (let cp = clone E None t;
             this1 = set_symbols (Some []) t;
             cp1 = (if grp = Groups_CB then toUnitMultiplier False cp else cp);
             this2 = (if grp = Groups_CB then this1 else toUnitMultiplier False this1);
             cp2 = (if group_of this2 = Some Groups_FN then set_args (args this2) cp1 else cp1);
             this3 = (if group_of this2 = Some Groups_FN
                      then set_fname None (set_args None this2) else this2);
             this4 = (if isImgSymbol this3 then set_isImgSymbol False this3 else this3)
         in and_then (toLinear E this4) (\<lambda>this5.
            and_then (keyForGroup E cp2 grp) (\<lambda>key.
              case symbols this5 of
                None \<Rightarrow> Inl TypeError
              | Some obj \<Rightarrow>
                  Inr (set_length (Some 1) (set_group (Some grp)
                         (set_symbols (Some (obj_assign obj key cp2)) this5))))))
      else if grp = Groups_EX then
        (if \<not> (group_of t = Some Groups_N \<and> multiplier t = 1) then
           (let t1 = (if group_of t \<noteq> Some Groups_EX then set_previousGroup (group_of t) t else t);
                t2 = (if group_of t1 = Some Groups_N
                      then toUnitMultiplier False
                             (set_value (string_of_int (frac_num (multiplier t1))) t1)
                      else set_value (text_hash E t1) t1)
            in Inr (set_group (Some Groups_EX) t2))
         else Inr t)
      else if grp = Groups_N then
        (let m = frac_toDecimal E (multiplier t);
             t1 = (if symbols t \<noteq> None then set_symbols None t else t);
             n = new_Symbol E (if group_of t1 = Some Groups_P
                               then float_fold E m (value_of t1) (power_of t1)
                               else frac_of_string E m)
         in Inr (clone E (Some t1) n))
      else if grp = Groups_P \<and> group_of t = Some Groups_N then
        (let num = frac_num (multiplier t);
             t1 = set_value (if imaginary_flag then string_of_int num else string_of_nat (nat \<bar>num\<bar>)) t
         in Inr (set_group (Some Groups_P) (toUnitMultiplier (\<not> imaginary_flag) t1)))
      else Inr t)"
| "toLinear E t =
     (if power_equals_num E (power_of t) 1 then Inr t
      else setPower E (PFrac 1) False t)"
| "setPower E p retainSign t =
     (if group_of t = Some Groups_N \<and> multiplier t = 1 then Inr t
      else if group_of t = Some Groups_EX \<and> (case p of PFrac q \<Rightarrow> True | PSym s \<Rightarrow> False) then
        (let t1 = set_previousGroup None (set_group (previousGroup t) t)
         in if group_of t1 = Some Groups_N
            then Inr (set_value (CONST_HASH E) (set_multiplier (frac_of_string E (value_of t1)) t1))
            else Inr (set_power p t1))
      else
        (let isSymbolic = (case p of PFrac q \<Rightarrow> False | PSym s \<Rightarrow> group_of s \<noteq> Some Groups_N);
             p' = (case p of PFrac q \<Rightarrow> PFrac q
                   | PSym s \<Rightarrow> if group_of s = Some Groups_N then PFrac (multiplier s) else PSym s);
             grp = (if isSymbolic then Groups_EX else Groups_P);
             t1 = set_power p' t
         in if group_of t1 = Some Groups_N then convert E grp retainSign t1 else Inr t1))"
  by pat_completeness auto
termination
  by (relation "measure (\<lambda>x. case x of
          Inl (E, grp, im, t) \<Rightarrow> if group_num grp > group_num Groups_FN then 3 else 0
        | Inr (Inl (E, t)) \<Rightarrow> 2
        | Inr (Inr (E, p, r, t)) \<Rightarrow> 1)")
     (auto split: power_val.splits)

declare convert.simps [simp del] toLinear.simps [simp del] setPower.simps [simp del]

subsection \<open>\<^verbatim>\<open>insert\<close>\<close>

text \<open>\<^verbatim>\<open>this.length--\<close> and \<^verbatim>\<open>this.length++\<close>; an undefined length stays not a number.\<close>

definition length_dec :: "int option \<Rightarrow> int option" where
  "length_dec l = map_option (\<lambda>n. n - 1) l"

definition length_inc :: "int option \<Rightarrow> int option" where
  "length_inc l = map_option (\<lambda>n. n + 1) l"

text \<open>
  The branch \<^verbatim>\<open>action === 'add'\<close> of \<^verbatim>\<open>insert\<close>, on the children object \<open>obj\<close> of the term:
  with a child at the key, the kernel adds the two and the sum takes the place; a sum
  with multiplier 0 is deleted and the length decremented, and at length 0 the term is
  converted to N and its multiplier set to 0. Without a child at the key the symbol is
  stored and the length incremented. At an inherited name the kernel's \<^verbatim>\<open>add\<close> is given
  what is inherited; what it makes of that is the parameter \<open>kernel_add_inherited\<close>.
\<close>

definition insert_add ::
  "env \<Rightarrow> symbol \<Rightarrow> (string \<times> symbol) list \<Rightarrow> string \<Rightarrow> slot \<Rightarrow> symbol \<Rightarrow> error + symbol" where
  "insert_add E t obj key existing symbol =
     (case existing of
        Absent \<Rightarrow>
          Inr (set_length (length_inc (length_of t)) (set_symbols (Some (obj_assign obj key symbol)) t))
      | _ \<Rightarrow>
          and_then (case existing of
                      Own ex \<Rightarrow> kernel_add E ex symbol
                    | _ \<Rightarrow> kernel_add_inherited E key symbol) (\<lambda>r.
            let obj1 = obj_assign obj key r in
            if multiplier r = 0 then
              (let t2 = set_length (length_dec (length_of t))
                          (set_symbols (Some (obj_delete obj1 key)) t)
               in if length_of t2 = Some 0
                  then and_then (convert E Groups_N False t2) (\<lambda>t3. Inr (set_multiplier 0 t3))
                  else Inr t2)
            else Inr (set_symbols (Some obj1) t)))"

text \<open>
  The other branch (the action of \<^verbatim>\<open>combine\<close>): a symbol of group P with an integer power
  is converted to N (\<open>unwrap_P\<close>); the symbol's multiplier moves to the head (\<open>head_factor\<close>)
  and the symbol gets multiplier 1 (\<open>unit_form\<close>), except that a symbol of group EX keeps
  its sign, is marked \<^verbatim>\<open>parens\<close> when negative, and gives the head the absolute value; with a child at the key, that
  child is removed (\<^verbatim>\<open>remove\<close> of \<^verbatim>\<open>Core/Utils\<close>: delete and hand back) and multiplied with
  the symbol by the kernel, a constant product is folded into the head and replaced by
  \<^verbatim>\<open>new Symbol(1)\<close>, and the length is decremented; then the symbol is stored unless
  \<^verbatim>\<open>isOne(true)\<close>, in which case a negative one negates the head. At an inherited name
  \<^verbatim>\<open>remove\<close> deletes nothing and hands back what is inherited, and what the kernel's
  \<^verbatim>\<open>multiply\<close> makes of that is the parameter \<open>kernel_multiply_inherited\<close>.
\<close>

definition unwrap_P :: "env \<Rightarrow> symbol \<Rightarrow> error + symbol" where
  "unwrap_P E symbol =
     (if group_of symbol = Some Groups_P \<and> isInt E (power_of symbol)
      then convert E Groups_N False symbol else Inr symbol)"

definition head_factor :: "symbol \<Rightarrow> rat" where
  "head_factor s = (if group_of s \<noteq> Some Groups_EX then multiplier s else \<bar>multiplier s\<bar>)"

definition unit_form :: "symbol \<Rightarrow> symbol" where
  "unit_form s =
     (if group_of s \<noteq> Some Groups_EX then toUnitMultiplier False s
      else toUnitMultiplier True (set_parens (Some (multiplier s < 0)) s))"

definition insert_multiply ::
  "env \<Rightarrow> symbol \<Rightarrow> (string \<times> symbol) list \<Rightarrow> string \<Rightarrow> slot \<Rightarrow> symbol \<Rightarrow> error + symbol" where
  "insert_multiply E t obj key existing symbol =
     and_then (unwrap_P E symbol) (\<lambda>s1.
       let t1 = set_multiplier (multiplier t * head_factor s1) t;
           s2 = unit_form s1
       in and_then
            (case existing of
               Absent \<Rightarrow> Inr (t1, s2)
             | _ \<Rightarrow>
                 and_then (case existing of
                             Own ex \<Rightarrow> kernel_multiply E ex s2
                           | _ \<Rightarrow> kernel_multiply_inherited E key s2) (\<lambda>s3.
                 and_then (isConstant E False s3) (\<lambda>c.
                   let t2 = set_symbols (Some (obj_delete obj key)) t1;
                       t3 = (if c then set_multiplier (multiplier t2 * multiplier s3) t2 else t2);
                       s4 = (if c then new_Symbol E 1 else s3)
                   in Inr (set_length (length_dec (length_of t3)) t3, s4))))
            (\<lambda>(t4, s5).
               if \<not> isOne E True s5 then
                 (case symbols t4 of
                    None \<Rightarrow> Inl TypeError
                  | Some obj4 \<Rightarrow>
                      Inr (set_length (length_inc (length_of t4))
                             (set_symbols (Some (obj_assign obj4 key s5)) t4)))
               else if multiplier s5 < 0 then Inr (negate E t4)
               else Inr t4))"

text \<open>
  \<^verbatim>\<open>insert(symbol, action)\<close>: only a term with a children object and a group above FN is
  touched. After the branch, a term of length 0 is converted to N, and a term of group
  CP or CB gets its hash updated.
\<close>

definition insert_sym :: "env \<Rightarrow> symbol \<Rightarrow> symbol \<Rightarrow> string \<Rightarrow> error + symbol" where
  "insert_sym E t symbol action =
     (case symbols t of
        None \<Rightarrow> Inr t
      | Some obj \<Rightarrow>
          (case group_of t of
             None \<Rightarrow> Inr t
           | Some grp \<Rightarrow>
               if gt_FN (Some grp) then
                 and_then (keyForGroup E symbol grp) (\<lambda>key.
                   let existing = slot_of obj key in
                   and_then (if action = ''add''
                             then insert_add E t obj key existing symbol
                             else insert_multiply E t obj key existing symbol) (\<lambda>t1.
                   and_then (if length_of t1 = Some 0
                             then convert E Groups_N False t1 else Inr t1) (\<lambda>t2.
                     if group_of t2 = Some Groups_CP \<or> group_of t2 = Some Groups_CB
                     then updateHash E t2 else Inr t2)))
               else Inr t))"

subsection \<open>The children of a product in unit form\<close>



subsection \<open>\<^verbatim>\<open>variables\<close>\<close>

text \<open>
  The collector: \<^verbatim>\<open>if (this.c.indexOf(value) === -1 && isNaN(value)) this.c.push(value)\<close>.
\<close>

definition vars_add :: "env \<Rightarrow> string \<Rightarrow> string list \<Rightarrow> string list" where
  "vars_add E x c = (if x \<notin> set c \<and> isNaN E x then c @ [x] else c)"

text \<open>
  \<^verbatim>\<open>firstObject\<close> (of \<^verbatim>\<open>Core/Utils\<close>, not among the sources): the first child of the
  children object, if there is one.
\<close>

definition firstObject :: "(string \<times> symbol) list option \<Rightarrow> symbol option" where
  "firstObject sy = (case sy of Some (kv # _) \<Rightarrow> Some (snd kv) | _ \<Rightarrow> None)"

text \<open>A loop whose body may raise, with the collector threaded through.\<close>

fun fold_err :: "('a \<Rightarrow> 'b \<Rightarrow> error + 'b) \<Rightarrow> 'a list \<Rightarrow> 'b \<Rightarrow> error + 'b" where
  "fold_err f [] c = Inr c"
| "fold_err f (x # xs) c = (case f x c of Inl e \<Rightarrow> Inl e | Inr c' \<Rightarrow> fold_err f xs c')"

lemma fold_err_cong [fundef_cong]:
  "xs = ys \<Longrightarrow> c = d \<Longrightarrow> (\<And>x a. x \<in> set ys \<Longrightarrow> f x a = g x a)
   \<Longrightarrow> fold_err f xs c = fold_err g ys d"
proof (induction ys arbitrary: xs c d)
  case Nil
  then show ?case by simp
next
  case (Cons y ys)
  then show ?case by (auto split: sum.splits)
qed

text \<open>
  \<^verbatim>\<open>variables(poly, vars)\<close> with the collector's array \<open>c\<close> passed in and handed back. Every
  call ends with \<^verbatim>\<open>vars.c.sort()\<close>, which sorts the shared array in place (by code units).
  The branches are the source's, in its order: a term of group EX first walks its power;
  then exactly one of: the children (CP, CB, also as previous group), the name (S), the
  first child (PL), the EX branch, the arguments of a function unless \<^verbatim>\<open>poly\<close>.
\<close>

function variables_in :: "env \<Rightarrow> bool \<Rightarrow> symbol \<Rightarrow> string list \<Rightarrow> error + string list" where
  "variables_in E poly (Symbol g v m pw sy l pg im nf fn ar sc co un pa ig) c =
     and_then
       (if g = Some Groups_EX
        then (case pw of PSym s \<Rightarrow> variables_in E poly s c | PFrac q \<Rightarrow> Inr c)
        else Inr c) (\<lambda>c1.
     and_then
       (if g = Some Groups_CP \<or> g = Some Groups_CB \<or> pg = Some Groups_CP \<or> pg = Some Groups_CB then
          (case sy of
             None \<Rightarrow> Inr c1
           | Some xs \<Rightarrow> fold_err (\<lambda>kv a. variables_in E poly (snd kv) a) xs c1)
        else if g = Some Groups_S \<or> pg = Some Groups_S then
          (if \<not> (v = ''e'' \<or> v = ''pi'' \<or> v = IMAGINARY E) then Inr (vars_add E v c1) else Inr c1)
        else if g = Some Groups_PL \<or> pg = Some Groups_PL then
          (case firstObject sy of
             Some fo \<Rightarrow> variables_in E poly fo c1
           | None \<Rightarrow> Inr c1)
        else if g = Some Groups_EX then
          (let c2 = (if \<not> isNaN E v then vars_add E v c1 else c1)
           in case pw of PSym s \<Rightarrow> variables_in E poly s c2 | PFrac q \<Rightarrow> Inr c2)
        else if g = Some Groups_FN \<and> \<not> poly then
          (case ar of
             None \<Rightarrow> Inl TypeError
           | Some as \<Rightarrow> fold_err (\<lambda>x a. variables_in E poly x a) as c1)
        else Inr c1) (\<lambda>c3. Inr (sort c3)))"

  by pat_completeness auto
termination
proof (relation "measure (\<lambda>(E, poly, t, c). size t)", goal_cases)
  case 1
  then show ?case by simp
next
  case (2 E poly g v m pw sy l pg im nf fn ar sc co un pa ig c x2)
  then show ?case by simp
next
  case (3 E poly g v m pw sy l pg im nf fn ar sc co un pa ig c x x2 xa a)
  have "size (snd xa) \<le> size_prod (\<lambda>x. 0) size xa"
    by (cases xa) simp
  with 3 have "size (snd xa) \<le> size_list (size_prod (\<lambda>x. 0) size) x2"
    by (intro size_list_estimation') auto
  with 3 show ?case by simp
next
  case (4 E poly g v m pw sy l pg im nf fn ar sc co un pa ig c x x2)
  then obtain kv rest where "sy = Some (kv # rest)" "x2 = snd kv"
    by (auto simp: firstObject_def split: option.splits list.splits)
  then show ?case by (cases kv) simp
next
  case (5 E poly g v m pw sy l pg im nf fn ar sc co un pa ig c x xa x2)
  then show ?case by simp
next
  case (6 E poly g v m pw sy l pg im nf fn ar sc co un pa ig c x x2 xa a)
  then have "size xa \<le> size_list size x2"
    by (intro size_list_estimation') auto
  with 6 show ?case by simp
qed

text \<open>\<^verbatim>\<open>t.variables()\<close>: \<^verbatim>\<open>poly\<close> is false and the collector starts empty.\<close>

definition variables :: "env \<Rightarrow> symbol \<Rightarrow> error + string list" where
  "variables E t = variables_in E False t []"

section \<open>The wrapper's comparisons\<close>

text \<open>
  The methods \<^verbatim>\<open>eq\<close>, \<^verbatim>\<open>lt\<close> and \<^verbatim>\<open>gt\<close> of the class \<^verbatim>\<open>Expression\<close>. The argument is a
  Symbol or something else, which \<^verbatim>\<open>parse\<close> turns into one before the \<^verbatim>\<open>try\<close> block is
  entered; inside the block the kernel subtracts (and, for \<^verbatim>\<open>lt\<close> and \<^verbatim>\<open>gt\<close>, evaluates)
  and the difference is compared with 0; \<^verbatim>\<open>catch(e) { return false; }\<close>.
\<close>

datatype expression = Expression (symbol_of: symbol)

datatype value_arg = VSym symbol | VText string

definition to_symbol :: "env \<Rightarrow> value_arg \<Rightarrow> error + symbol" where
  "to_symbol E val = (case val of VSym s \<Rightarrow> Inr s | VText x \<Rightarrow> kernel_parse E x)"

definition catch_false :: "error + bool \<Rightarrow> bool" where
  "catch_false r = (case r of Inl e \<Rightarrow> False | Inr b \<Rightarrow> b)"

definition Expression_eq :: "env \<Rightarrow> expression \<Rightarrow> value_arg \<Rightarrow> error + bool" where
  "Expression_eq E this val =
     and_then (to_symbol E val) (\<lambda>v.
       Inr (catch_false
         (and_then (kernel_subtract E (clone E None (symbol_of this)) v) (\<lambda>d.
            Inr (equals E d (ANum 0))))))"

definition Expression_lt :: "env \<Rightarrow> expression \<Rightarrow> value_arg \<Rightarrow> error + bool" where
  "Expression_lt E this val =
     and_then (to_symbol E val) (\<lambda>v.
       Inr (catch_false
         (and_then (kernel_subtract E (clone E None (symbol_of this)) v) (\<lambda>s.
          and_then (kernel_evaluate E s) (\<lambda>d.
            Inr (lessThan_sym d (ANum 0)))))))"

definition Expression_gt :: "env \<Rightarrow> expression \<Rightarrow> value_arg \<Rightarrow> error + bool" where
  "Expression_gt E this val =
     and_then (to_symbol E val) (\<lambda>v.
       Inr (catch_false
         (and_then (kernel_subtract E (clone E None (symbol_of this)) v) (\<lambda>s.
          and_then (kernel_evaluate E s) (\<lambda>d.
            greaterThan_sym E d (ANum 0))))))"

subsection \<open>The spec's notions for \<^verbatim>\<open>clone\<close>\<close>



subsection \<open>\<^verbatim>\<open>clone\<close> on a store\<close>

text \<open>
  Terms are objects: a child, a term power and an argument are references. A store is
  the list of the objects made so far and the address of an object is its index;
  \<^verbatim>\<open>new Symbol(0)\<close> puts an object at the end. A cell has the properties that \<^verbatim>\<open>clone\<close> reads
  and writes; a rational power and the multiplier are kept by value
  (\<^verbatim>\<open>this.power.clone()\<close>, \<^verbatim>\<open>this.multiplier.clone()\<close> on a \<^verbatim>\<open>Frac\<close>), the children object is the
  list of its keys with the addresses of the children, and \<^verbatim>\<open>args\<close> is the list of the
  addresses of the arguments.
\<close>

type_synonym addr = nat

datatype power_ref = PowFrac rat | PowRef addr

record cell =
  c_group :: "group option"
  c_value :: string
  c_multiplier :: rat
  c_power :: power_ref
  c_symbols :: "(string \<times> addr) list option"
  c_length :: "int option"
  c_previousGroup :: "group option"
  c_imaginary :: "bool option"
  c_isInfinity :: "bool option"
  c_fname :: "string option"
  c_args :: "addr list option"
  c_scientific :: "bool option"
  c_isConversion :: bool
  c_isUnit :: bool

type_synonym store = "cell list"

definition new_cell :: "env \<Rightarrow> rat \<Rightarrow> cell" where
  "new_cell E q =
     \<lparr> c_group = Some Groups_N, c_value = CONST_HASH E, c_multiplier = q, c_power = PowFrac 1,
       c_symbols = None, c_length = None, c_previousGroup = None, c_imaginary = None,
       c_isInfinity = None, c_fname = None, c_args = None, c_scientific = None,
       c_isConversion = False, c_isUnit = False \<rparr>"

definition upd :: "addr \<Rightarrow> (cell \<Rightarrow> cell) \<Rightarrow> store \<Rightarrow> store" where
  "upd a f h = h[a := f (h ! a)]"

text \<open>
  The loop over the list of properties, and the two flags, on cells. The property \<^verbatim>\<open>args\<close>
  is copied as it is: the clone holds the arguments of the term, not clones of them.
\<close>

definition copy_defined_c :: "cell \<Rightarrow> cell \<Rightarrow> cell" where
  "copy_defined_c this c =
     (let c2 = c\<lparr>c_value := c_value this\<rparr>;
          c3 = (if c_group this \<noteq> None then c2\<lparr>c_group := c_group this\<rparr> else c2);
          c4 = (if c_length this \<noteq> None then c3\<lparr>c_length := c_length this\<rparr> else c3);
          c5 = (if c_previousGroup this \<noteq> None then c4\<lparr>c_previousGroup := c_previousGroup this\<rparr> else c4);
          c6 = (if c_imaginary this \<noteq> None then c5\<lparr>c_imaginary := c_imaginary this\<rparr> else c5);
          c7 = (if c_fname this \<noteq> None then c6\<lparr>c_fname := c_fname this\<rparr> else c6);
          c8 = (if c_args this \<noteq> None then c7\<lparr>c_args := c_args this\<rparr> else c7);
          c9 = (if c_isInfinity this \<noteq> None then c8\<lparr>c_isInfinity := c_isInfinity this\<rparr> else c8);
          c10 = (if c_scientific this \<noteq> None then c9\<lparr>c_scientific := c_scientific this\<rparr> else c9)
      in c10)"

definition copy_flags_c :: "cell \<Rightarrow> cell \<Rightarrow> cell" where
  "copy_flags_c this c =
     (let c13 = (if c_isConversion this then c\<lparr>c_isConversion := c_isConversion this\<rparr> else c);
          c14 = (if c_isUnit this then c13\<lparr>c_isUnit := c_isUnit this\<rparr> else c13)
      in c14)"

definition set_child :: "string \<Rightarrow> addr \<Rightarrow> cell \<Rightarrow> cell" where
  "set_child x a c =
     c\<lparr>c_symbols := Some (obj_set (case c_symbols c of None \<Rightarrow> [] | Some ys \<Rightarrow> ys) x a)\<rparr>"



text \<open>
  The addresses a cell refers to through its children object and its power; the objects
  reached from an address through them; a store in which the object at an address is a
  tree of depth at most \<^verbatim>\<open>n\<close>. \<open>frame_s\<close> and \<open>frame_l\<close> say what a clone and the loop leave
  as it was.
\<close>

definition refs :: "cell \<Rightarrow> addr set" where
  "refs c = (case c_symbols c of None \<Rightarrow> {} | Some xs \<Rightarrow> snd ` set xs)
            \<union> (case c_power c of PowFrac p \<Rightarrow> {} | PowRef r \<Rightarrow> {r})"





subsection \<open>A concrete environment and concrete terms\<close>

text \<open>
  An environment for evaluating the model on concrete terms: the constant hash \<^verbatim>\<open>#\<close>, the
  imaginary unit \<^verbatim>\<open>i\<close>, a renderer that prints the value, and kernel functions that
  refuse every call.
\<close>

definition env0 :: env where
  "env0 = \<lparr> CONST_HASH = ''#'', IMAGINARY = ''i'', POWER_OPERATOR = ''^'',
            PARENTHESIS = ''parens'',
            text_hash = value_of, text_plain = value_of,
            frac_toDecimal = (\<lambda>q. string_of_int (frac_num q)),
            frac_toString = (\<lambda>q. string_of_int (frac_num q)),
            frac_of_string = (\<lambda>s. if s = ''0'' then 0 else 1),
            text_frac = (\<lambda>q. string_of_int (frac_num q)),
            float_fold = (\<lambda>m v p. 0),
            isInt = (\<lambda>p. case p of PFrac q \<Rightarrow> snd (quotient_of q) = 1 | PSym s \<Rightarrow> False),
            isNaN = (\<lambda>s. s = [] \<or> \<not> list_all (\<lambda>c. c \<in> set ''0123456789'') s),
            isNumericSymbol = (\<lambda>s. group_of s = Some Groups_N \<or> group_of s = Some Groups_P),
            kernel_add = (\<lambda>a b. Inl (KernelError ''add'')),
            kernel_multiply = (\<lambda>a b. Inl (KernelError ''multiply'')),
            kernel_add_inherited = (\<lambda>k b. Inl (KernelError ''add'')),
            kernel_multiply_inherited = (\<lambda>k b. Inl (KernelError ''multiply'')),
            kernel_subtract = (\<lambda>a b. Inl (KernelError ''subtract'')),
            kernel_evaluate = (\<lambda>a. Inl (KernelError ''evaluate'')),
            kernel_parse = (\<lambda>s. Inl (KernelError ''parse'')) \<rparr>"

text \<open>The same with a kernel whose \<^verbatim>\<open>add\<close> sums the multipliers (of like terms).\<close>

definition env_sum :: env where
  "env_sum = env0\<lparr>kernel_add := \<lambda>a b. Inr (set_multiplier (multiplier a + multiplier b) a)\<rparr>"


text \<open>The atom \<open>name\<close> with multiplier \<open>m\<close> and rational power \<open>p\<close>.\<close>

definition atom :: "string \<Rightarrow> rat \<Rightarrow> rat \<Rightarrow> symbol" where
  "atom name m p =
     Symbol (Some Groups_S) name m (PFrac p) None None None (Some False) (Some False) None None None
       False False None False"

text \<open>A composite of group \<open>g\<close> with value \<open>v\<close>, multiplier \<open>m\<close>, power 1 and the given children.\<close>

definition composite :: "group \<Rightarrow> string \<Rightarrow> rat \<Rightarrow> (string \<times> symbol) list \<Rightarrow> symbol" where
  "composite g v m cs =
     Symbol (Some g) v m (PFrac 1) (Some cs) (Some (int (length cs))) None (Some False) (Some False)
       None None None False False None False"



definition sin_x :: symbol where
  "sin_x =
     Symbol (Some Groups_FN) ''sin(x)'' 1 (PFrac 1) None None None
       (Some False) (Some False) (Some ''sin'') (Some [atom ''x'' 1 1]) None False False None False"

definition sin_x_pow_y :: symbol where
  "sin_x_pow_y =
     Symbol (Some Groups_EX) ''sin(x)'' 1 (PSym (atom ''y'' 1 1)) None None (Some Groups_FN)
       (Some False) (Some False) (Some ''sin'') (Some [atom ''x'' 1 1]) None False False None False"



section \<open>The tokenizer of \<^verbatim>\<open>Parser/Tokenizer.ts\<close>\<close>

text \<open>
  Strings are lists of characters; a JavaScript string whose code units are below 256 is
  the list of its code units.

  Modelled from the spec: the dependencies injected at construction, which are not among
  the sources. A bracket of the brackets map has an id and says whether it opens or
  closes and what function it maps to; the operator dictionary is its list of glyphs,
  each of one or more characters, so the empty string is no operator; the function
  provider answers whether a name has a descriptor; the units map is its list of keys.
  \<^verbatim>\<open>isNumber\<close> (of \<^verbatim>\<open>Core/Utils\<close>) is applied to the first entry of the current scope.
\<close>

record bracket =
  bracket_id :: int
  is_open :: bool
  is_close :: bool
  maps_to :: "string option"

datatype token_type = OPERATOR | FUNCTION | VARIABLE_OR_LITERAL | UNIT

text \<open>
  An entry of a scope is a token (value, type, column) or a nested scope, which is an array
  with a \<^verbatim>\<open>type\<close> (when \<^verbatim>\<open>addScope\<close> was given one) and a \<^verbatim>\<open>column\<close>. The operator
  descriptor that an operator token also carries is looked up from its value and is left
  out.
\<close>

datatype tok =
  Token string token_type nat
| Scope "tok list" "string option" "nat option"

record tokenizer_deps =
  getFunctionDescriptor :: "string \<Rightarrow> bool"
  brackets :: "(char \<times> bracket) list"
  operator_glyphs :: "string list"
  units :: "string list"
  isNumber :: "tok \<Rightarrow> bool"

definition isOperator :: "tokenizer_deps \<Rightarrow> string \<Rightarrow> bool" where
  "isOperator T s \<longleftrightarrow> s \<noteq> [] \<and> s \<in> set (operator_glyphs T)"

subsection \<open>Strings\<close>

text \<open>\<^verbatim>\<open>charAt\<close> (the empty string out of range) and \<^verbatim>\<open>substring\<close> (clamped, swapped).\<close>

definition charAt :: "string \<Rightarrow> nat \<Rightarrow> string" where
  "charAt e i = (if i < length e then [e ! i] else [])"

definition substring :: "string \<Rightarrow> nat \<Rightarrow> nat \<Rightarrow> string" where
  "substring e a b =
     (let a' = min a (length e); b' = min b (length e)
      in take (max a' b' - min a' b') (drop (min a' b') e))"

text \<open>The characters that \<^verbatim>\<open>\s\<close> matches among the code units below 256.\<close>

definition is_space :: "char \<Rightarrow> bool" where
  "is_space c \<longleftrightarrow> of_char c \<in> {9, 10, 11, 12, 13, 32, 160 :: nat}"

subsection \<open>The state of the scan\<close>

text \<open>
  The scopes under construction, innermost first: each is the list of its entries so far
  with the scope's type and column; the last one is the root \<^verbatim>\<open>tokens\<close>. \<^verbatim>\<open>target\<close> is the
  first of the stack and \<^verbatim>\<open>depth\<close> its height less one. A nested scope is an entry of its
  parent from the moment it is opened; no entry is added to the parent while the child
  is the target, so the child is written into the parent when it is left.
\<close>

record tstate =
  col :: nat
  lpos :: nat
  scopes :: "(tok list \<times> string option \<times> nat option) list"
  has_space :: bool
  open_brackets :: "(bracket \<times> nat) list"

definition target_push :: "tok list \<Rightarrow> tstate \<Rightarrow> error + tstate" where
  "target_push ts st =
     (case scopes st of
        [] \<Rightarrow> Inl TypeError
      | (entries, ty, c) # rest \<Rightarrow> Inr (st\<lparr>scopes := (entries @ ts, ty, c) # rest\<rparr>))"

definition addScope :: "string option \<Rightarrow> nat option \<Rightarrow> tstate \<Rightarrow> error + tstate" where
  "addScope scope_type column st =
     (case scopes st of
        [] \<Rightarrow> Inl TypeError
      | _ \<Rightarrow> Inr (st\<lparr>scopes := ([], scope_type, column) # scopes st\<rparr>))"

text \<open>
  \<^verbatim>\<open>goUp\<close>. With only the root on the stack the source would leave \<^verbatim>\<open>target\<close> undefined and
  fail on the next push; the scan never gets there, since every \<^verbatim>\<open>goUp\<close> answers an
  \<^verbatim>\<open>addScope\<close>.
\<close>

definition goUp :: "tstate \<Rightarrow> error + tstate" where
  "goUp st =
     (case scopes st of
        (entries, ty, c) # (pentries, pty, pc) # rest \<Rightarrow>
          Inr (st\<lparr>scopes := (pentries @ [Scope entries ty c], pty, pc) # rest\<rparr>)
      | _ \<Rightarrow> Inl TypeError)"

definition target_first :: "tstate \<Rightarrow> tok option" where
  "target_first st =
     (case scopes st of (t # entries, ty, c) # rest \<Rightarrow> Some t | _ \<Rightarrow> None)"

subsection \<open>The helpers of the scan\<close>

text \<open>
  \<^verbatim>\<open>get_operator_str\<close>: \<^verbatim>\<open>end\<close> starts one past the operator that was found and moves on
  while the character there is an operator; the slice ends before the first character
  that is not.
\<close>

definition get_operator_str :: "tokenizer_deps \<Rightarrow> string \<Rightarrow> nat \<Rightarrow> string" where
  "get_operator_str T e start_at =
     (let k = length (takeWhile (\<lambda>c. isOperator T [c]) (drop (start_at + 1) e))
      in substring e start_at (start_at + 1 + k))"

text \<open>
  \<^verbatim>\<open>chunkify\<close>: the operator run is cut greedily into known operators; \<^verbatim>\<open>index\<close> starts at
  \<^verbatim>\<open>this.col - operator_str.length + 1\<close> and grows with the loop.
\<close>

fun chunkify_loop :: "tokenizer_deps \<Rightarrow> string \<Rightarrow> nat \<Rightarrow> string \<Rightarrow> tok list" where
  "chunkify_loop T operator index [] = [Token operator OPERATOR index]"
| "chunkify_loop T operator index (ch # rest) =
     (if \<not> isOperator T (operator @ [ch])
      then Token operator OPERATOR index # chunkify_loop T [ch] (index + 1) rest
      else chunkify_loop T (operator @ [ch]) (index + 1) rest)"

definition chunkify :: "tokenizer_deps \<Rightarrow> nat \<Rightarrow> string \<Rightarrow> tok list" where
  "chunkify T this_col operator_str =
     chunkify_loop T (take 1 operator_str) (this_col + 1 - length operator_str) (drop 1 operator_str)"

text \<open>\<^verbatim>\<open>add_token(at, token)\<close>: a unit, or a variable or literal unless empty.\<close>

definition add_token :: "tokenizer_deps \<Rightarrow> string \<Rightarrow> string \<Rightarrow> tstate \<Rightarrow> error + tstate" where
  "add_token T e token st =
     (if token \<in> set (units T) then target_push [Token token UNIT (lpos st)] st
      else if token \<noteq> [] then target_push [Token token VARIABLE_OR_LITERAL (lpos st)] st
      else Inr st)"

definition add_function :: "string \<Rightarrow> tstate \<Rightarrow> error + tstate" where
  "add_function f st = target_push [Token f FUNCTION (lpos st)] st"

subsection \<open>One character of the scan\<close>

text \<open>An operator character.\<close>

definition scan_operator :: "tokenizer_deps \<Rightarrow> string \<Rightarrow> char \<Rightarrow> tstate \<Rightarrow> error + tstate" where
  "scan_operator T e ch st =
     and_then (add_token T e (substring e (lpos st) (col st)) st) (\<lambda>st1.
       let last_token_is_numeric =
             (case target_first st1 of None \<Rightarrow> False | Some t \<Rightarrow> isNumber T t);
           is_multiplication = (last_token_is_numeric \<and> ch = CHR ''*'')
       in and_then
            (if has_space st1 \<and> lpos st1 < col st1 \<and> \<not> (ch = CHR '','' \<or> is_multiplication)
             then goUp (st1\<lparr>has_space := False\<rparr>) else Inr st1) (\<lambda>st2.
          let st3 = st2\<lparr>lpos := col st2 + 1 + 1\<rparr>;
              operator_str = get_operator_str T e (col st3);
              st4 = st3\<lparr>lpos := lpos st3 + length operator_str - 2\<rparr>;
              st5 = st4\<lparr>col := lpos st4 - 1\<rparr>
          in target_push (chunkify T (col st5) operator_str) st5))"

text \<open>
  A bracket character. An opening bracket is pushed with the position \<^verbatim>\<open>lpos\<close> of the
  pending token. A closing bracket pops the stack: without an entry the error cites the
  column of the bracket, counted from 1; with an entry whose id is not the bracket's id
  less one the error is the bare \<^verbatim>\<open>'Parity error'\<close>.
\<close>

definition scan_bracket :: "tokenizer_deps \<Rightarrow> string \<Rightarrow> bracket \<Rightarrow> tstate \<Rightarrow> error + tstate" where
  "scan_bracket T e b st =
     and_then
       (if is_open b then
          (let st1 = st\<lparr>open_brackets := (b, lpos st) # open_brackets st\<rparr>;
               f = substring e (lpos st1) (col st1)
           in and_then
                (if getFunctionDescriptor T f then add_function f st1
                 else if f \<noteq> [] then target_push [Token f VARIABLE_OR_LITERAL (lpos st1)] st1
                 else Inr st1)
                (addScope (maps_to b) (Some (col st1))))
        else if is_close b then
          (case open_brackets st of
             [] \<Rightarrow>
               Inl (ParityError (''Missing open bracket for bracket at: '' @ string_of_nat (col st + 1)))
           | pair # rest \<Rightarrow>
               if bracket_id (fst pair) \<noteq> bracket_id b - 1 then Inl (ParityError ''Parity error'')
               else and_then (add_token T e (substring e (lpos st) (col st))
                                (st\<lparr>open_brackets := rest\<rparr>)) goUp)
        else Inr st)
       (\<lambda>st'. Inr (st'\<lparr>lpos := col st' + 1\<rparr>))"

text \<open>A space.\<close>

definition scan_space :: "tokenizer_deps \<Rightarrow> string \<Rightarrow> tstate \<Rightarrow> error + tstate" where
  "scan_space T e st =
     (let prev = substring e (lpos st) (col st);
          nxt = charAt e (col st + 1)
      in and_then
           (if has_space st then
              and_then
                (if isOperator T prev then target_push [Token prev OPERATOR (col st)] st
                 else
                   and_then (add_token T e prev st) (\<lambda>st1.
                   and_then (goUp st1) (\<lambda>st2.
                     let is_operator = isOperator T nxt in
                     if (is_operator \<and> nxt = ''-'') \<or> \<not> is_operator
                     then target_push [Token ''*'' OPERATOR (col st2)] st2
                     else Inr st2)))
                (\<lambda>st3. Inr (st3\<lparr>has_space := False\<rparr>))
            else
              (let f = substring e (lpos st) (col st) in
               if getFunctionDescriptor T f then
                 and_then (add_function f (st\<lparr>has_space := True\<rparr>)) (addScope None None)
               else if isOperator T f then target_push [Token f OPERATOR (col st)] st
               else
                 and_then (add_token T e f st) (\<lambda>st1.
                   if prev \<noteq> [] \<and> nxt \<noteq> [] \<and> \<not> isOperator T prev \<and> \<not> isOperator T nxt
                   then target_push [Token ''*'' OPERATOR (col st1)] st1
                   else Inr st1)))
           (\<lambda>st'. Inr (st'\<lparr>lpos := col st' + 1\<rparr>)))"

text \<open>The body of the \<^verbatim>\<open>for\<close> loop, on the character at \<^verbatim>\<open>col\<close>.\<close>

definition scan_char :: "tokenizer_deps \<Rightarrow> string \<Rightarrow> tstate \<Rightarrow> error + tstate" where
  "scan_char T e st =
     (let ch = e ! col st in
      if isOperator T [ch] then scan_operator T e ch st
      else case map_of (brackets T) ch of
             Some b \<Rightarrow> scan_bracket T e b st
           | None \<Rightarrow> if ch = CHR '' '' then scan_space T e st else Inr st)"


subsection \<open>The scan\<close>

lemma target_push_col: "target_push ts st = Inr st' \<Longrightarrow> col st' = col st"
  by (auto simp: target_push_def split: list.splits prod.splits)

lemma addScope_col: "addScope ty c st = Inr st' \<Longrightarrow> col st' = col st"
  by (auto simp: addScope_def split: list.splits)

lemma goUp_col: "goUp st = Inr st' \<Longrightarrow> col st' = col st"
  by (auto simp: goUp_def split: list.splits prod.splits)

lemma add_token_col: "add_token T e token st = Inr st' \<Longrightarrow> col st' = col st"
  by (auto simp: add_token_def dest: target_push_col split: if_splits)

lemma and_then_Inr: "and_then r f = Inr y \<Longrightarrow> \<exists>x. r = Inr x \<and> f x = Inr y"
  by (cases r) (simp_all add: and_then_def)

lemma get_operator_str_length:
  "i < length e \<Longrightarrow> 1 \<le> length (get_operator_str T e i)"
proof -
  assume i: "i < length e"
  let ?k = "length (takeWhile (\<lambda>c. isOperator T [c]) (drop (i + 1) e))"
  have "?k \<le> length e - (i + 1)"
    using length_takeWhile_le[of "\<lambda>c. isOperator T [c]" "drop (i + 1) e"] by simp
  with i have "i + 1 + ?k \<le> length e" by arith
  with i have "1 \<le> length (substring e i (i + 1 + ?k))"
    unfolding substring_def Let_def by (auto simp: min_def max_def)
  then show ?thesis
    by (simp add: get_operator_str_def Let_def)
qed

lemma scan_char_col:
  assumes "col st < length e" and "scan_char T e st = Inr st'"
  shows "col st \<le> col st'"
proof -
  have op: "col st \<le> col st'" if "scan_operator T e ch st = Inr st'" for ch
  proof -
    from that obtain st1 st2 where
      st1: "add_token T e (substring e (lpos st) (col st)) st = Inr st1" and
      st2: "(if has_space st1 \<and> lpos st1 < col st1
               \<and> \<not> (ch = CHR '','' \<or> (case target_first st1 of None \<Rightarrow> False | Some t \<Rightarrow> isNumber T t)
                                       \<and> ch = CHR ''*'')
             then goUp (st1\<lparr>has_space := False\<rparr>) else Inr st1) = Inr st2" and
      st5: "target_push
              (chunkify T (col st2 + 1 + 1 + length (get_operator_str T e (col st2)) - 2 - 1)
                 (get_operator_str T e (col st2)))
              (st2\<lparr>lpos := col st2 + 1 + 1 + length (get_operator_str T e (col st2)) - 2,
                    col := col st2 + 1 + 1 + length (get_operator_str T e (col st2)) - 2 - 1\<rparr>)
            = Inr st'"
      unfolding scan_operator_def Let_def
      by (auto dest!: and_then_Inr)
    have c1: "col st1 = col st" using st1 by (rule add_token_col)
    have c2: "col st2 = col st1"
      using st2 by (auto dest: goUp_col split: if_splits)
    have "1 \<le> length (get_operator_str T e (col st2))"
      using assms(1) c1 c2 get_operator_str_length[of "col st2" e T] by simp
    moreover have "col st' = col st2 + 1 + 1 + length (get_operator_str T e (col st2)) - 2 - 1"
      using target_push_col[OF st5] by simp
    ultimately show ?thesis using c1 c2 by simp
  qed
  have br: "col st' = col st" if "scan_bracket T e b st = Inr st'" for b
    using that unfolding scan_bracket_def Let_def
    by (auto dest!: and_then_Inr add_token_col goUp_col addScope_col target_push_col
             simp: add_function_def split: if_splits list.splits)
  have sp: "col st' = col st" if "scan_space T e st = Inr st'"
    using that unfolding scan_space_def Let_def
    by (auto dest!: and_then_Inr add_token_col goUp_col addScope_col target_push_col
             simp: add_function_def split: if_splits)
  from assms(2) show ?thesis
    unfolding scan_char_def Let_def
    by (auto dest: op br sp split: if_splits option.splits)
qed

text \<open>
  The loop \<^verbatim>\<open>for (; this.col < L; this.col++)\<close>. An operator moves \<^verbatim>\<open>col\<close> to the last
  character of its run; nothing moves it back, so the loop ends.
\<close>

function scan :: "tokenizer_deps \<Rightarrow> string \<Rightarrow> tstate \<Rightarrow> error + tstate" where
  "scan T e st =
     (if col st < length e then
        (case scan_char T e st of
           Inl err \<Rightarrow> Inl err
         | Inr st' \<Rightarrow> scan T e (st'\<lparr>col := col st' + 1\<rparr>))
      else Inr st)"
  by pat_completeness auto
termination
proof (relation "measure (\<lambda>(T, e, st). length e - col st)", goal_cases)
  case 1
  then show ?case by simp
next
  case (2 T e st st')
  then have "col st \<le> col st'" by (intro scan_char_col) auto
  with 2 show ?case by simp
qed

declare scan.simps [simp del]

text \<open>
  The scopes still open at the end stay nested in their parents; \<^verbatim>\<open>this.tokens\<close> is the
  root.
\<close>

fun close_scopes :: "(tok list \<times> string option \<times> nat option) list \<Rightarrow> tok list" where
  "close_scopes [] = []"
| "close_scopes [(entries, ty, c)] = entries"
| "close_scopes ((entries, ty, c) # (pentries, pty, pc) # rest) =
     close_scopes ((pentries @ [Scope entries ty c], pty, pc) # rest)"

text \<open>
  The constructor of \<^verbatim>\<open>InnerTokenizer\<close>: the expression is trimmed, runs of white space
  become one space, and for every bracket of the map the white space before it (when it
  closes) or after it (otherwise) is removed.
\<close>

definition trim :: "string \<Rightarrow> string" where
  "trim e = rev (dropWhile is_space (rev (dropWhile is_space e)))"

function collapse_spaces :: "string \<Rightarrow> string" where
  "collapse_spaces [] = []"
| "collapse_spaces (c # cs) =
     (if is_space c then CHR '' '' # collapse_spaces (dropWhile is_space cs)
      else c # collapse_spaces cs)"
  by pat_completeness auto
termination
  by (relation "measure length") (auto simp: le_imp_less_Suc length_dropWhile_le)

function strip_space_before :: "char \<Rightarrow> string \<Rightarrow> string" where
  "strip_space_before x [] = []"
| "strip_space_before x (c # cs) =
     (if is_space c then
        (case dropWhile is_space cs of
           [] \<Rightarrow> c # takeWhile is_space cs
         | d # ds \<Rightarrow>
             if d = x then x # strip_space_before x ds
             else c # takeWhile is_space cs @ strip_space_before x (d # ds))
      else c # strip_space_before x cs)"
  by pat_completeness auto
termination
proof (relation "measure (\<lambda>(x, s). length s)", goal_cases)
  case 1
  then show ?case by simp
next
  case (2 x c cs d ds)
  then have "length (d # ds) \<le> length cs"
    using length_dropWhile_le[of is_space cs] by simp
  then show ?case by simp
next
  case (3 x c cs d ds)
  then have "length (d # ds) \<le> length cs"
    using length_dropWhile_le[of is_space cs] by simp
  then show ?case by simp
next
  case (4 x c cs)
  then show ?case by simp
qed

function strip_space_after :: "char \<Rightarrow> string \<Rightarrow> string" where
  "strip_space_after x [] = []"
| "strip_space_after x (c # cs) =
     (if c = x \<and> cs \<noteq> [] \<and> is_space (hd cs)
      then x # strip_space_after x (dropWhile is_space cs)
      else c # strip_space_after x cs)"
  by pat_completeness auto
termination
  by (relation "measure (\<lambda>(x, s). length s)") (auto simp: le_imp_less_Suc length_dropWhile_le)

fun strip_bracket_spaces :: "(char \<times> bracket) list \<Rightarrow> string \<Rightarrow> string" where
  "strip_bracket_spaces [] e = e"
| "strip_bracket_spaces ((x, b) # bs) e =
     strip_bracket_spaces bs (if is_close b then strip_space_before x e else strip_space_after x e)"

definition InnerTokenizer_expression :: "tokenizer_deps \<Rightarrow> string \<Rightarrow> string" where
  "InnerTokenizer_expression T expression =
     strip_bracket_spaces (brackets T) (collapse_spaces (trim expression))"

text \<open>
  \<^verbatim>\<open>InnerTokenizer.tokenize()\<close>: the scan, then the check that every bracket was closed
  (the error cites the position stored with the bracket, counted from 1), then the last
  token.
\<close>

definition InnerTokenizer_tokenize :: "tokenizer_deps \<Rightarrow> string \<Rightarrow> error + tok list" where
  "InnerTokenizer_tokenize T expression =
     (let e = InnerTokenizer_expression T expression;
          st0 = \<lparr>col = 0, lpos = 0, scopes = [([], None, None)], has_space = False,
                 open_brackets = []\<rparr>
      in and_then (scan T e st0) (\<lambda>st.
           case open_brackets st of
             b # rest \<Rightarrow>
               Inl (ParityError (''Missing closed bracket for bracket at '' @ string_of_nat (snd b + 1)))
           | [] \<Rightarrow>
               and_then (add_token T e (substring e (lpos st) (col st)) st) (\<lambda>st'.
                 Inr (close_scopes (scopes st')))))"

subsection \<open>A concrete set of dependencies\<close>

text \<open>
  Modelled from the spec: the functions \<^verbatim>\<open>sin\<close>, \<^verbatim>\<open>cos\<close> and \<^verbatim>\<open>f\<close>; round brackets with ids 1 and 2
  and square brackets with ids 3 and 4, the opening one mapped to \<^verbatim>\<open>vector\<close>; a few operators;
  no units; a token is a number when its value is a string of digits.
\<close>

definition deps0 :: tokenizer_deps where
  "deps0 = \<lparr> getFunctionDescriptor = (\<lambda>f. f \<in> set [''sin'', ''cos'', ''f'']),
             brackets = [(CHR ''('', \<lparr>bracket_id = 1, is_open = True, is_close = False, maps_to = None\<rparr>),
                         (CHR '')'', \<lparr>bracket_id = 2, is_open = False, is_close = True, maps_to = None\<rparr>),
                         (CHR ''['', \<lparr>bracket_id = 3, is_open = True, is_close = False, maps_to = Some ''vector''\<rparr>),
                         (CHR '']'', \<lparr>bracket_id = 4, is_open = False, is_close = True, maps_to = None\<rparr>)],
             operator_glyphs = [''+'', ''-'', ''*'', ''/'', ''^'', '','', ''='', ''==''],
             units = [],
             isNumber = (\<lambda>t. case t of Token v ty c \<Rightarrow> v \<noteq> [] \<and> list_all (\<lambda>c. c \<in> set ''0123456789'') v
                                | Scope es ty c \<Rightarrow> False) \<rparr>"


section \<open>The preparation of an expression: \<^verbatim>\<open>Tokenizer.prepareExpression\<close>\<close>

text \<open>
  Modelled from the spec: what \<^verbatim>\<open>prepareExpression\<close> reads from modules that are not among the
  sources. \<^verbatim>\<open>Settings.USE_MULTICHARACTER_VARS\<close> is the multi-character-variable flag;
  \<^verbatim>\<open>Math2.scientificToDecimal\<close> expands a literal in scientific notation to a decimal literal
  and is a parameter; \<^verbatim>\<open>isNaN\<close> on the strings of \<^verbatim>\<open>[a-z0-9_]+\<close> it is given is a parameter;
  \<^verbatim>\<open>preprocessors\<close> is the array \<^verbatim>\<open>this.preprocessors.actions\<close>, an entry being \<^verbatim>\<open>undefined\<close>
  after \<^verbatim>\<open>removePreprocessor\<close> without shifting.
\<close>

record prepare_settings =
  USE_MULTICHARACTER_VARS :: bool
  scientificToDecimal :: "string \<Rightarrow> string"
  isNaN_string :: "string \<Rightarrow> bool"
  preprocessors :: "(string \<Rightarrow> string) option list"

subsection \<open>Character classes of the regular expressions\<close>

text \<open>
  \<^verbatim>\<open>\d\<close>, \<^verbatim>\<open>[a-z]\<close> under the flag \<^verbatim>\<open>i\<close>, \<^verbatim>\<open>[+\-\/*]\<close>, \<^verbatim>\<open>[a-z_]\<close>, \<^verbatim>\<open>[a-z0-9_]\<close> and \<^verbatim>\<open>[a-z0-9]\<close>.
  Among the code units below 256 the flag \<^verbatim>\<open>i\<close> adds the capital letters and nothing else.
\<close>

definition is_digit :: "char \<Rightarrow> bool" where
  "is_digit c \<longleftrightarrow> c \<in> set ''0123456789''"

definition is_letter :: "char \<Rightarrow> bool" where
  "is_letter c \<longleftrightarrow> c \<in> set ''abcdefghijklmnopqrstuvwxyzABCDEFGHIJKLMNOPQRSTUVWXYZ''"

definition is_sign :: "char \<Rightarrow> bool" where
  "is_sign c \<longleftrightarrow> c \<in> set ''+-/*''"

definition is_word :: "char \<Rightarrow> bool" where
  "is_word c \<longleftrightarrow> is_letter c \<or> c = CHR ''_''"

definition is_ident :: "char \<Rightarrow> bool" where
  "is_ident c \<longleftrightarrow> is_letter c \<or> is_digit c \<or> c = CHR ''_''"

definition is_alnum :: "char \<Rightarrow> bool" where
  "is_alnum c \<longleftrightarrow> is_letter c \<or> is_digit c"

subsection \<open>The preprocessors\<close>

text \<open>
  \<^verbatim>\<open>e = this.preprocessors.actions[i]?.call(this, e) || e\<close>: a missing action and an action
  that returns the empty string leave \<^verbatim>\<open>e\<close> as it is.
\<close>

fun apply_preprocessors :: "(string \<Rightarrow> string) option list \<Rightarrow> string \<Rightarrow> string" where
  "apply_preprocessors [] e = e"
| "apply_preprocessors (None # as) e = apply_preprocessors as e"
| "apply_preprocessors (Some a # as) e = apply_preprocessors as (if a e = [] then e else a e)"

subsection \<open>Scientific literals\<close>

text \<open>
  \<^verbatim>\<open>/e/gi.test(e)\<close>, and one match of \<^verbatim>\<open>/-*\d+\.*\d*e\+?-?\d+/gi\<close> at the head of a string: the
  match and what follows it. Every quantifier takes all it can and giving some back never
  helps: the character that follows is of the class that was being read.
\<close>

definition contains_e :: "string \<Rightarrow> bool" where
  "contains_e e = list_ex (\<lambda>c. c = CHR ''e'' \<or> c = CHR ''E'') e"

definition match_scientific :: "string \<Rightarrow> (string \<times> string) option" where
  "match_scientific s =
     (let dashes = takeWhile (\<lambda>c. c = CHR ''-'') s; r0 = dropWhile (\<lambda>c. c = CHR ''-'') s;
          d1 = takeWhile is_digit r0; r1 = dropWhile is_digit r0;
          dots = takeWhile (\<lambda>c. c = CHR ''.'') r1; r2 = dropWhile (\<lambda>c. c = CHR ''.'') r1;
          d2 = takeWhile is_digit r2; r3 = dropWhile is_digit r2
      in if d1 = [] then None
         else case r3 of
                [] \<Rightarrow> None
              | x # r4 \<Rightarrow>
                  if x = CHR ''e'' \<or> x = CHR ''E'' then
                    (let plus = takeWhile (\<lambda>c. c = CHR ''+'') (take 1 r4); r5 = drop (length plus) r4;
                         minus = takeWhile (\<lambda>c. c = CHR ''-'') (take 1 r5); r6 = drop (length minus) r5;
                         d3 = takeWhile is_digit r6; r7 = dropWhile is_digit r6
                     in if d3 = [] then None
                        else Some (dashes @ d1 @ dots @ d2 @ [x] @ plus @ minus @ d3, r7))
                  else None)"

lemma match_scientific_splits:
  assumes "match_scientific s = Some (m, rest)"
  shows "s = m @ rest \<and> m \<noteq> []"
proof -
  define r0 where "r0 = dropWhile (\<lambda>c. c = CHR ''-'') s"
  define r1 where "r1 = dropWhile is_digit r0"
  define r2 where "r2 = dropWhile (\<lambda>c. c = CHR ''.'') r1"
  define r3 where "r3 = dropWhile is_digit r2"
  have s: "s = takeWhile (\<lambda>c. c = CHR ''-'') s @ takeWhile is_digit r0
               @ takeWhile (\<lambda>c. c = CHR ''.'') r1 @ takeWhile is_digit r2 @ r3"
    by (simp add: r0_def r1_def r2_def r3_def)
  from assms obtain x r4 where r3: "r3 = x # r4" and d1: "takeWhile is_digit r0 \<noteq> []"
    unfolding match_scientific_def Let_def r0_def r1_def r2_def r3_def
    by (auto split: if_splits list.splits)
  define plus where "plus = takeWhile (\<lambda>c. c = CHR ''+'') (take 1 r4)"
  define r5 where "r5 = drop (length plus) r4"
  define minus where "minus = takeWhile (\<lambda>c. c = CHR ''-'') (take 1 r5)"
  define r6 where "r6 = drop (length minus) r5"
  have tk: "takeWhile P (take 1 xs) @ drop (length (takeWhile P (take 1 xs))) xs = xs"
    for P and xs :: string
    by (cases xs) auto
  have r4: "r4 = plus @ minus @ takeWhile is_digit r6 @ dropWhile is_digit r6"
    using tk[of "\<lambda>c. c = CHR ''+''" r4] tk[of "\<lambda>c. c = CHR ''-''" r5]
    by (simp add: plus_def r5_def minus_def r6_def)
  from assms r3 d1 have
    m: "m = takeWhile (\<lambda>c. c = CHR ''-'') s @ takeWhile is_digit r0
              @ takeWhile (\<lambda>c. c = CHR ''.'') r1 @ takeWhile is_digit r2 @ [x] @ plus @ minus
              @ takeWhile is_digit r6"
    and rest: "rest = dropWhile is_digit r6"
    unfolding match_scientific_def Let_def
    by (auto simp: r0_def r1_def r2_def r3_def plus_def r5_def minus_def r6_def
             split: if_splits)
  have "s = m @ rest"
    by (subst s, subst r3, subst r4) (simp add: m rest)
  moreover have "m \<noteq> []" using m by simp
  ultimately show ?thesis by simp
qed

lemma match_scientific_shorter:
  "match_scientific s = Some (m, rest) \<Longrightarrow> length rest < length s"
  using match_scientific_splits[of s m rest] by auto

text \<open>
  The replacement of all matches, from left to right: where no match starts the character
  is kept.
\<close>

function scientific_pass :: "(string \<Rightarrow> string) \<Rightarrow> string \<Rightarrow> string" where
  "scientific_pass f [] = []"
| "scientific_pass f (c # cs) =
     (case match_scientific (c # cs) of
        Some (m, rest) \<Rightarrow> f m @ scientific_pass f rest
      | None \<Rightarrow> c # scientific_pass f cs)"
  by pat_completeness auto
termination
  by (relation "measure (\<lambda>(f, s). length s)") (auto dest: match_scientific_shorter)

subsection \<open>Implied multiplication after a coefficient\<close>

text \<open>
  Modelled from the spec: \<^verbatim>\<open>Settings.IMPLIED_MULTIPLICATION_REGEX\<close>, the pattern of two groups
  that finds a coefficient followed by an identifier (\<^verbatim>\<open>2x\<close> becomes \<^verbatim>\<open>2*x\<close>): signs and digits,
  then letters or underscores and signs, \<^verbatim>\<open>([+\-\/*]*[0-9]+)([a-z_]+[+\-\/*]*)\<close> with the flags
  \<^verbatim>\<open>gi\<close>. The result of a match is the two groups and the rest.
\<close>

definition match_implied :: "string \<Rightarrow> (string \<times> string \<times> string) option" where
  "match_implied s =
     (let ops = takeWhile is_sign s; r1 = dropWhile is_sign s;
          ds = takeWhile is_digit r1; r2 = dropWhile is_digit r1;
          ls = takeWhile is_word r2; r3 = dropWhile is_word r2;
          ops2 = takeWhile is_sign r3; r4 = dropWhile is_sign r3
      in if ds \<noteq> [] \<and> ls \<noteq> [] then Some (ops @ ds, ls @ ops2, r4) else None)"

lemma match_implied_splits:
  assumes "match_implied s = Some (g1, g2, rest)"
  shows "s = g1 @ g2 @ rest \<and> g1 \<noteq> [] \<and> g2 \<noteq> []"
proof -
  define r1 where "r1 = dropWhile is_sign s"
  define r2 where "r2 = dropWhile is_digit r1"
  define r3 where "r3 = dropWhile is_word r2"
  have s: "s = takeWhile is_sign s @ takeWhile is_digit r1 @ takeWhile is_word r2
               @ takeWhile is_sign r3 @ dropWhile is_sign r3"
    by (simp add: r1_def r2_def r3_def)
  from assms have g: "g1 = takeWhile is_sign s @ takeWhile is_digit r1"
    "g2 = takeWhile is_word r2 @ takeWhile is_sign r3" "rest = dropWhile is_sign r3"
    "takeWhile is_digit r1 \<noteq> []" "takeWhile is_word r2 \<noteq> []"
    unfolding match_implied_def Let_def r1_def r2_def r3_def
    by (auto split: if_splits)
  have "s = g1 @ g2 @ rest"
    by (subst s) (simp add: g)
  moreover have "g1 \<noteq> []" "g2 \<noteq> []"
    using g(4,5) by (simp_all add: g(1,2))
  ultimately show ?thesis by simp
qed

lemma match_implied_shorter:
  "match_implied s = Some (g1, g2, rest) \<Longrightarrow> length rest < length s"
  using match_implied_splits[of s g1 g2 rest] by auto

text \<open>
  The callback of the replacement: \<^verbatim>\<open>first\<close> is the first character of the match and
  \<^verbatim>\<open>before\<close> the character in front of the match, read from the whole string, unless \<^verbatim>\<open>first\<close> is
  a sign; no \<^verbatim>\<open>*\<close> is put in when \<^verbatim>\<open>before\<close> is a letter. \<^verbatim>\<open>prev\<close> is the character in front of the
  string that is left to scan.
\<close>

function implied_pass :: "char option \<Rightarrow> string \<Rightarrow> string" where
  "implied_pass prev [] = []"
| "implied_pass prev (c # cs) =
     (case match_implied (c # cs) of
        Some (group1, group2, rest) \<Rightarrow>
          (let first = c;
               before = (if \<not> is_sign first then prev else None);
               d = (if (case before of Some b \<Rightarrow> is_letter b | None \<Rightarrow> False) then [] else ''*'')
           in group1 @ d @ group2 @ implied_pass (Some (last group2)) rest)
      | None \<Rightarrow> c # implied_pass (Some c) cs)"
  by pat_completeness auto
termination
  by (relation "measure (\<lambda>(p, s). length s)") (auto dest: match_implied_shorter)

subsection \<open>Single-character variables\<close>

text \<open>
  The callback on every run of \<^verbatim>\<open>[a-z0-9_]+\<close>: with multi-character variables off, a run that
  names no function and is not a number is split, \<^verbatim>\<open>a.split('').join('*')\<close>.
\<close>

fun join_star :: "string \<Rightarrow> string" where
  "join_star [] = []"
| "join_star [c] = [c]"
| "join_star (c # d # cs) = c # CHR ''*'' # join_star (d # cs)"

definition split_run :: "tokenizer_deps \<Rightarrow> prepare_settings \<Rightarrow> string \<Rightarrow> string" where
  "split_run T S a =
     (if \<not> USE_MULTICHARACTER_VARS S \<and> \<not> getFunctionDescriptor T a
      then (if \<not> isNaN_string S a then a else join_star a)
      else a)"

function split_pass :: "tokenizer_deps \<Rightarrow> prepare_settings \<Rightarrow> string \<Rightarrow> string" where
  "split_pass T S [] = []"
| "split_pass T S (c # cs) =
     (if is_ident c
      then split_run T S (takeWhile is_ident (c # cs)) @ split_pass T S (dropWhile is_ident (c # cs))
      else c # split_pass T S cs)"
  by pat_completeness auto
termination
  by (relation "measure (\<lambda>(T, S, s). length s)") (auto simp: le_imp_less_Suc length_dropWhile_le)

subsection \<open>Adjacent brackets\<close>

text \<open>\<^verbatim>\<open>e.replace(/\)\(/g, ')*(')\<close>.\<close>

fun brackets_pass :: "string \<Rightarrow> string" where
  "brackets_pass (c # d # cs) =
     (if c = CHR '')'' \<and> d = CHR ''(''
      then CHR '')'' # CHR ''*'' # CHR ''('' # brackets_pass cs
      else c # brackets_pass (d # cs))"
| "brackets_pass cs = cs"

subsection \<open>The loop\<close>

text \<open>
  One replacement with \<^verbatim>\<open>/([a-z0-9_]+)(\()|(\))([a-z0-9]+)/gi\<close>: a run of \<^verbatim>\<open>[a-z0-9_]\<close> in front
  of \<^verbatim>\<open>(\<close>, or \<^verbatim>\<open>)\<close> in front of a run of \<^verbatim>\<open>[a-z0-9]\<close>; \<^verbatim>\<open>g1\<close> is the first part of the match and
  \<^verbatim>\<open>g2\<close> the second, and a \<^verbatim>\<open>*\<close> goes between them unless \<^verbatim>\<open>g1\<close> names a function.
\<close>

function loop_step :: "tokenizer_deps \<Rightarrow> string \<Rightarrow> string" where
  "loop_step T [] = []"
| "loop_step T (c # cs) =
     (if is_ident c \<and> take 1 (dropWhile is_ident cs) = ''(''
      then (let g1 = c # takeWhile is_ident cs; g2 = ''(''
            in (if getFunctionDescriptor T g1 then g1 @ g2 else g1 @ ''*'' @ g2)
               @ loop_step T (drop 1 (dropWhile is_ident cs)))
      else if c = CHR '')'' \<and> takeWhile is_alnum cs \<noteq> []
      then (let g1 = '')''; g2 = takeWhile is_alnum cs
            in (if getFunctionDescriptor T g1 then g1 @ g2 else g1 @ ''*'' @ g2)
               @ loop_step T (dropWhile is_alnum cs))
      else c # loop_step T cs)"
  by pat_completeness auto
termination
proof (relation "measure (\<lambda>(T, s). length s)", goal_cases)
  case 1
  then show ?case by simp
next
  case (2 T c cs)
  have "length (dropWhile is_ident cs) - 1 \<le> length cs"
    using length_dropWhile_le[of is_ident cs] by arith
  then show ?case by simp
next
  case (3 T c cs)
  have "length (dropWhile is_alnum cs) \<le> length cs"
    by (rule length_dropWhile_le)
  then show ?case by simp
next
  case (4 T c cs)
  then show ?case by simp
qed


declare loop_step.simps [simp del] split_pass.simps [simp del] implied_pass.simps [simp del]
  scientific_pass.simps [simp del]

text \<open>
  The places where the rewrite of the loop can still put a \<open>*\<close>: a character of
  \<^verbatim>\<open>[a-z0-9_]\<close> right before \<open>(\<close>, and \<open>)\<close> right before a character of \<^verbatim>\<open>[a-z0-9]\<close>.
\<close>

definition site :: "char \<Rightarrow> char \<Rightarrow> bool" where
  "site a b \<longleftrightarrow> (is_ident a \<and> b = CHR ''('') \<or> (a = CHR '')'' \<and> is_alnum b)"

fun sites :: "string \<Rightarrow> nat" where
  "sites (a # b # cs) = (if site a b then 1 else 0) + sites (b # cs)"
| "sites cs = 0"

lemma ident_not_special:
  "is_ident x \<Longrightarrow> x \<noteq> CHR ''('' \<and> x \<noteq> CHR '')'' \<and> x \<noteq> CHR ''*'' \<and> x \<noteq> CHR '' ''"
  unfolding is_ident_def is_letter_def is_digit_def by auto

lemma special_not_ident [simp]:
  "\<not> is_ident (CHR ''('')" "\<not> is_ident (CHR '')'')" "\<not> is_ident (CHR ''*'')"
  "\<not> is_ident (CHR '' '')"
  using ident_not_special by blast+

lemma alnum_ident: "is_alnum x \<Longrightarrow> is_ident x"
  unfolding is_alnum_def is_ident_def by blast

lemma site_simps [simp]:
  "\<not> site (CHR ''*'') b" "\<not> site a (CHR ''*'')" "\<not> site (CHR ''('') b"
  "is_ident a \<Longrightarrow> site a b \<longleftrightarrow> b = CHR ''(''"
  "site (CHR '')'') b \<longleftrightarrow> is_alnum b"
  using ident_not_special[of "CHR ''*''"] ident_not_special[of "CHR ''(''"]
    ident_not_special[of "CHR '')''"] ident_not_special[of a] alnum_ident[of "CHR ''*''"]
    alnum_ident[of "CHR ''(''"]
  by (auto simp: site_def)

lemma sites_append: "sites (xs @ y # ys) = sites (xs @ [y]) + sites (y # ys)"
  by (induction xs rule: sites.induct) auto

lemma length_takeWhile_dropWhile:
  "length (takeWhile P xs) + length (dropWhile P xs) = length xs"
  by (induction xs) auto

lemma sites_append_last:
  assumes "d \<noteq> []"
  shows "sites (u @ d @ v) = sites (u @ d) + sites (last d # v)"
proof -
  from assms obtain d' x where d: "d = d' @ [x]"
    by (cases d rule: rev_cases) auto
  show ?thesis
    unfolding d using sites_append[of "u @ d'" x v] by simp
qed

lemma sites_ident_run:
  assumes "\<forall>x\<in>set a. is_ident x" and "a \<noteq> []"
  shows "sites (p # a @ ''('') = Suc (sites (p # a @ ''*(''))"
  using assms
proof (induction a arbitrary: p)
  case Nil
  then show ?case by simp
next
  case (Cons x a)
  then have x: "is_ident x" and a: "\<forall>x\<in>set a. is_ident x" by simp_all
  show ?case
  proof (cases a)
    case Nil
    with x show ?thesis by simp
  next
    case (Cons y a')
    with Cons.IH[of x] a have "sites (x # a @ ''('') = Suc (sites (x # a @ ''*(''))"
      by simp
    then show ?thesis by simp
  qed
qed


lemma sites_alnum_run:
  assumes "is_alnum x"
  shows "sites (p # CHR '')'' # x # cs) = Suc (sites (p # CHR '')'' # CHR ''*'' # x # cs))"
  using assms by simp

lemma loop_step_hd: "loop_step T (c # cs) = c # tl (loop_step T (c # cs))"
  by (simp add: loop_step.simps Let_def)

lemma takeWhile_ident_all: "\<forall>x\<in>set (takeWhile is_ident cs). is_ident x"
  by (auto dest: set_takeWhileD)

lemma take1_dropWhile:
  "take 1 (dropWhile P cs) = [x] \<Longrightarrow> cs = takeWhile P cs @ x # drop 1 (dropWhile P cs)"
  by (metis append_Cons append_Nil append_take_drop_id takeWhile_dropWhile_id)

text \<open>
  One pass of the loop's rewrite puts in as many characters as it removes such places.
\<close>

lemma loop_step_sites:
  "sites (p # loop_step T s) + length (loop_step T s) = sites (p # s) + length s"
proof (induction T s arbitrary: p rule: loop_step.induct)
  case (1 T)
  then show ?case by (simp add: loop_step.simps)
next
  case (2 T c cs)
  let ?a = "c # takeWhile is_ident cs"
  let ?r = "drop 1 (dropWhile is_ident cs)"
  let ?d = "takeWhile is_alnum cs"
  let ?r2 = "dropWhile is_alnum cs"
  consider (alt1) "is_ident c" "take 1 (dropWhile is_ident cs) = ''(''"
    | (alt2) "\<not> (is_ident c \<and> take 1 (dropWhile is_ident cs) = ''('')" "c = CHR '')''" "?d \<noteq> []"
    | (none) "\<not> (is_ident c \<and> take 1 (dropWhile is_ident cs) = ''('')" "\<not> (c = CHR '')'' \<and> ?d \<noteq> [])"
    by blast
  then show ?case
  proof cases
    case alt1
    have cs: "cs = takeWhile is_ident cs @ CHR ''('' # ?r"
      using alt1(2) by (rule take1_dropWhile)
    have a: "\<forall>x\<in>set ?a. is_ident x" "?a \<noteq> []"
      using alt1(1) takeWhile_ident_all by auto
    have ih: "sites (CHR ''('' # loop_step T ?r) + length (loop_step T ?r)
              = sites (CHR ''('' # ?r) + length ?r"
      using "2.IH"(1)[OF _ refl refl, of "CHR ''(''"] alt1 by simp
    have s: "c # cs = ?a @ CHR ''('' # ?r"
      using cs by simp
    have in_s: "sites (p # c # cs) = sites (p # ?a @ ''('') + sites (CHR ''('' # ?r)"
      by (subst s) (use sites_append[of "p # ?a" "CHR ''(''" ?r] in simp)
    have len_s: "length (c # cs) = length ?a + 1 + length ?r"
      by (subst s) simp
    show ?thesis
    proof (cases "getFunctionDescriptor T ?a")
      case True
      then have out: "loop_step T (c # cs) = ?a @ CHR ''('' # loop_step T ?r"
        using alt1 by (simp add: loop_step.simps Let_def)
      have "sites (p # loop_step T (c # cs)) = sites (p # ?a @ ''('') + sites (CHR ''('' # loop_step T ?r)"
        unfolding out using sites_append[of "p # ?a" "CHR ''(''" "loop_step T ?r"] by simp
      with in_s len_s ih out show ?thesis by simp
    next
      case False
      then have out: "loop_step T (c # cs) = ?a @ CHR ''*'' # CHR ''('' # loop_step T ?r"
        using alt1 by (simp add: loop_step.simps Let_def)
      have "sites (p # loop_step T (c # cs))
            = sites (p # ?a @ ''*('') + sites (CHR ''('' # loop_step T ?r)"
        unfolding out using sites_append[of "p # ?a @ ''*''" "CHR ''(''" "loop_step T ?r"] by simp
      moreover have "sites (p # ?a @ ''('') = Suc (sites (p # ?a @ ''*(''))"
        using a by (rule sites_ident_run)
      ultimately show ?thesis using in_s len_s ih out by simp
    qed
  next
    case alt2
    then obtain x d' where d: "?d = x # d'" by (cases ?d) auto
    then have x: "is_alnum x"
      by (metis list.set_intros(1) set_takeWhileD)
    have cs: "cs = ?d @ ?r2" by simp
    have ih: "sites (q # loop_step T ?r2) + length (loop_step T ?r2) = sites (q # ?r2) + length ?r2" for q
      using "2.IH"(2)[OF alt2(1) _ refl refl, of q] alt2 by simp
    have split: "sites (u @ ?d @ v) = sites (u @ ?d) + sites (last ?d # v)" for u v
      using alt2(3) by (rule sites_append_last)
    show ?thesis
    proof (cases "getFunctionDescriptor T '')''")
      case True
      then have out: "loop_step T (c # cs) = CHR '')'' # ?d @ loop_step T ?r2"
        using alt2 by (simp add: loop_step.simps Let_def)
      have "sites (p # loop_step T (c # cs)) = sites (p # CHR '')'' # ?d) + sites (last ?d # loop_step T ?r2)"
        unfolding out using split[of "[p, CHR '')'']" "loop_step T ?r2"] by simp
      moreover have "sites (p # c # cs) = sites (p # CHR '')'' # ?d) + sites (last ?d # ?r2)"
        using split[of "[p, CHR '')'']" ?r2] alt2(2) by simp
      moreover have "length (c # cs) = 1 + length ?d + length ?r2"
        using length_takeWhile_dropWhile[of is_alnum cs] by simp
      ultimately show ?thesis using ih[of "last ?d"] out by simp
    next
      case False
      then have out: "loop_step T (c # cs) = CHR '')'' # CHR ''*'' # ?d @ loop_step T ?r2"
        using alt2 by (simp add: loop_step.simps Let_def)
      have "sites (p # loop_step T (c # cs))
            = sites (p # CHR '')'' # CHR ''*'' # ?d) + sites (last ?d # loop_step T ?r2)"
        unfolding out using split[of "[p, CHR '')'', CHR ''*'']" "loop_step T ?r2"] by simp
      moreover have "sites (p # c # cs) = sites (p # CHR '')'' # ?d) + sites (last ?d # ?r2)"
        using split[of "[p, CHR '')'']" ?r2] alt2(2) by simp
      moreover have "sites (p # CHR '')'' # ?d) = Suc (sites (p # CHR '')'' # CHR ''*'' # ?d))"
        unfolding d using x by (rule sites_alnum_run)
      moreover have "length (c # cs) = 1 + length ?d + length ?r2"
        using length_takeWhile_dropWhile[of is_alnum cs] by simp
      ultimately show ?thesis using ih[of "last ?d"] out by simp
    qed
  next
    case none
    then have out: "loop_step T (c # cs) = c # loop_step T cs"
      by (auto simp: loop_step.simps Let_def)
    have "sites (c # loop_step T cs) + length (loop_step T cs) = sites (c # cs) + length cs"
      using "2.IH"(3)[of c] none by blast
    moreover have "sites (p # c # loop_step T cs) = (if site p c then 1 else 0) + sites (c # loop_step T cs)"
      by simp
    moreover have "sites (p # c # cs) = (if site p c then 1 else 0) + sites (c # cs)"
      by simp
    ultimately show ?thesis unfolding out by simp
  qed
qed

text \<open>
  What one replacement does to the string: it copies it and puts a \<^verbatim>\<open>*\<close> in front of some \<^verbatim>\<open>(\<close>
  and behind some \<^verbatim>\<open>)\<close>.
\<close>

inductive pstars :: "string \<Rightarrow> string \<Rightarrow> bool" where
  pstars_Nil: "pstars [] []"
| pstars_Cons: "pstars s t \<Longrightarrow> pstars (c # s) (c # t)"
| pstars_open: "pstars s t \<Longrightarrow> pstars (CHR ''('' # s) (CHR ''*'' # CHR ''('' # t)"
| pstars_close: "pstars s t \<Longrightarrow> pstars (CHR '')'' # s) (CHR '')'' # CHR ''*'' # t)"

lemma pstars_refl: "pstars s s"
  by (induction s) (auto intro: pstars.intros)

lemma pstars_append: "pstars s t \<Longrightarrow> pstars (u @ s) (u @ t)"
  by (induction u) (auto intro: pstars.intros)

lemma pstars_length: "pstars s t \<Longrightarrow> length s \<le> length t"
  by (induction rule: pstars.induct) auto

lemma pstars_same_length: "pstars s t \<Longrightarrow> length t = length s \<Longrightarrow> t = s"
  by (induction rule: pstars.induct) (auto dest: pstars_length)

lemma loop_step_pstars: "pstars s (loop_step T s)"
proof (induction T s rule: loop_step.induct)
  case (1 T)
  then show ?case by (simp add: loop_step.simps pstars_Nil)
next
  case (2 T c cs)
  let ?a = "c # takeWhile is_ident cs"
  let ?r = "drop 1 (dropWhile is_ident cs)"
  let ?d = "takeWhile is_alnum cs"
  let ?r2 = "dropWhile is_alnum cs"
  consider (alt1) "is_ident c" "take 1 (dropWhile is_ident cs) = ''(''"
    | (alt2) "\<not> (is_ident c \<and> take 1 (dropWhile is_ident cs) = ''('')" "c = CHR '')''" "?d \<noteq> []"
    | (none) "\<not> (is_ident c \<and> take 1 (dropWhile is_ident cs) = ''('')" "\<not> (c = CHR '')'' \<and> ?d \<noteq> [])"
    by blast
  then show ?case
  proof cases
    case alt1
    have cs: "cs = takeWhile is_ident cs @ CHR ''('' # ?r"
      using alt1(2) by (rule take1_dropWhile)
    have s: "c # cs = ?a @ CHR ''('' # ?r"
      using cs by simp
    have ih: "pstars ?r (loop_step T ?r)"
      using "2.IH"(1)[OF _ refl refl] alt1 by simp
    have out: "loop_step T (c # cs) = ?a @ CHR ''('' # loop_step T ?r
               \<or> loop_step T (c # cs) = ?a @ CHR ''*'' # CHR ''('' # loop_step T ?r"
      using alt1 by (simp add: loop_step.simps Let_def)
    have "pstars (?a @ CHR ''('' # ?r) (?a @ CHR ''('' # loop_step T ?r)"
      using ih by (intro pstars_append pstars_Cons)
    moreover have "pstars (?a @ CHR ''('' # ?r) (?a @ CHR ''*'' # CHR ''('' # loop_step T ?r)"
      using ih by (intro pstars_append pstars_open)
    ultimately show ?thesis
      using out by (subst s) auto
  next
    case alt2
    have cs: "cs = ?d @ ?r2" by simp
    have ih: "pstars ?r2 (loop_step T ?r2)"
      using "2.IH"(2)[OF alt2(1) _ refl refl] alt2 by simp
    have out: "loop_step T (c # cs) = CHR '')'' # ?d @ loop_step T ?r2
               \<or> loop_step T (c # cs) = CHR '')'' # CHR ''*'' # ?d @ loop_step T ?r2"
      using alt2 by (simp add: loop_step.simps Let_def)
    have d: "pstars (?d @ ?r2) (?d @ loop_step T ?r2)"
      using ih by (rule pstars_append)
    then have "pstars (CHR '')'' # ?d @ ?r2) (CHR '')'' # ?d @ loop_step T ?r2)"
      by (rule pstars_Cons)
    moreover have "pstars (CHR '')'' # ?d @ ?r2) (CHR '')'' # CHR ''*'' # ?d @ loop_step T ?r2)"
      using d by (rule pstars_close)
    ultimately show ?thesis
      using out alt2(2) by auto
  next
    case none
    then have out: "loop_step T (c # cs) = c # loop_step T cs"
      by (auto simp: loop_step.simps Let_def)
    have "pstars cs (loop_step T cs)"
      using "2.IH"(3) none by blast
    then show ?thesis
      unfolding out by (rule pstars_Cons)
  qed
qed

lemma loop_step_longer: "loop_step T s \<noteq> s \<Longrightarrow> length s < length (loop_step T s)"
  using pstars_length[OF loop_step_pstars, of s T] pstars_same_length[OF loop_step_pstars, of T s]
  by (cases "length (loop_step T s) = length s") auto

text \<open>
  \<^verbatim>\<open>while (true) { let e_org = e; e = e.replace(...); if (e_org === e) break; }\<close>. A replacement
  that changes the string makes it longer and leaves fewer places to rewrite, so the loop
  ends.
\<close>

function prepare_loop :: "tokenizer_deps \<Rightarrow> string \<Rightarrow> string" where
  "prepare_loop T e =
     (let e_org = e; e' = loop_step T e in if e_org = e' then e' else prepare_loop T e')"
  by pat_completeness auto
termination
proof (relation "measure (\<lambda>(T, e). sites (CHR ''*'' # e))", goal_cases)
  case 1
  then show ?case by simp
next
  case (2 T e e_org e')
  then have "length e < length (loop_step T e)"
    using loop_step_longer[of T e] by auto
  with 2 show ?case
    using loop_step_sites[of "CHR ''*''" T e] by simp
qed

declare prepare_loop.simps [simp del]

subsection \<open>\<^verbatim>\<open>prepareExpression\<close> and \<^verbatim>\<open>tokenize\<close>\<close>

text \<open>The test for the letter \<^verbatim>\<open>e\<close> and the replacement of the scientific literals.\<close>

definition scientific_step :: "prepare_settings \<Rightarrow> string \<Rightarrow> string" where
  "scientific_step S e =
     (if contains_e e then scientific_pass (scientificToDecimal S) e else e)"

text \<open>
  A text that holds a scientific literal: the pattern of the scientific-notation step
  matches somewhere in it.
\<close>

fun has_scientific :: "string \<Rightarrow> bool" where
  "has_scientific [] = False"
| "has_scientific (c # cs) = (match_scientific (c # cs) \<noteq> None \<or> has_scientific cs)"

text \<open>
  The steps in the order of the source; \<^verbatim>\<open>e.replace(/\)\(/g, ')*(') || '0'\<close> turns the empty
  string into \<^verbatim>\<open>0\<close>.
\<close>

definition prepareExpression :: "tokenizer_deps \<Rightarrow> prepare_settings \<Rightarrow> string \<Rightarrow> string" where
  "prepareExpression T S e =
     (let e1 = apply_preprocessors (preprocessors S) e;
          e2 = collapse_spaces e1;
          e3 = scientific_step S e2;
          e4 = implied_pass None e3;
          e5 = split_pass T S e4;
          e6 = brackets_pass e5;
          e7 = (if e6 = [] then ''0'' else e6)
      in prepare_loop T e7)"

text \<open>\<^verbatim>\<open>Tokenizer.tokenize(e, shouldPrepare)\<close>.\<close>

definition Tokenizer_tokenize ::
  "tokenizer_deps \<Rightarrow> prepare_settings \<Rightarrow> string \<Rightarrow> bool \<Rightarrow> error + tok list" where
  "Tokenizer_tokenize T S e shouldPrepare =
     InnerTokenizer_tokenize T (if shouldPrepare then prepareExpression T S e else e)"

subsection \<open>Concrete settings\<close>

text \<open>
  Modelled from the spec: \<^verbatim>\<open>Math2.scientificToDecimal\<close> on the two literals used below (the spec:
  a scientific-notation literal is expanded to a decimal literal), so \<^verbatim>\<open>1e1\<close> is \<^verbatim>\<open>10\<close> and
  \<^verbatim>\<open>10e1\<close> is \<^verbatim>\<open>100\<close>; multi-character variables are on, as by default; a run is a number when
  it is a string of digits; no preprocessor is registered.
\<close>

definition sci0 :: "string \<Rightarrow> string" where
  "sci0 x = (if x = ''1e1'' then ''10'' else if x = ''10e1'' then ''100'' else x)"

definition settings0 :: prepare_settings where
  "settings0 = \<lparr> USE_MULTICHARACTER_VARS = True, scientificToDecimal = sci0,
                  isNaN_string = (\<lambda>a. \<not> list_all is_digit a), preprocessors = [] \<rparr>"

subsection \<open>The implied multiplication as an automaton\<close>

text \<open>
  The state after a character: \<^verbatim>\<open>Q0\<close> at the start and after any other character, \<^verbatim>\<open>QL\<close> after
  a letter, \<^verbatim>\<open>QDok\<close> inside a run of digits that follows a letter, \<^verbatim>\<open>QDstar\<close> inside any other
  run of digits. \<^verbatim>\<open>imp\<close> puts a \<^verbatim>\<open>*\<close> in front of a letter or underscore read in \<^verbatim>\<open>QDstar\<close>;
  \<^verbatim>\<open>imp_ok\<close> says that this happens nowhere; \<^verbatim>\<open>run\<close> is the state after a string.
\<close>

datatype istate = Q0 | QL | QDok | QDstar

definition nxt :: "istate \<Rightarrow> char \<Rightarrow> istate" where
  "nxt q c = (if is_letter c then QL
              else if is_digit c then (if q = QL \<or> q = QDok then QDok else QDstar)
              else Q0)"

fun imp :: "istate \<Rightarrow> string \<Rightarrow> string" where
  "imp q [] = []"
| "imp q (c # cs) =
     (if q = QDstar \<and> is_word c then CHR ''*'' # c # imp (nxt q c) cs else c # imp (nxt q c) cs)"

fun imp_ok :: "istate \<Rightarrow> string \<Rightarrow> bool" where
  "imp_ok q [] = True"
| "imp_ok q (c # cs) = (\<not> (q = QDstar \<and> is_word c) \<and> imp_ok (nxt q c) cs)"

fun run :: "istate \<Rightarrow> string \<Rightarrow> istate" where
  "run q [] = q"
| "run q (c # cs) = run (nxt q c) cs"

definition st_of :: "char \<Rightarrow> istate" where
  "st_of c = (if is_letter c then QL else Q0)"

text \<open>
  A string whose leading digits are not followed by a letter or underscore, and the states
  that fit the character in front of the string that is left to scan.
\<close>

definition dead :: "string \<Rightarrow> bool" where
  "dead s = (case dropWhile is_digit s of [] \<Rightarrow> True | x # xs \<Rightarrow> \<not> is_word x)"

definition compat :: "char option \<Rightarrow> istate \<Rightarrow> string \<Rightarrow> bool" where
  "compat prev q s =
     (case prev of
        None \<Rightarrow> q = Q0
      | Some b \<Rightarrow> if is_digit b then (q = QDok \<or> q = QDstar) \<and> dead s else q = st_of b)"

subsection \<open>Strings on which a pass changes nothing\<close>

text \<open>
  A string with \<^verbatim>\<open>*\<close> put in anywhere; a string whose white space is single spaces; a string
  without \<^verbatim>\<open>)(\<close>; a string whose runs of \<^verbatim>\<open>[a-z0-9_]\<close> are all left as they are.
\<close>

inductive stars :: "string \<Rightarrow> string \<Rightarrow> bool" where
  stars_Nil: "stars [] []"
| stars_Cons: "stars s t \<Longrightarrow> stars (c # s) (c # t)"
| stars_star: "stars s t \<Longrightarrow> stars s (CHR ''*'' # t)"

fun space_ok :: "string \<Rightarrow> bool" where
  "space_ok [] = True"
| "space_ok (c # cs) =
     ((if is_space c then c = CHR '' '' \<and> (cs = [] \<or> \<not> is_space (hd cs)) else True) \<and> space_ok cs)"

fun brackets_ok :: "string \<Rightarrow> bool" where
  "brackets_ok (c # d # cs) = (\<not> (c = CHR '')'' \<and> d = CHR ''('') \<and> brackets_ok (d # cs))"
| "brackets_ok cs = True"

function split_ok :: "tokenizer_deps \<Rightarrow> prepare_settings \<Rightarrow> string \<Rightarrow> bool" where
  "split_ok T S [] = True"
| "split_ok T S (c # cs) =
     (if is_ident c
      then split_run T S (takeWhile is_ident (c # cs)) = takeWhile is_ident (c # cs)
           \<and> split_ok T S (dropWhile is_ident (c # cs))
      else split_ok T S cs)"
  by pat_completeness auto
termination
  by (relation "measure (\<lambda>(T, S, s). length s)") (auto simp: le_imp_less_Suc length_dropWhile_le)

declare split_ok.simps [simp del]


section \<open>Properties of the term type\<close>

subsection \<open>Reading a field after an update\<close>

lemma set_group_sel [simp]:
  "group_of (set_group x t) = x"
  "value_of (set_group x t) = value_of t"
  "multiplier (set_group x t) = multiplier t"
  "power_of (set_group x t) = power_of t"
  "symbols (set_group x t) = symbols t"
  "length_of (set_group x t) = length_of t"
  "previousGroup (set_group x t) = previousGroup t"
  "imaginary (set_group x t) = imaginary t"
  "isInfinity (set_group x t) = isInfinity t"
  "fname (set_group x t) = fname t"
  "args (set_group x t) = args t"
  "scientific (set_group x t) = scientific t"
  "isConversion (set_group x t) = isConversion t"
  "isUnit (set_group x t) = isUnit t"
  "parens (set_group x t) = parens t"
  "isImgSymbol (set_group x t) = isImgSymbol t"
  by (cases t; simp)+

lemma set_value_sel [simp]:
  "group_of (set_value x t) = group_of t"
  "value_of (set_value x t) = x"
  "multiplier (set_value x t) = multiplier t"
  "power_of (set_value x t) = power_of t"
  "symbols (set_value x t) = symbols t"
  "length_of (set_value x t) = length_of t"
  "previousGroup (set_value x t) = previousGroup t"
  "imaginary (set_value x t) = imaginary t"
  "isInfinity (set_value x t) = isInfinity t"
  "fname (set_value x t) = fname t"
  "args (set_value x t) = args t"
  "scientific (set_value x t) = scientific t"
  "isConversion (set_value x t) = isConversion t"
  "isUnit (set_value x t) = isUnit t"
  "parens (set_value x t) = parens t"
  "isImgSymbol (set_value x t) = isImgSymbol t"
  by (cases t; simp)+

lemma set_multiplier_sel [simp]:
  "group_of (set_multiplier x t) = group_of t"
  "value_of (set_multiplier x t) = value_of t"
  "multiplier (set_multiplier x t) = x"
  "power_of (set_multiplier x t) = power_of t"
  "symbols (set_multiplier x t) = symbols t"
  "length_of (set_multiplier x t) = length_of t"
  "previousGroup (set_multiplier x t) = previousGroup t"
  "imaginary (set_multiplier x t) = imaginary t"
  "isInfinity (set_multiplier x t) = isInfinity t"
  "fname (set_multiplier x t) = fname t"
  "args (set_multiplier x t) = args t"
  "scientific (set_multiplier x t) = scientific t"
  "isConversion (set_multiplier x t) = isConversion t"
  "isUnit (set_multiplier x t) = isUnit t"
  "parens (set_multiplier x t) = parens t"
  "isImgSymbol (set_multiplier x t) = isImgSymbol t"
  by (cases t; simp)+

lemma set_power_sel [simp]:
  "group_of (set_power x t) = group_of t"
  "value_of (set_power x t) = value_of t"
  "multiplier (set_power x t) = multiplier t"
  "power_of (set_power x t) = x"
  "symbols (set_power x t) = symbols t"
  "length_of (set_power x t) = length_of t"
  "previousGroup (set_power x t) = previousGroup t"
  "imaginary (set_power x t) = imaginary t"
  "isInfinity (set_power x t) = isInfinity t"
  "fname (set_power x t) = fname t"
  "args (set_power x t) = args t"
  "scientific (set_power x t) = scientific t"
  "isConversion (set_power x t) = isConversion t"
  "isUnit (set_power x t) = isUnit t"
  "parens (set_power x t) = parens t"
  "isImgSymbol (set_power x t) = isImgSymbol t"
  by (cases t; simp)+

lemma set_symbols_sel [simp]:
  "group_of (set_symbols x t) = group_of t"
  "value_of (set_symbols x t) = value_of t"
  "multiplier (set_symbols x t) = multiplier t"
  "power_of (set_symbols x t) = power_of t"
  "symbols (set_symbols x t) = x"
  "length_of (set_symbols x t) = length_of t"
  "previousGroup (set_symbols x t) = previousGroup t"
  "imaginary (set_symbols x t) = imaginary t"
  "isInfinity (set_symbols x t) = isInfinity t"
  "fname (set_symbols x t) = fname t"
  "args (set_symbols x t) = args t"
  "scientific (set_symbols x t) = scientific t"
  "isConversion (set_symbols x t) = isConversion t"
  "isUnit (set_symbols x t) = isUnit t"
  "parens (set_symbols x t) = parens t"
  "isImgSymbol (set_symbols x t) = isImgSymbol t"
  by (cases t; simp)+

lemma set_length_sel [simp]:
  "group_of (set_length x t) = group_of t"
  "value_of (set_length x t) = value_of t"
  "multiplier (set_length x t) = multiplier t"
  "power_of (set_length x t) = power_of t"
  "symbols (set_length x t) = symbols t"
  "length_of (set_length x t) = x"
  "previousGroup (set_length x t) = previousGroup t"
  "imaginary (set_length x t) = imaginary t"
  "isInfinity (set_length x t) = isInfinity t"
  "fname (set_length x t) = fname t"
  "args (set_length x t) = args t"
  "scientific (set_length x t) = scientific t"
  "isConversion (set_length x t) = isConversion t"
  "isUnit (set_length x t) = isUnit t"
  "parens (set_length x t) = parens t"
  "isImgSymbol (set_length x t) = isImgSymbol t"
  by (cases t; simp)+

lemma set_previousGroup_sel [simp]:
  "group_of (set_previousGroup x t) = group_of t"
  "value_of (set_previousGroup x t) = value_of t"
  "multiplier (set_previousGroup x t) = multiplier t"
  "power_of (set_previousGroup x t) = power_of t"
  "symbols (set_previousGroup x t) = symbols t"
  "length_of (set_previousGroup x t) = length_of t"
  "previousGroup (set_previousGroup x t) = x"
  "imaginary (set_previousGroup x t) = imaginary t"
  "isInfinity (set_previousGroup x t) = isInfinity t"
  "fname (set_previousGroup x t) = fname t"
  "args (set_previousGroup x t) = args t"
  "scientific (set_previousGroup x t) = scientific t"
  "isConversion (set_previousGroup x t) = isConversion t"
  "isUnit (set_previousGroup x t) = isUnit t"
  "parens (set_previousGroup x t) = parens t"
  "isImgSymbol (set_previousGroup x t) = isImgSymbol t"
  by (cases t; simp)+

lemma set_imaginary_sel [simp]:
  "group_of (set_imaginary x t) = group_of t"
  "value_of (set_imaginary x t) = value_of t"
  "multiplier (set_imaginary x t) = multiplier t"
  "power_of (set_imaginary x t) = power_of t"
  "symbols (set_imaginary x t) = symbols t"
  "length_of (set_imaginary x t) = length_of t"
  "previousGroup (set_imaginary x t) = previousGroup t"
  "imaginary (set_imaginary x t) = x"
  "isInfinity (set_imaginary x t) = isInfinity t"
  "fname (set_imaginary x t) = fname t"
  "args (set_imaginary x t) = args t"
  "scientific (set_imaginary x t) = scientific t"
  "isConversion (set_imaginary x t) = isConversion t"
  "isUnit (set_imaginary x t) = isUnit t"
  "parens (set_imaginary x t) = parens t"
  "isImgSymbol (set_imaginary x t) = isImgSymbol t"
  by (cases t; simp)+

lemma set_isInfinity_sel [simp]:
  "group_of (set_isInfinity x t) = group_of t"
  "value_of (set_isInfinity x t) = value_of t"
  "multiplier (set_isInfinity x t) = multiplier t"
  "power_of (set_isInfinity x t) = power_of t"
  "symbols (set_isInfinity x t) = symbols t"
  "length_of (set_isInfinity x t) = length_of t"
  "previousGroup (set_isInfinity x t) = previousGroup t"
  "imaginary (set_isInfinity x t) = imaginary t"
  "isInfinity (set_isInfinity x t) = x"
  "fname (set_isInfinity x t) = fname t"
  "args (set_isInfinity x t) = args t"
  "scientific (set_isInfinity x t) = scientific t"
  "isConversion (set_isInfinity x t) = isConversion t"
  "isUnit (set_isInfinity x t) = isUnit t"
  "parens (set_isInfinity x t) = parens t"
  "isImgSymbol (set_isInfinity x t) = isImgSymbol t"
  by (cases t; simp)+

lemma set_fname_sel [simp]:
  "group_of (set_fname x t) = group_of t"
  "value_of (set_fname x t) = value_of t"
  "multiplier (set_fname x t) = multiplier t"
  "power_of (set_fname x t) = power_of t"
  "symbols (set_fname x t) = symbols t"
  "length_of (set_fname x t) = length_of t"
  "previousGroup (set_fname x t) = previousGroup t"
  "imaginary (set_fname x t) = imaginary t"
  "isInfinity (set_fname x t) = isInfinity t"
  "fname (set_fname x t) = x"
  "args (set_fname x t) = args t"
  "scientific (set_fname x t) = scientific t"
  "isConversion (set_fname x t) = isConversion t"
  "isUnit (set_fname x t) = isUnit t"
  "parens (set_fname x t) = parens t"
  "isImgSymbol (set_fname x t) = isImgSymbol t"
  by (cases t; simp)+

lemma set_args_sel [simp]:
  "group_of (set_args x t) = group_of t"
  "value_of (set_args x t) = value_of t"
  "multiplier (set_args x t) = multiplier t"
  "power_of (set_args x t) = power_of t"
  "symbols (set_args x t) = symbols t"
  "length_of (set_args x t) = length_of t"
  "previousGroup (set_args x t) = previousGroup t"
  "imaginary (set_args x t) = imaginary t"
  "isInfinity (set_args x t) = isInfinity t"
  "fname (set_args x t) = fname t"
  "args (set_args x t) = x"
  "scientific (set_args x t) = scientific t"
  "isConversion (set_args x t) = isConversion t"
  "isUnit (set_args x t) = isUnit t"
  "parens (set_args x t) = parens t"
  "isImgSymbol (set_args x t) = isImgSymbol t"
  by (cases t; simp)+

lemma set_scientific_sel [simp]:
  "group_of (set_scientific x t) = group_of t"
  "value_of (set_scientific x t) = value_of t"
  "multiplier (set_scientific x t) = multiplier t"
  "power_of (set_scientific x t) = power_of t"
  "symbols (set_scientific x t) = symbols t"
  "length_of (set_scientific x t) = length_of t"
  "previousGroup (set_scientific x t) = previousGroup t"
  "imaginary (set_scientific x t) = imaginary t"
  "isInfinity (set_scientific x t) = isInfinity t"
  "fname (set_scientific x t) = fname t"
  "args (set_scientific x t) = args t"
  "scientific (set_scientific x t) = x"
  "isConversion (set_scientific x t) = isConversion t"
  "isUnit (set_scientific x t) = isUnit t"
  "parens (set_scientific x t) = parens t"
  "isImgSymbol (set_scientific x t) = isImgSymbol t"
  by (cases t; simp)+

lemma set_isConversion_sel [simp]:
  "group_of (set_isConversion x t) = group_of t"
  "value_of (set_isConversion x t) = value_of t"
  "multiplier (set_isConversion x t) = multiplier t"
  "power_of (set_isConversion x t) = power_of t"
  "symbols (set_isConversion x t) = symbols t"
  "length_of (set_isConversion x t) = length_of t"
  "previousGroup (set_isConversion x t) = previousGroup t"
  "imaginary (set_isConversion x t) = imaginary t"
  "isInfinity (set_isConversion x t) = isInfinity t"
  "fname (set_isConversion x t) = fname t"
  "args (set_isConversion x t) = args t"
  "scientific (set_isConversion x t) = scientific t"
  "isConversion (set_isConversion x t) = x"
  "isUnit (set_isConversion x t) = isUnit t"
  "parens (set_isConversion x t) = parens t"
  "isImgSymbol (set_isConversion x t) = isImgSymbol t"
  by (cases t; simp)+

lemma set_isUnit_sel [simp]:
  "group_of (set_isUnit x t) = group_of t"
  "value_of (set_isUnit x t) = value_of t"
  "multiplier (set_isUnit x t) = multiplier t"
  "power_of (set_isUnit x t) = power_of t"
  "symbols (set_isUnit x t) = symbols t"
  "length_of (set_isUnit x t) = length_of t"
  "previousGroup (set_isUnit x t) = previousGroup t"
  "imaginary (set_isUnit x t) = imaginary t"
  "isInfinity (set_isUnit x t) = isInfinity t"
  "fname (set_isUnit x t) = fname t"
  "args (set_isUnit x t) = args t"
  "scientific (set_isUnit x t) = scientific t"
  "isConversion (set_isUnit x t) = isConversion t"
  "isUnit (set_isUnit x t) = x"
  "parens (set_isUnit x t) = parens t"
  "isImgSymbol (set_isUnit x t) = isImgSymbol t"
  by (cases t; simp)+

lemma set_parens_sel [simp]:
  "group_of (set_parens x t) = group_of t"
  "value_of (set_parens x t) = value_of t"
  "multiplier (set_parens x t) = multiplier t"
  "power_of (set_parens x t) = power_of t"
  "symbols (set_parens x t) = symbols t"
  "length_of (set_parens x t) = length_of t"
  "previousGroup (set_parens x t) = previousGroup t"
  "imaginary (set_parens x t) = imaginary t"
  "isInfinity (set_parens x t) = isInfinity t"
  "fname (set_parens x t) = fname t"
  "args (set_parens x t) = args t"
  "scientific (set_parens x t) = scientific t"
  "isConversion (set_parens x t) = isConversion t"
  "isUnit (set_parens x t) = isUnit t"
  "parens (set_parens x t) = x"
  "isImgSymbol (set_parens x t) = isImgSymbol t"
  by (cases t; simp)+

lemma set_isImgSymbol_sel [simp]:
  "group_of (set_isImgSymbol x t) = group_of t"
  "value_of (set_isImgSymbol x t) = value_of t"
  "multiplier (set_isImgSymbol x t) = multiplier t"
  "power_of (set_isImgSymbol x t) = power_of t"
  "symbols (set_isImgSymbol x t) = symbols t"
  "length_of (set_isImgSymbol x t) = length_of t"
  "previousGroup (set_isImgSymbol x t) = previousGroup t"
  "imaginary (set_isImgSymbol x t) = imaginary t"
  "isInfinity (set_isImgSymbol x t) = isInfinity t"
  "fname (set_isImgSymbol x t) = fname t"
  "args (set_isImgSymbol x t) = args t"
  "scientific (set_isImgSymbol x t) = scientific t"
  "isConversion (set_isImgSymbol x t) = isConversion t"
  "isUnit (set_isImgSymbol x t) = isUnit t"
  "parens (set_isImgSymbol x t) = parens t"
  "isImgSymbol (set_isImgSymbol x t) = x"
  by (cases t; simp)+

subsection \<open>Equality\<close>

lemma equals_fields:
  "equals E a (ASym b) \<longleftrightarrow>
     value_of a = value_of b
     \<and> (case (power_of a, power_of b) of
          (PFrac p, PFrac q) \<Rightarrow> p = q
        | (PFrac p, PSym t) \<Rightarrow> False
        | (PSym s, PFrac q) \<Rightarrow> equals E s (ANum q)
        | (PSym s, PSym t) \<Rightarrow> equals E s (ASym t))
     \<and> multiplier a = multiplier b
     \<and> group_of a = group_of b"
proof (cases a)
  case (Symbol g v m pw sy l pg im nf fn ar sc co un pa ig)
  then show ?thesis
    by (cases pw; cases "power_of b") simp_all
qed

text \<open>
  C1, as the code has it. \<^verbatim>\<open>a.equals(b)\<close> holds exactly when value, multiplier and group
  coincide and the powers are equal (two rational powers as rationals, a Symbol power
  through \<^verbatim>\<open>equals\<close> again); the children objects are not looked at, so replacing them on
  either side does not change the answer.
\<close>

theorem equals_four_fields:
  "(equals E a (ASym b) \<longleftrightarrow>
      value_of a = value_of b
      \<and> (case (power_of a, power_of b) of
           (PFrac p, PFrac q) \<Rightarrow> p = q
         | (PFrac p, PSym t) \<Rightarrow> False
         | (PSym s, PFrac q) \<Rightarrow> equals E s (ANum q)
         | (PSym s, PSym t) \<Rightarrow> equals E s (ASym t))
      \<and> multiplier a = multiplier b
      \<and> group_of a = group_of b)
   \<and> equals E (set_symbols xs a) (ASym (set_symbols ys b)) = equals E a (ASym b)"
proof
  show "equals E a (ASym b) \<longleftrightarrow>
      value_of a = value_of b
      \<and> (case (power_of a, power_of b) of
           (PFrac p, PFrac q) \<Rightarrow> p = q
         | (PFrac p, PSym t) \<Rightarrow> False
         | (PSym s, PFrac q) \<Rightarrow> equals E s (ANum q)
         | (PSym s, PSym t) \<Rightarrow> equals E s (ASym t))
      \<and> multiplier a = multiplier b
      \<and> group_of a = group_of b"
    by (rule equals_fields)
  show "equals E (set_symbols xs a) (ASym (set_symbols ys b)) = equals E a (ASym b)"
    by (simp add: equals_fields)
qed

text \<open>
  C1 as stated fails: \<open>x + x\<^sup>2\<close> and \<open>x + x\<^sup>3\<close> are both of group PL with value \<open>x\<close>,
  multiplier 1 and power 1, so \<^verbatim>\<open>equals\<close> answers true, while their children objects have
  the keys \<open>1, 2\<close> and \<open>1, 3\<close>.
\<close>

theorem equals_children_counterexample:
  "equals env0
     (composite Groups_PL ''x'' 1 [(''1'', atom ''x'' 1 1), (''2'', atom ''x'' 1 2)])
     (ASym (composite Groups_PL ''x'' 1 [(''1'', atom ''x'' 1 1), (''3'', atom ''x'' 1 3)]))
   \<and> \<not> children_agree env0
     (composite Groups_PL ''x'' 1 [(''1'', atom ''x'' 1 1), (''2'', atom ''x'' 1 2)])
     (composite Groups_PL ''x'' 1 [(''1'', atom ''x'' 1 1), (''3'', atom ''x'' 1 3)])"
  by (simp add: composite_def atom_def children_agree_def)

subsection \<open>Comparison\<close>



subsection \<open>Negation\<close>

lemma distributeMultiplier_children:
  assumes "symbols t = Some xs" and "power_of t = PFrac 1"
    and "group_of t \<noteq> Some Groups_CB" and "multiplier t \<noteq> 1"
  shows "distributeMultiplier E t =
           set_multiplier 1 (set_symbols
             (Some (map (\<lambda>kv. (fst kv,
                distributeMultiplier E (set_multiplier (multiplier (snd kv) * multiplier t) (snd kv))))
              xs)) t)"
  using assms by (cases t) (simp add: power_equals_num_def toUnitMultiplier_def)

lemma distributeMultiplier_unit:
  assumes "multiplier t = 1"
  shows "distributeMultiplier E t = t"
  using assms by (cases t) (simp split: option.split)

text \<open>
  C10. On a term of group CP or PL with power 1 and a children object, \<^verbatim>\<open>negate\<close> leaves
  the head with multiplier 1 whatever the multiplier \<open>m\<close> was. Unless the negated multiplier
  \<open>- m\<close> is 1 (nothing is left to distribute then), every child has had its multiplier
  multiplied by \<open>- m\<close>, the multiplier the head carried after the sign change, and has
  distributed that product into its own children in turn; a child without children ends
  with exactly the product as its multiplier.
\<close>

theorem negate_distributes:
  assumes "group_of t = Some Groups_CP \<or> group_of t = Some Groups_PL"
    and "power_of t = PFrac 1"
    and "symbols t = Some xs"
  shows "\<bar>multiplier (negate E t)\<bar> = 1
    \<and> (\<exists>ys. symbols (negate E t) = Some ys
          \<and> ys = map (\<lambda>kv. (fst kv,
                   if - multiplier t = 1 then snd kv
                   else distributeMultiplier E
                          (set_multiplier (multiplier (snd kv) * (- multiplier t)) (snd kv))))
                 xs
          \<and> list_all2 (\<lambda>kv kv'. fst kv' = fst kv
                   \<and> (symbols (snd kv) = None \<longrightarrow>
                        multiplier (snd kv') = multiplier (snd kv) * (- multiplier t)))
               xs ys)"
proof (cases "- multiplier t = 1")
  case True
  then have "distributeMultiplier E (set_multiplier (- multiplier t) t) = set_multiplier (- multiplier t) t"
    by (intro distributeMultiplier_unit) simp
  with True assms show ?thesis
    by (simp add: negate_def list.rel_map list.rel_refl)
next
  case False
  let ?t' = "set_multiplier (- multiplier t) t"
  have d: "distributeMultiplier E ?t' =
           set_multiplier 1 (set_symbols
             (Some (map (\<lambda>kv. (fst kv,
                distributeMultiplier E (set_multiplier (multiplier (snd kv) * multiplier ?t') (snd kv))))
              xs)) ?t')"
    using assms False by (intro distributeMultiplier_children) auto
  have leaf: "symbols c = None \<Longrightarrow> distributeMultiplier E c = c" for c
    by (cases c) simp
  have neg: "negate E t = distributeMultiplier E ?t'"
    using assms by (auto simp: negate_def)
  show ?thesis
    unfolding neg d using False
    by (simp add: list.rel_map leaf list.rel_refl)
qed

text \<open>
  At \<open>2\<cdot>(x + 3\<cdot>y)\<close>: the head ends with multiplier 1 and the children with \<open>- 2\<close> and
  \<open>- 6\<close>.
\<close>

theorem negate_distributes_witness:
  "multiplier (negate env0 (composite Groups_CP ''x+3*y'' 2
       [(''x'', atom ''x'' 1 1), (''y'', atom ''y'' 3 1)])) = 1
   \<and> symbols (negate env0 (composite Groups_CP ''x+3*y'' 2
       [(''x'', atom ''x'' 1 1), (''y'', atom ''y'' 3 1)]))
      = Some [(''x'', atom ''x'' (- 2) 1), (''y'', atom ''y'' (- 6) 1)]"
  using negate_distributes
    [of "composite Groups_CP ''x+3*y'' 2 [(''x'', atom ''x'' 1 1), (''y'', atom ''y'' 3 1)]"
        "[(''x'', atom ''x'' 1 1), (''y'', atom ''y'' 3 1)]" env0]
  by (simp add: composite_def atom_def negate_def power_equals_num_def toUnitMultiplier_def)

subsection \<open>Cloning\<close>




lemma equals_refl: "equals E t (ASym t)"
proof (induction t)
  case (Symbol g v m pw sy l pg im nf fn ar sc co un pa ig)
  show ?case
  proof (cases pw)
    case (PFrac p)
    then show ?thesis by simp
  next
    case (PSym s)
    with Symbol.IH(1)[of s] show ?thesis by simp
  qed
qed



text \<open>On the store: what the loop and the clone leave as it was.\<close>

lemma length_upd [simp]: "length (upd a f h) = length h"
  by (simp add: upd_def)




lemma power_set_child [simp]: "c_power (set_child x a c) = c_power c"
  by (simp add: set_child_def)

lemma args_set_child [simp]: "c_args (set_child x a c) = c_args c"
  by (simp add: set_child_def)

lemma refs_copy_defined_c [simp]: "refs (copy_defined_c t c) = refs c"
  by (simp add: refs_def copy_defined_c_def Let_def)

lemma refs_copy_flags_c [simp]: "refs (copy_flags_c t c) = refs c"
  by (simp add: refs_def copy_flags_c_def Let_def)

lemma refs_multiplier [simp]: "refs (c\<lparr>c_multiplier := m\<rparr>) = refs c"
  by (simp add: refs_def)

lemma refs_power: "refs (c\<lparr>c_power := p\<rparr>)
    = (case c_symbols c of None \<Rightarrow> {} | Some xs \<Rightarrow> snd ` set xs)
      \<union> (case p of PowFrac q \<Rightarrow> {} | PowRef r \<Rightarrow> {r})"
  by (simp add: refs_def)

lemma refs_no_symbols [simp]: "refs (c\<lparr>c_symbols := Some []\<rparr>)
    = (case c_power c of PowFrac q \<Rightarrow> {} | PowRef r \<Rightarrow> {r})"
  by (simp add: refs_def)

lemma refs_new_cell [simp]: "refs (new_cell E q) = {}"
  by (simp add: refs_def new_cell_def)




lemma args_copy_flags_c [simp]: "c_args (copy_flags_c t c) = c_args c"
  by (simp add: copy_flags_c_def Let_def)










subsection \<open>Insertion\<close>

lemma obj_delete_set: "obj_delete (obj_set obj key r) key = obj_delete obj key"
  by (induction obj) (auto simp: obj_delete_def)

lemma obj_get_delete: "obj_get (obj_delete obj key) key = None"
  by (induction obj) (auto simp: obj_delete_def obj_get_def)

lemma convert_N_composite:
  assumes "group_of t \<noteq> Some Groups_P" "group_of t \<noteq> None"
  shows "\<exists>t'. convert E Groups_N im t = Inr t' \<and> group_of t' = Some Groups_N
           \<and> symbols t' = None \<and> length_of t' = length_of t
           \<and> multiplier t' = frac_of_string E (frac_toDecimal E (multiplier t))"
  using assms
  by (cases t) (simp add: convert.simps new_Symbol_def copy_defined_def copy_flags_def Let_def)


lemma gt_FN_cases: "gt_FN (Some grp) \<longleftrightarrow> grp = Groups_PL \<or> grp = Groups_CP \<or> grp = Groups_CB"
  by (cases grp) (simp_all add: gt_FN_def)

lemma updateHash_composite:
  assumes "group_of t = Some Groups_CP \<or> group_of t = Some Groups_CB"
  shows "updateHash E t = Inr (set_value (text_hash E t) t)"
  using assms by (auto simp: updateHash_def)

text \<open>
  C3. A term with children and a group above FN receives, with action \<^verbatim>\<open>add\<close>, a symbol
  whose key already holds a child, and the kernel's sum of the two has multiplier 0
  (the decimal text of 0 is taken to read back as 0). Then the child is removed from the
  children object and the length is decremented; and when the length reaches 0 the term
  becomes a term of group N with multiplier 0 and no children.
\<close>

theorem insert_add_zero_child:
  assumes sy: "symbols t = Some obj" and g: "group_of t = Some grp" and gt: "gt_FN (Some grp)"
    and key: "keyForGroup E s grp = Inr key" and ex: "obj_get obj key = Some ex"
    and add: "kernel_add E ex s = Inr r" and zero: "multiplier r = 0"
    and len: "length_of t = Some n"
    and dec0: "frac_of_string E (frac_toDecimal E 0) = 0"
  shows "\<exists>t'. insert_sym E t s ''add'' = Inr t'
          \<and> (if n - 1 = 0
              then group_of t' = Some Groups_N \<and> multiplier t' = 0 \<and> symbols t' = None
              else symbols t' = Some (obj_delete obj key)
                   \<and> obj_get (obj_delete obj key) key = None
                   \<and> length_of t' = Some (n - 1)
                   \<and> group_of t' = Some grp)"
proof -
  let ?t2 = "set_length (length_dec (length_of t)) (set_symbols (Some (obj_delete obj key)) t)"
  have t2: "length_of ?t2 = Some (n - 1)" "group_of ?t2 = Some grp"
    "symbols ?t2 = Some (obj_delete obj key)"
    using len g by (simp_all add: length_dec_def)
  show ?thesis
  proof (cases "n - 1 = 0")
    case True
    have notP: "group_of ?t2 \<noteq> Some Groups_P" "group_of ?t2 \<noteq> None"
      using gt t2 by (auto simp: gt_FN_cases)
    from convert_N_composite[OF notP, of E False] obtain t3 where
      t3: "convert E Groups_N False ?t2 = Inr t3" "group_of t3 = Some Groups_N"
          "symbols t3 = None" "length_of t3 = length_of ?t2"
      by blast
    let ?t4 = "set_multiplier 0 t3"
    have notP4: "group_of ?t4 \<noteq> Some Groups_P" "group_of ?t4 \<noteq> None"
      using t3 by simp_all
    from convert_N_composite[OF notP4, of E False] obtain t5 where
      t5: "convert E Groups_N False ?t4 = Inr t5" "group_of t5 = Some Groups_N"
          "symbols t5 = None" "multiplier t5 = frac_of_string E (frac_toDecimal E (multiplier ?t4))"
      by blast
    have add_branch: "insert_add E t obj key (Own ex) s = Inr ?t4"
      using add zero t2 True t3 ex
      by (simp add: insert_add_def obj_assign_def and_then_def Let_def obj_delete_set)
    have "insert_sym E t s ''add'' = Inr t5"
      using sy g gt key ex add_branch t3 t2 True t5
      by (simp add: insert_sym_def slot_of_def and_then_def Let_def)
    with True t5 dec0 show ?thesis by simp
  next
    case False
    have add_branch: "insert_add E t obj key (Own ex) s = Inr ?t2"
      using add zero t2 False ex
      by (simp add: insert_add_def obj_assign_def and_then_def Let_def obj_delete_set)
    have "\<exists>t'. insert_sym E t s ''add'' = Inr t' \<and> symbols t' = symbols ?t2
            \<and> length_of t' = length_of ?t2 \<and> group_of t' = group_of ?t2"
      using sy g gt key ex add_branch t2 False
      by (auto simp: insert_sym_def slot_of_def and_then_def Let_def updateHash_composite)
    with False t2 show ?thesis by (auto simp: obj_get_delete)
  qed
qed

text \<open>
  \<open>x + (- x)\<close> in the sum whose only child is \<open>x\<close>: the child goes and the sum becomes the
  number 0.
\<close>

theorem insert_add_zero_child_witness:
  "keyForGroup env_sum (atom ''x'' (- 1) 1) Groups_CP = Inr ''x''
   \<and> kernel_add env_sum (atom ''x'' 1 1) (atom ''x'' (- 1) 1) = Inr (atom ''x'' 0 1)
   \<and> (\<exists>t'. insert_sym env_sum (composite Groups_CP ''x'' 1 [(''x'', atom ''x'' 1 1)])
               (atom ''x'' (- 1) 1) ''add'' = Inr t'
             \<and> group_of t' = Some Groups_N \<and> multiplier t' = 0 \<and> symbols t' = None)"
proof -
  have sy: "symbols (composite Groups_CP ''x'' 1 [(''x'', atom ''x'' 1 1)]) = Some [(''x'', atom ''x'' 1 1)]"
    and g: "group_of (composite Groups_CP ''x'' 1 [(''x'', atom ''x'' 1 1)]) = Some Groups_CP"
    and len: "length_of (composite Groups_CP ''x'' 1 [(''x'', atom ''x'' 1 1)]) = Some 1"
    by (simp_all add: composite_def)
  have gt: "gt_FN (Some Groups_CP)"
    by (simp add: gt_FN_def)
  have key: "keyForGroup env_sum (atom ''x'' (- 1) 1) Groups_CP = Inr ''x''"
    by (simp add: keyForGroup_def atom_def)
  have ex: "obj_get [(''x'', atom ''x'' 1 1)] ''x'' = Some (atom ''x'' 1 1)"
    by (simp add: obj_get_def)
  have add: "kernel_add env_sum (atom ''x'' 1 1) (atom ''x'' (- 1) 1) = Inr (atom ''x'' 0 1)"
    by (simp add: env_sum_def atom_def)
  have zero: "multiplier (atom ''x'' 0 1) = 0"
    by (simp add: atom_def)
  have dec0: "frac_of_string env_sum (frac_toDecimal env_sum 0) = 0"
    by (simp add: env_sum_def env0_def frac_num_def string_of_int_def string_of_nat.simps
          digit_char_def)
  from insert_add_zero_child [OF sy g gt key ex add zero len dec0] key add
  show ?thesis by simp
qed


lemma obj_get_set: "obj_get (obj_set obj key c) key = Some c"
  by (induction obj) (auto simp: obj_get_def)







lemma toUnitMultiplier_sel [simp]:
  "multiplier (toUnitMultiplier k t) = (if multiplier t < 0 \<and> k then - 1 else 1)"
  "group_of (toUnitMultiplier k t) = group_of t"
  "value_of (toUnitMultiplier k t) = value_of t"
  "power_of (toUnitMultiplier k t) = power_of t"
  "symbols (toUnitMultiplier k t) = symbols t"
  "length_of (toUnitMultiplier k t) = length_of t"
  "previousGroup (toUnitMultiplier k t) = previousGroup t"
  "args (toUnitMultiplier k t) = args t"
  "isImgSymbol (toUnitMultiplier k t) = isImgSymbol t"
  by (simp_all add: toUnitMultiplier_def)








lemma insert_finish:
  assumes "group_of t4 = Some Groups_CB" "length_of t4 \<noteq> Some 0"
  shows "and_then (if length_of t4 = Some 0 then convert E Groups_N False t4 else Inr t4) (\<lambda>t2.
             if group_of t2 = Some Groups_CP \<or> group_of t2 = Some Groups_CB
             then updateHash E t2 else Inr t2) = Inr (set_value (text_hash E t4) t4)"
  using assms by (simp add: and_then_def updateHash_composite)


















subsection \<open>Enumeration of variables\<close>

text \<open>
  C8 at a function raised to a symbolic power. For \<open>sin(x)\<close> the arguments are walked and
  the answer is \<open>[x]\<close>; for \<open>sin(x)\<^sup>y\<close> (group EX, previous group FN) only the power is
  walked and the answer is \<open>[y]\<close>, although \<open>x\<close> occurs in the term.
\<close>

theorem variables_skips_function_base:
  "variables env0 sin_x = Inr [''x''] \<and> variables env0 sin_x_pow_y = Inr [''y'']"
  by (simp add: variables_def sin_x_def sin_x_pow_y_def atom_def env0_def and_then_def vars_add_def)


section \<open>Properties of the wrapper\<close>

text \<open>
  C7. Once the argument is a Symbol (given as one, or parsed), an error raised by the
  kernel's subtraction makes \<^verbatim>\<open>eq\<close>, \<^verbatim>\<open>lt\<close> and \<^verbatim>\<open>gt\<close> return false, and so does an error
  raised by the evaluation in \<^verbatim>\<open>lt\<close> and \<^verbatim>\<open>gt\<close>: none of the three propagates it.
\<close>

theorem wrapper_comparisons_catch:
  assumes "to_symbol E val = Inr v"
  shows "(kernel_subtract E (clone E None (symbol_of this)) v = Inl e \<longrightarrow>
            Expression_eq E this val = Inr False
            \<and> Expression_lt E this val = Inr False
            \<and> Expression_gt E this val = Inr False)
       \<and> (kernel_subtract E (clone E None (symbol_of this)) v = Inr s
            \<and> kernel_evaluate E s = Inl e \<longrightarrow>
            Expression_lt E this val = Inr False
            \<and> Expression_gt E this val = Inr False)"
  using assms
  by (simp add: Expression_eq_def Expression_lt_def Expression_gt_def and_then_def catch_false_def)

text \<open>
  With a kernel whose subtraction raises, and with one whose subtraction hands back its
  first argument and whose evaluation raises.
\<close>

theorem wrapper_comparisons_catch_witness:
  "Expression_eq env0 (Expression (atom ''x'' 1 1)) (VSym (atom ''y'' 1 1)) = Inr False
   \<and> Expression_lt env0 (Expression (atom ''x'' 1 1)) (VSym (atom ''y'' 1 1)) = Inr False
   \<and> Expression_gt env0 (Expression (atom ''x'' 1 1)) (VSym (atom ''y'' 1 1)) = Inr False
   \<and> Expression_lt (env0\<lparr>kernel_subtract := \<lambda>a b. Inr a\<rparr>)
        (Expression (atom ''x'' 1 1)) (VSym (atom ''y'' 1 1)) = Inr False
   \<and> Expression_gt (env0\<lparr>kernel_subtract := \<lambda>a b. Inr a\<rparr>)
        (Expression (atom ''x'' 1 1)) (VSym (atom ''y'' 1 1)) = Inr False"
proof -
  have h: "to_symbol E (VSym (atom ''y'' 1 1)) = Inr (atom ''y'' 1 1)" for E
    by (simp add: to_symbol_def)
  have a: "kernel_subtract env0 (clone env0 None (symbol_of (Expression (atom ''x'' 1 1))))
             (atom ''y'' 1 1) = Inl (KernelError ''subtract'')"
    by (simp add: env0_def)
  have b: "kernel_subtract (env0\<lparr>kernel_subtract := \<lambda>a b. Inr a\<rparr>)
             (clone (env0\<lparr>kernel_subtract := \<lambda>a b. Inr a\<rparr>) None (symbol_of (Expression (atom ''x'' 1 1))))
             (atom ''y'' 1 1)
           = Inr (clone (env0\<lparr>kernel_subtract := \<lambda>a b. Inr a\<rparr>) None (atom ''x'' 1 1))
         \<and> kernel_evaluate (env0\<lparr>kernel_subtract := \<lambda>a b. Inr a\<rparr>)
             (clone (env0\<lparr>kernel_subtract := \<lambda>a b. Inr a\<rparr>) None (atom ''x'' 1 1))
           = Inl (KernelError ''evaluate'')"
    by (simp add: env0_def)
  show ?thesis
    using wrapper_comparisons_catch [OF h, of env0 "Expression (atom ''x'' 1 1)"
            "KernelError ''subtract''" "atom ''x'' 1 1"] a
          wrapper_comparisons_catch [OF h, of "env0\<lparr>kernel_subtract := \<lambda>a b. Inr a\<rparr>"
            "Expression (atom ''x'' 1 1)" "KernelError ''evaluate''"
            "clone (env0\<lparr>kernel_subtract := \<lambda>a b. Inr a\<rparr>) None (atom ''x'' 1 1)"] b
    by simp
qed

section \<open>Properties of the tokenizer\<close>

subsection \<open>Bracket errors\<close>

text \<open>
  Claim C6. A closing bracket without an open one, a closing bracket that does not pair with
  the open bracket on top of the stack, and an open bracket left at the end of the string
  each raise a \<^verbatim>\<open>ParityError\<close>, and the message is said to cite a column counted from 1 in
  every case. On \<^verbatim>\<open>(x))\<close> the message cites column 4 and on \<^verbatim>\<open>sin(x\<close> it cites column 1, where
  the token in front of the bracket starts; on \<^verbatim>\<open>(x]\<close> the message is \<^verbatim>\<open>Parity error\<close> and
  cites nothing.
\<close>

theorem parity_error_without_column:
  "InnerTokenizer_tokenize deps0 ''(x))''
     = Inl (ParityError ''Missing open bracket for bracket at: 4'')
   \<and> InnerTokenizer_tokenize deps0 ''sin(x''
     = Inl (ParityError ''Missing closed bracket for bracket at 1'')
   \<and> InnerTokenizer_tokenize deps0 ''(x]'' = Inl (ParityError ''Parity error'')"
  by code_simp

section \<open>Properties of the preparation\<close>

subsection \<open>The implied multiplication is the automaton\<close>

lemma letter_classes: "is_letter c \<Longrightarrow> is_word c \<and> \<not> is_digit c \<and> \<not> is_sign c"
  unfolding is_letter_def is_word_def is_digit_def is_sign_def by auto

lemma digit_classes: "is_digit c \<Longrightarrow> \<not> is_word c \<and> \<not> is_letter c \<and> \<not> is_sign c"
  unfolding is_letter_def is_word_def is_digit_def is_sign_def by auto

lemma sign_classes: "is_sign c \<Longrightarrow> \<not> is_word c \<and> \<not> is_letter c \<and> \<not> is_digit c"
  unfolding is_letter_def is_word_def is_digit_def is_sign_def by auto

lemma star_classes [simp]:
  "is_sign (CHR ''*'')" "\<not> is_word (CHR ''*'')" "\<not> is_letter (CHR ''*'')" "\<not> is_digit (CHR ''*'')"
  unfolding is_letter_def is_word_def is_digit_def is_sign_def by auto

lemma imp_append: "imp q (u @ v) = imp q u @ imp (run q u) v"
  by (induction u arbitrary: q) auto

lemma imp_ok_append: "imp_ok q (u @ v) \<longleftrightarrow> imp_ok q u \<and> imp_ok (run q u) v"
  by (induction u arbitrary: q) auto

lemma run_append: "run q (u @ v) = run (run q u) v"
  by (induction u arbitrary: q) auto

lemma imp_signs:
  "\<forall>x\<in>set u. is_sign x \<Longrightarrow> imp q u = u \<and> run q u = (if u = [] then q else Q0)"
proof (induction u arbitrary: q)
  case Nil
  then show ?case by simp
next
  case (Cons x u)
  then have x: "is_sign x" by simp
  then have "nxt q x = Q0" "\<not> is_word x"
    using sign_classes[of x] by (simp_all add: nxt_def)
  with Cons show ?case by simp
qed

lemma imp_digits:
  "\<forall>x\<in>set u. is_digit x \<Longrightarrow>
     imp q u = u \<and> run q u = (if u = [] then q else if q = QL \<or> q = QDok then QDok else QDstar)"
proof (induction u arbitrary: q)
  case Nil
  then show ?case by simp
next
  case (Cons x u)
  then have x: "is_digit x" by simp
  then have w: "\<not> is_word x" and l: "\<not> is_letter x"
    using digit_classes[of x] by simp_all
  define q' where "q' = nxt q x"
  have q': "q' = (if q = QL \<or> q = QDok then QDok else QDstar)"
    using x l by (simp add: q'_def nxt_def)
  from Cons have ih: "imp q' u = u"
    "run q' u = (if u = [] then q' else if q' = QL \<or> q' = QDok then QDok else QDstar)"
    by simp_all
  have "imp q (x # u) = x # u"
    using w ih(1) by (simp add: q'_def)
  moreover have "run q (x # u) = (if q = QL \<or> q = QDok then QDok else QDstar)"
    using ih(2) q' by (cases "q = QL \<or> q = QDok") (auto simp: q'_def[symmetric])
  ultimately show ?case by simp
qed

lemma nxt_word: "is_word x \<Longrightarrow> nxt q x = st_of x"
  using digit_classes[of x] by (auto simp: nxt_def st_of_def)

lemma st_of_not_star [simp]: "st_of x \<noteq> QDstar" "QDstar \<noteq> st_of x"
  by (simp_all add: st_of_def)

lemma imp_words:
  "\<forall>x\<in>set u. is_word x \<Longrightarrow> q \<noteq> QDstar \<Longrightarrow>
     imp q u = u \<and> run q u = (if u = [] then q else st_of (last u))"
proof (induction u arbitrary: q)
  case Nil
  then show ?case by simp
next
  case (Cons x u)
  then have x: "is_word x" by simp
  from Cons have "imp (st_of x) u = u" "run (st_of x) u = (if u = [] then st_of x else st_of (last u))"
    by simp_all
  with x Cons.prems(2) show ?case by (simp add: nxt_word)
qed

lemma imp_words_star:
  assumes "\<forall>x\<in>set u. is_word x" and "u \<noteq> []"
  shows "imp QDstar u = CHR ''*'' # u \<and> run QDstar u = st_of (last u)"
proof -
  from assms obtain x u' where u: "u = x # u'" by (cases u) auto
  with assms have x: "is_word x" and u': "\<forall>x\<in>set u'. is_word x" by simp_all
  have "imp (st_of x) u' = u' \<and> run (st_of x) u' = (if u' = [] then st_of x else st_of (last u'))"
    using u' by (intro imp_words) simp_all
  with x show ?thesis by (simp add: u nxt_word)
qed


lemma match_implied_parts:
  assumes "match_implied s = Some (g1, g2, rest)"
  obtains ops ds ls ops2 where
    "s = ops @ ds @ ls @ ops2 @ rest" "g1 = ops @ ds" "g2 = ls @ ops2" "ds \<noteq> []" "ls \<noteq> []"
    "\<forall>x\<in>set ops. is_sign x" "\<forall>x\<in>set ds. is_digit x" "\<forall>x\<in>set ls. is_word x"
    "\<forall>x\<in>set ops2. is_sign x"
proof -
  define r1 where "r1 = dropWhile is_sign s"
  define r2 where "r2 = dropWhile is_digit r1"
  define r3 where "r3 = dropWhile is_word r2"
  from assms have g: "g1 = takeWhile is_sign s @ takeWhile is_digit r1"
    "g2 = takeWhile is_word r2 @ takeWhile is_sign r3" "rest = dropWhile is_sign r3"
    "takeWhile is_digit r1 \<noteq> []" "takeWhile is_word r2 \<noteq> []"
    unfolding match_implied_def Let_def r1_def r2_def r3_def
    by (auto split: if_splits)
  have "s = g1 @ g2 @ rest"
    using match_implied_splits[OF assms] by simp
  then have "s = takeWhile is_sign s @ takeWhile is_digit r1 @ takeWhile is_word r2
                 @ takeWhile is_sign r3 @ rest"
    by (simp add: g(1,2))
  then show ?thesis
    using g by (intro that[of "takeWhile is_sign s" "takeWhile is_digit r1" "takeWhile is_word r2"
          "takeWhile is_sign r3"]) (auto dest: set_takeWhileD)
qed

lemma imp_match:
  assumes "match_implied s = Some (g1, g2, rest)"
  shows "imp q s = g1 @ (if \<not> is_sign (hd s) \<and> (q = QL \<or> q = QDok) then [] else ''*'') @ g2
                   @ imp (st_of (last g2)) rest"
proof -
  from assms obtain ops ds ls ops2 where
    s: "s = ops @ ds @ ls @ ops2 @ rest" and g1: "g1 = ops @ ds" and g2: "g2 = ls @ ops2"
    and ne: "ds \<noteq> []" "ls \<noteq> []"
    and ops: "\<forall>x\<in>set ops. is_sign x" and ds: "\<forall>x\<in>set ds. is_digit x"
    and ls: "\<forall>x\<in>set ls. is_word x" and ops2: "\<forall>x\<in>set ops2. is_sign x"
    by (rule match_implied_parts)
  define q1 where "q1 = run q ops"
  define q2 where "q2 = run q1 ds"
  define q3 where "q3 = run q2 ls"
  define q4 where "q4 = run q3 ops2"
  have split: "imp q s = imp q ops @ imp q1 ds @ imp q2 ls @ imp q3 ops2 @ imp q4 rest"
    unfolding s q1_def q2_def q3_def q4_def by (simp add: imp_append run_append)
  have i1: "imp q ops = ops" and q1: "q1 = (if ops = [] then q else Q0)"
    using imp_signs[OF ops, of q] by (simp_all add: q1_def)
  have i2: "imp q1 ds = ds" and q2: "q2 = (if q1 = QL \<or> q1 = QDok then QDok else QDstar)"
    using imp_digits[OF ds, of q1] ne(1) by (simp_all add: q2_def)
  have hd_s: "is_sign (hd s) \<longleftrightarrow> ops \<noteq> []"
  proof (cases ops)
    case Nil
    with ne(1) have "hd s = hd ds" by (simp add: s)
    moreover have "is_digit (hd ds)" using ds ne(1) by (cases ds) auto
    ultimately show ?thesis using Nil digit_classes by simp
  next
    case (Cons x xs)
    with ops show ?thesis by (simp add: s)
  qed
  have i3: "imp q2 ls = (if q2 = QDstar then CHR ''*'' # ls else ls)" and q3: "q3 = st_of (last ls)"
  proof -
    show "imp q2 ls = (if q2 = QDstar then CHR ''*'' # ls else ls)"
      using imp_words_star[OF ls ne(2)] imp_words[OF ls, of q2] by auto
    show "q3 = st_of (last ls)"
      using imp_words_star[OF ls ne(2)] imp_words[OF ls, of q2] ne(2)
      by (cases "q2 = QDstar") (auto simp: q3_def)
  qed
  have i4: "imp q3 ops2 = ops2" and q4: "q4 = (if ops2 = [] then q3 else Q0)"
    using imp_signs[OF ops2, of q3] by (simp_all add: q4_def)
  have last: "q4 = st_of (last g2)"
  proof (cases "ops2 = []")
    case True
    then show ?thesis by (simp add: q4 q3 g2)
  next
    case False
    then have "is_sign (last ops2)" using ops2 by simp
    then have "st_of (last ops2) = Q0"
      using sign_classes by (simp add: st_of_def)
    with False show ?thesis by (simp add: q4 g2)
  qed
  have star: "q2 = QDstar \<longleftrightarrow> \<not> (\<not> is_sign (hd s) \<and> (q = QL \<or> q = QDok))"
    by (auto simp: q2 q1 hd_s)
  show ?thesis
    unfolding split i1 i2 i3 i4 last using star by (simp add: g1 g2)
qed


lemma dead_iff: "dead s \<longleftrightarrow> takeWhile is_word (dropWhile is_digit s) = []"
proof (cases "dropWhile is_digit s")
  case Nil
  show ?thesis unfolding dead_def Nil by simp
next
  case (Cons x xs)
  show ?thesis unfolding dead_def Cons by simp
qed

lemma match_implied_digit:
  assumes "is_digit c"
  shows "match_implied (c # cs) = None \<longleftrightarrow> dead cs"
proof -
  have ns: "\<not> is_sign c" using assms(1) digit_classes by simp
  show ?thesis
    unfolding dead_iff match_implied_def Let_def using assms ns by simp
qed

lemma dead_Cons: "is_digit c \<Longrightarrow> dead (c # cs) \<longleftrightarrow> dead cs"
  by (simp add: dead_iff)

lemma dead_not_word: "dead (c # cs) \<Longrightarrow> \<not> is_word c"
  using digit_classes[of c] by (cases "is_digit c") (auto simp: dead_iff)

lemma match_implied_first:
  assumes "match_implied (c # cs) = Some (g1, g2, rest)"
  shows "is_sign c \<or> is_digit c"
proof -
  from assms have "takeWhile is_digit (dropWhile is_sign (c # cs)) \<noteq> []"
    unfolding match_implied_def Let_def by (simp split: if_splits)
  then show ?thesis by (cases "is_sign c") (auto split: if_splits)
qed

lemma match_implied_last:
  assumes "match_implied s = Some (g1, g2, rest)"
  shows "\<not> is_digit (last g2)"
proof -
  from assms obtain ops ds ls ops2 where
    g2: "g2 = ls @ ops2" and ne: "ls \<noteq> []"
    and ls: "\<forall>x\<in>set ls. is_word x" and ops2: "\<forall>x\<in>set ops2. is_sign x"
    by (rule match_implied_parts)
  have "is_word (last g2) \<or> is_sign (last g2)"
    using ne ls ops2 by (cases "ops2 = []") (simp_all add: g2)
  then show ?thesis using digit_classes by blast
qed


lemma implied_pass_imp: "compat prev q s \<Longrightarrow> implied_pass prev s = imp q s"
proof (induction prev s arbitrary: q rule: implied_pass.induct)
  case (1 prev)
  then show ?case by (simp add: implied_pass.simps)
next
  case (2 prev c cs)
  show ?case
  proof (cases "match_implied (c # cs)")
    case None
    have out: "implied_pass prev (c # cs) = c # implied_pass (Some c) cs"
      using None by (simp add: implied_pass.simps)
    have no_star: "\<not> (q = QDstar \<and> is_word c)"
    proof
      assume a: "q = QDstar \<and> is_word c"
      with "2.prems" obtain b where "prev = Some b" "is_digit b" "dead (c # cs)"
        by (auto simp: compat_def split: option.splits if_splits)
      then show False using a dead_not_word by blast
    qed
    have "compat (Some c) (nxt q c) cs"
    proof (cases "is_digit c")
      case True
      then have "dead cs" using None match_implied_digit by blast
      moreover have "nxt q c = QDok \<or> nxt q c = QDstar"
        using True digit_classes[of c] by (simp add: nxt_def)
      ultimately show ?thesis using True by (simp add: compat_def)
    next
      case False
      then have "nxt q c = st_of c" by (simp add: nxt_def st_of_def)
      with False show ?thesis by (simp add: compat_def)
    qed
    then have "implied_pass (Some c) cs = imp (nxt q c) cs"
      using "2.IH"(1)[OF None] by simp
    with out no_star show ?thesis by simp
  next
    case (Some m)
    then obtain g1 g2 rest where m: "match_implied (c # cs) = Some (g1, g2, rest)"
      by (cases m) auto
    define d where "d = (if (case (if \<not> is_sign c then prev else None) of
                               Some b \<Rightarrow> is_letter b | None \<Rightarrow> False) then [] else ''*'')"
    have out: "implied_pass prev (c # cs) = g1 @ d @ g2 @ implied_pass (Some (last g2)) rest"
      using m by (simp add: implied_pass.simps Let_def d_def)
    have "compat (Some (last g2)) (st_of (last g2)) rest"
      using match_implied_last[OF m] by (simp add: compat_def)
    then have ih: "implied_pass (Some (last g2)) rest = imp (st_of (last g2)) rest"
      using "2.IH"(2)[OF m refl refl refl refl refl] by simp
    have d: "d = (if \<not> is_sign (hd (c # cs)) \<and> (q = QL \<or> q = QDok) then [] else ''*'')"
    proof (cases "is_sign c")
      case True
      then show ?thesis by (simp add: d_def)
    next
      case False
      then have dig: "is_digit c" using match_implied_first[OF m] by simp
      then have live: "\<not> dead (c # cs)"
        using m match_implied_digit[OF dig, of cs] dead_Cons[OF dig, of cs] by simp
      show ?thesis
      proof (cases prev)
        case None
        with "2.prems" have "q = Q0" by (simp add: compat_def)
        with None False show ?thesis by (simp add: d_def)
      next
        case (Some b)
        with "2.prems" live have nb: "\<not> is_digit b" and q: "q = st_of b"
          by (auto simp: compat_def split: if_splits)
        show ?thesis using Some False q by (simp add: d_def st_of_def)
      qed
    qed
    show ?thesis
      unfolding out ih d using imp_match[OF m, of q] by simp
  qed
qed

lemma implied_pass_None: "implied_pass None s = imp Q0 s"
  by (rule implied_pass_imp) (simp add: compat_def)

lemma imp_ok_id: "imp_ok q s \<Longrightarrow> imp q s = s"
  by (induction s arbitrary: q) auto

lemma imp_ok_imp: "imp_ok q (imp q s)"
proof (induction s arbitrary: q)
  case Nil
  then show ?case by simp
next
  case (Cons c s)
  show ?case
  proof (cases "q = QDstar \<and> is_word c")
    case True
    then have "nxt Q0 c = nxt q c" by (simp add: nxt_word)
    moreover have "nxt q (CHR ''*'') = Q0" by (simp add: nxt_def)
    ultimately show ?thesis using True Cons[of "nxt q c"] by simp
  next
    case False
    then show ?thesis using Cons[of "nxt q c"] by auto
  qed
qed

subsection \<open>What the passes keep\<close>

lemma stars_refl: "stars s s"
  by (induction s) (auto intro: stars.intros)

lemma stars_append: "stars s t \<Longrightarrow> stars s' t' \<Longrightarrow> stars (s @ s') (t @ t')"
  by (induction rule: stars.induct) (auto intro: stars.intros)

lemma pstars_stars: "pstars s t \<Longrightarrow> stars s t"
  by (induction rule: pstars.induct) (auto intro: stars.intros)

lemma stars_imp: "stars s (imp q s)"
  by (induction s arbitrary: q) (auto intro: stars.intros)

lemma stars_join_star: "stars a (join_star a)"
  by (induction a rule: join_star.induct) (auto intro: stars.intros)

lemma stars_split_run: "stars a (split_run T S a)"
  by (simp add: split_run_def stars_refl stars_join_star)

lemma stars_split_pass: "stars s (split_pass T S s)"
proof (induction T S s rule: split_pass.induct)
  case (1 T S)
  then show ?case by (simp add: split_pass.simps stars_Nil)
next
  case (2 T S c cs)
  show ?case
  proof (cases "is_ident c")
    case True
    let ?a = "takeWhile is_ident (c # cs)"
    let ?r = "dropWhile is_ident (c # cs)"
    have "stars (?a @ ?r) (split_run T S ?a @ split_pass T S ?r)"
      using "2.IH"(1)[OF True] by (intro stars_append stars_split_run)
    moreover have "split_pass T S (c # cs) = split_run T S ?a @ split_pass T S ?r"
      using True by (subst split_pass.simps) simp
    ultimately show ?thesis by (simp del: takeWhile.simps dropWhile.simps)
  next
    case False
    then show ?thesis
      using "2.IH"(2) by (simp add: split_pass.simps stars_Cons)
  qed
qed

lemma stars_set: "stars s t \<Longrightarrow> set t \<subseteq> insert (CHR ''*'') (set s)"
  by (induction rule: stars.induct) auto

lemma stars_contains_e: "stars s t \<Longrightarrow> \<not> contains_e s \<Longrightarrow> \<not> contains_e t"
  using stars_set[of s t] by (auto simp: contains_e_def list_ex_iff)

lemma stars_length: "stars s t \<Longrightarrow> length s \<le> length t"
  by (induction rule: stars.induct) auto

lemma is_space_simps [simp]: "is_space (CHR '' '')" "\<not> is_space (CHR ''*'')"
  by (simp_all add: is_space_def)

lemma stars_hd_space: "stars s t \<Longrightarrow> t \<noteq> [] \<Longrightarrow> is_space (hd t) \<Longrightarrow> s \<noteq> [] \<and> is_space (hd s)"
  by (induction rule: stars.induct) auto

lemma stars_space_ok: "stars s t \<Longrightarrow> space_ok s \<Longrightarrow> space_ok t"
proof (induction rule: stars.induct)
  case stars_Nil
  then show ?case by simp
next
  case (stars_Cons s t c)
  then have "space_ok t" by simp
  moreover have "t = [] \<or> \<not> is_space (hd t)" if "is_space c"
    using that stars_Cons.prems stars_hd_space[OF stars_Cons.hyps] by auto
  ultimately show ?case using stars_Cons.prems by auto
next
  case (stars_star s t)
  then show ?case by simp
qed

lemma collapse_spaces_hd:
  "s = [] \<or> \<not> is_space (hd s) \<Longrightarrow> collapse_spaces s = [] \<or> \<not> is_space (hd (collapse_spaces s))"
  by (cases s) auto

lemma dropWhile_hd: "dropWhile P s = [] \<or> \<not> P (hd (dropWhile P s))"
  using hd_dropWhile[of P s] by blast

lemma space_ok_collapse: "space_ok (collapse_spaces s)"
proof (induction s rule: collapse_spaces.induct)
  case 1
  then show ?case by simp
next
  case (2 c cs)
  show ?case
  proof (cases "is_space c")
    case True
    then show ?thesis
      using "2.IH"(1) collapse_spaces_hd[OF dropWhile_hd[of is_space cs]] by simp
  next
    case False
    then show ?thesis using "2.IH"(2) by simp
  qed
qed

lemma space_ok_id: "space_ok s \<Longrightarrow> collapse_spaces s = s"
proof (induction s rule: collapse_spaces.induct)
  case 1
  then show ?case by simp
next
  case (2 c cs)
  show ?case
  proof (cases "is_space c")
    case True
    with "2.prems" have c: "c = CHR '' ''" and cs: "cs = [] \<or> \<not> is_space (hd cs)"
      and ok: "space_ok cs" by simp_all
    from cs have d: "dropWhile is_space cs = cs" by (cases cs) auto
    show ?thesis using True c ok "2.IH"(1) by (simp add: d)
  next
    case False
    then show ?thesis using "2.IH"(2) "2.prems" by simp
  qed
qed

lemma brackets_ok_tl: "brackets_ok (p # s) \<Longrightarrow> brackets_ok s"
  by (cases s) auto

lemma brackets_ok_Cons: "p \<noteq> CHR '')'' \<Longrightarrow> brackets_ok (p # s) \<longleftrightarrow> brackets_ok s"
  by (cases s) auto

lemma brackets_ok_id: "brackets_ok s \<Longrightarrow> brackets_pass s = s"
  by (induction s rule: brackets_pass.induct) auto

lemma brackets_pass_hd: "brackets_pass (c # cs) = c # tl (brackets_pass (c # cs))"
  by (cases cs) auto

lemma brackets_ok_pass: "brackets_ok (brackets_pass s)"
proof (induction s rule: brackets_pass.induct)
  case (1 c d cs)
  show ?case
  proof (cases "c = CHR '')'' \<and> d = CHR ''(''")
    case True
    then have "brackets_ok (brackets_pass cs)" using 1(1) by simp
    then have "brackets_ok (CHR ''('' # brackets_pass cs)"
      by (simp add: brackets_ok_Cons)
    with True show ?thesis by simp
  next
    case False
    then have ih: "brackets_ok (brackets_pass (d # cs))" using 1(2) by simp
    obtain r where r: "brackets_pass (d # cs) = d # r"
      using brackets_pass_hd[of d cs] by blast
    show ?thesis using False ih by (auto simp: r)
  qed
qed simp_all

lemma pstars_brackets_ok: "pstars s t \<Longrightarrow> brackets_ok (p # s) \<Longrightarrow> brackets_ok (p # t)"
proof (induction arbitrary: p rule: pstars.induct)
  case pstars_Nil
  then show ?case by simp
next
  case (pstars_Cons s t c)
  then show ?case by simp
next
  case (pstars_open s t)
  then have "brackets_ok (CHR ''('' # t)"
    using brackets_ok_tl by blast
  then show ?case by simp
next
  case (pstars_close s t)
  then have "brackets_ok s" using brackets_ok_tl by blast
  then have "brackets_ok (CHR ''*'' # s)" by (simp add: brackets_ok_Cons)
  then have "brackets_ok (CHR ''*'' # t)" by (rule pstars_close.IH)
  with pstars_close.prems show ?case by simp
qed

lemma pstars_brackets_ok': "pstars s t \<Longrightarrow> brackets_ok s \<Longrightarrow> brackets_ok t"
  using pstars_brackets_ok[of s t "CHR ''*''"] by (simp add: brackets_ok_Cons)

lemma brackets_pass_pstars: "pstars s (brackets_pass s)"
  by (induction s rule: brackets_pass.induct) (auto intro: pstars.intros pstars_refl)

lemma split_ok_id: "split_ok T S s \<Longrightarrow> split_pass T S s = s"
proof (induction T S s rule: split_pass.induct)
  case (1 T S)
  then show ?case by (simp add: split_pass.simps)
next
  case (2 T S c cs)
  show ?case
  proof (cases "is_ident c")
    case True
    let ?a = "takeWhile is_ident (c # cs)"
    let ?r = "dropWhile is_ident (c # cs)"
    from "2.prems" True have a: "split_run T S ?a = ?a" and r: "split_ok T S ?r"
      by (simp_all add: split_ok.simps(2)[of T S c cs])
    have "split_pass T S (c # cs) = split_run T S ?a @ split_pass T S ?r"
      using True by (subst split_pass.simps) simp
    also have "\<dots> = ?a @ ?r"
      using a "2.IH"(1)[OF True r] by simp
    also have "\<dots> = c # cs" by (rule takeWhile_dropWhile_id)
    finally show ?thesis .
  next
    case False
    with "2.prems" have "split_ok T S cs" by (simp add: split_ok.simps)
    with False "2.IH"(2) show ?thesis by (simp add: split_pass.simps)
  qed
qed

lemma split_ok_not_ident: "\<not> is_ident c \<Longrightarrow> split_ok T S (c # cs) \<longleftrightarrow> split_ok T S cs"
  by (simp add: split_ok.simps)

lemma split_ok_run:
  assumes "\<forall>x\<in>set a. is_ident x" and "a \<noteq> []" and "X = [] \<or> \<not> is_ident (hd X)"
  shows "split_ok T S (a @ X) \<longleftrightarrow> split_run T S a = a \<and> split_ok T S X"
proof -
  from assms(2) obtain c a' where a: "a = c # a'" by (cases a) auto
  have tX: "takeWhile is_ident X = []" and dX: "dropWhile is_ident X = X"
    using assms(3) by (cases X; simp)+
  have t: "takeWhile is_ident (a @ X) = a"
    using assms(1) tX by (simp add: takeWhile_append2)
  have d: "dropWhile is_ident (a @ X) = X"
    using assms(1) dX by (simp add: dropWhile_append2)
  have c: "is_ident c" using assms(1) a by simp
  have "split_ok T S (c # a' @ X) \<longleftrightarrow>
          split_run T S (takeWhile is_ident (c # a' @ X)) = takeWhile is_ident (c # a' @ X)
          \<and> split_ok T S (dropWhile is_ident (c # a' @ X))"
    using c by (subst split_ok.simps) simp
  then show ?thesis
    using t d unfolding a by (simp del: takeWhile.simps dropWhile.simps)
qed

lemma split_run_cases: "split_run T S a = a \<or> split_run T S a = join_star a"
  by (simp add: split_run_def)

lemma split_run_single: "split_run T S [c] = [c]"
  by (simp add: split_run_def)

lemma split_ok_join_star:
  assumes "\<forall>x\<in>set a. is_ident x" and "X = [] \<or> \<not> is_ident (hd X)" and "split_ok T S X"
  shows "split_ok T S (join_star a @ X)"
  using assms(1)
proof (induction a rule: join_star.induct)
  case 1
  then show ?case using assms(3) by simp
next
  case (2 c)
  then show ?case
    using split_ok_run[of "[c]" X T S] assms(2,3) by (simp add: split_run_single)
next
  case (3 c d cs)
  then have ih: "split_ok T S (join_star (d # cs) @ X)" by simp
  then have "split_ok T S (CHR ''*'' # join_star (d # cs) @ X)"
    by (simp add: split_ok_not_ident)
  then show ?case
    using split_ok_run[of "[c]" "CHR ''*'' # join_star (d # cs) @ X" T S] 3(2)
    by (simp add: split_run_single)
qed

lemma split_pass_hd:
  "r = [] \<or> \<not> is_ident (hd r) \<Longrightarrow> split_pass T S r = [] \<or> \<not> is_ident (hd (split_pass T S r))"
  by (cases r) (auto simp: split_pass.simps)

lemma split_ok_pass: "split_ok T S (split_pass T S s)"
proof (induction T S s rule: split_pass.induct)
  case (1 T S)
  then show ?case by (simp add: split_pass.simps split_ok.simps)
next
  case (2 T S c cs)
  show ?case
  proof (cases "is_ident c")
    case True
    let ?a = "takeWhile is_ident (c # cs)"
    let ?r = "dropWhile is_ident (c # cs)"
    let ?X = "split_pass T S ?r"
    have out: "split_pass T S (c # cs) = split_run T S ?a @ ?X"
      using True by (subst split_pass.simps) simp
    have a: "\<forall>x\<in>set ?a. is_ident x" "?a \<noteq> []"
      using True by (auto dest: set_takeWhileD)
    have X: "?X = [] \<or> \<not> is_ident (hd ?X)"
      by (rule split_pass_hd) (rule dropWhile_hd)
    have ih: "split_ok T S ?X" using "2.IH"(1)[OF True] .
    consider (same) "split_run T S ?a = ?a" | (join) "split_run T S ?a = join_star ?a"
      using split_run_cases by blast
    then show ?thesis
    proof cases
      case same
      then show ?thesis
        unfolding out using split_ok_run[OF a X, of T S] ih by simp
    next
      case join
      show ?thesis
        unfolding out join using a(1) X ih by (rule split_ok_join_star)
    qed
  next
    case False
    then show ?thesis
      using "2.IH"(2) by (simp add: split_pass.simps split_ok_not_ident)
  qed
qed

lemma pstars_ConsE:
  assumes "pstars (c # cs) t"
  shows "\<exists>t'. pstars cs t' \<and> (t = c # t' \<or> (c = CHR ''('' \<and> t = CHR ''*'' # CHR ''('' # t')
                          \<or> (c = CHR '')'' \<and> t = CHR '')'' # CHR ''*'' # t'))"
  using assms by (auto elim: pstars.cases)

lemma pstars_ident_run:
  "pstars s t \<Longrightarrow>
     takeWhile is_ident t = takeWhile is_ident s
     \<and> pstars (dropWhile is_ident s) (dropWhile is_ident t)"
  by (induction rule: pstars.induct) (auto intro: pstars.intros)

lemma pstars_split_ok: "pstars s t \<Longrightarrow> split_ok T S s \<Longrightarrow> split_ok T S t"
proof (induction T S s arbitrary: t rule: split_ok.induct)
  case (1 T S)
  then show ?case by (auto elim: pstars.cases)
next
  case (2 T S c cs)
  show ?case
  proof (cases "is_ident c")
    case True
    let ?a = "takeWhile is_ident (c # cs)"
    let ?r = "dropWhile is_ident (c # cs)"
    from "2.prems"(2) True have a: "split_run T S ?a = ?a" and r: "split_ok T S ?r"
      by (simp_all add: split_ok.simps(2)[of T S c cs])
    have run: "takeWhile is_ident t = ?a" and rest: "pstars ?r (dropWhile is_ident t)"
      using pstars_ident_run[OF "2.prems"(1)] by simp_all
    have ok: "split_ok T S (dropWhile is_ident t)"
      using "2.IH"(1)[OF True rest r] .
    have a_ne: "?a \<noteq> []" "\<forall>x\<in>set ?a. is_ident x"
      using True by (auto dest: set_takeWhileD)
    have t: "t = ?a @ dropWhile is_ident t"
      using takeWhile_dropWhile_id[of is_ident t] run by simp
    have "split_ok T S (?a @ dropWhile is_ident t)"
      using split_ok_run[OF a_ne(2,1) dropWhile_hd[of is_ident t], of T S] a ok by simp
    then show ?thesis using t by simp
  next
    case False
    with "2.prems"(2) have cs: "split_ok T S cs" by (simp add: split_ok.simps)
    from "2.prems"(1) obtain t' where t': "pstars cs t'"
      and t: "t = c # t' \<or> t = CHR ''*'' # CHR ''('' # t' \<or> t = CHR '')'' # CHR ''*'' # t'"
      using pstars_ConsE by blast
    have "split_ok T S t'"
      using "2.IH"(2)[OF False t' cs] .
    then show ?thesis
      using t False by (auto simp: split_ok_not_ident)
  qed
qed

lemma not_ident_classes: "\<not> is_ident c \<Longrightarrow> \<not> is_word c \<and> \<not> is_letter c \<and> \<not> is_digit c"
  unfolding is_ident_def is_word_def by blast

lemma nxt_not_ident: "\<not> is_ident c \<Longrightarrow> nxt q c = Q0"
  using not_ident_classes[of c] by (simp add: nxt_def)

lemma imp_ok_not_ident: "\<not> is_ident c \<Longrightarrow> imp_ok q (c # cs) \<longleftrightarrow> imp_ok Q0 cs"
  using not_ident_classes[of c] by (simp add: nxt_not_ident)

lemma imp_ok_any_state: "r = [] \<or> \<not> is_ident (hd r) \<Longrightarrow> imp_ok q r \<longleftrightarrow> imp_ok q' r"
  by (cases r) (simp_all add: imp_ok_not_ident del: imp_ok.simps(2))

lemma pstars_imp_ok: "pstars s t \<Longrightarrow> imp_ok q s \<Longrightarrow> imp_ok q t"
proof (induction arbitrary: q rule: pstars.induct)
  case pstars_Nil
  then show ?case by simp
next
  case (pstars_Cons s t c)
  then show ?case by simp
next
  case (pstars_open s t)
  then have "imp_ok Q0 t" by (simp add: imp_ok_not_ident del: imp_ok.simps(2))
  then show ?case by (simp add: imp_ok_not_ident del: imp_ok.simps(2))
next
  case (pstars_close s t)
  then have "imp_ok Q0 t" by (simp add: imp_ok_not_ident del: imp_ok.simps(2))
  then show ?case by (simp add: imp_ok_not_ident del: imp_ok.simps(2))
qed

lemma imp_ok_join_star_Q0: "imp_ok Q0 (join_star u)"
proof (induction u rule: join_star.induct)
  case (3 c d cs)
  then have "imp_ok (nxt Q0 c) (CHR ''*'' # join_star (d # cs))"
    by (simp add: imp_ok_not_ident del: imp_ok.simps(2))
  then show ?case by simp
qed simp_all

lemma imp_ok_join_star: "imp_ok q a \<Longrightarrow> imp_ok q (join_star a)"
proof (cases a rule: join_star.cases)
  case (3 c d cs)
  assume "imp_ok q a"
  then have "\<not> (q = QDstar \<and> is_word c)" using 3 by simp
  moreover have "imp_ok (nxt q c) (CHR ''*'' # join_star (d # cs))"
    using imp_ok_join_star_Q0[of "d # cs"] by (simp add: imp_ok_not_ident del: imp_ok.simps(2))
  ultimately show ?thesis using 3 by simp
qed simp_all

lemma imp_ok_split_pass: "imp_ok q s \<Longrightarrow> imp_ok q (split_pass T S s)"
proof (induction T S s arbitrary: q rule: split_pass.induct)
  case (1 T S)
  then show ?case by (simp add: split_pass.simps)
next
  case (2 T S c cs)
  show ?case
  proof (cases "is_ident c")
    case True
    let ?a = "takeWhile is_ident (c # cs)"
    let ?r = "dropWhile is_ident (c # cs)"
    let ?X = "split_pass T S ?r"
    have out: "split_pass T S (c # cs) = split_run T S ?a @ ?X"
      using True by (subst split_pass.simps) simp
    have "imp_ok q (?a @ ?r)" using "2.prems" by (simp only: takeWhile_dropWhile_id)
    then have a: "imp_ok q ?a" and r: "imp_ok (run q ?a) ?r"
      by (simp_all only: imp_ok_append)
    have "imp_ok (run q ?a) ?X" using "2.IH"(1)[OF True r] .
    moreover have X: "?X = [] \<or> \<not> is_ident (hd ?X)"
      by (rule split_pass_hd) (rule dropWhile_hd)
    ultimately have rest: "imp_ok q' ?X" for q'
      using imp_ok_any_state[OF X] by blast
    have "imp_ok q (split_run T S ?a)"
      using split_run_cases[of T S ?a] a imp_ok_join_star[OF a] by auto
    then show ?thesis
      unfolding out imp_ok_append using rest by simp
  next
    case False
    then show ?thesis
      using "2.IH"(2)[of "nxt q c"] "2.prems" by (simp add: split_pass.simps)
  qed
qed

lemma prepare_loop_fixpoint: "loop_step T (prepare_loop T s) = prepare_loop T s"
proof (induction T s rule: prepare_loop.induct)
  case (1 T e)
  show ?case
  proof (cases "e = loop_step T e")
    case True
    then have "prepare_loop T e = e"
      by (subst prepare_loop.simps) (simp add: Let_def)
    with True show ?thesis by simp
  next
    case False
    then have "prepare_loop T e = prepare_loop T (loop_step T e)"
      by (subst prepare_loop.simps) (simp add: Let_def)
    with False 1 show ?thesis by simp
  qed
qed

lemma prepare_loop_id: "loop_step T s = s \<Longrightarrow> prepare_loop T s = s"
  by (subst prepare_loop.simps) (simp add: Let_def)

lemma prepare_loop_preserves:
  assumes "\<And>s t. pstars s t \<Longrightarrow> Pr s \<Longrightarrow> Pr t" and "Pr s"
  shows "Pr (prepare_loop T s)"
  using assms(2)
proof (induction T s rule: prepare_loop.induct)
  case (1 T e)
  show ?case
  proof (cases "e = loop_step T e")
    case True
    then have "prepare_loop T e = e"
      by (subst prepare_loop.simps) (simp add: Let_def)
    with 1 show ?thesis by simp
  next
    case False
    then have eq: "prepare_loop T e = prepare_loop T (loop_step T e)"
      by (subst prepare_loop.simps) (simp add: Let_def)
    have "Pr (loop_step T e)"
      using assms(1)[OF loop_step_pstars "1.prems"] .
    then show ?thesis
      unfolding eq using "1.IH"[OF refl refl] False by simp
  qed
qed

lemma prepare_loop_iterations:
  "\<exists>n \<le> sites (CHR ''*'' # s). prepare_loop T s = (loop_step T ^^ n) s"
proof (induction T s rule: prepare_loop.induct)
  case (1 T e)
  show ?case
  proof (cases "e = loop_step T e")
    case True
    then have "prepare_loop T e = (loop_step T ^^ 0) e"
      by (subst prepare_loop.simps) (simp add: Let_def)
    then show ?thesis by blast
  next
    case False
    then have eq: "prepare_loop T e = prepare_loop T (loop_step T e)"
      by (subst prepare_loop.simps) (simp add: Let_def)
    from False obtain n where n: "n \<le> sites (CHR ''*'' # loop_step T e)"
      and it: "prepare_loop T (loop_step T e) = (loop_step T ^^ n) (loop_step T e)"
      using "1.IH"[OF refl refl] by auto
    have "length e < length (loop_step T e)"
      using False loop_step_longer[of T e] by auto
    then have "sites (CHR ''*'' # loop_step T e) < sites (CHR ''*'' # e)"
      using loop_step_sites[of "CHR ''*''" T e] by simp
    with n have "Suc n \<le> sites (CHR ''*'' # e)" by simp
    moreover have "prepare_loop T e = (loop_step T ^^ Suc n) e"
      unfolding eq it by (simp add: funpow_swap1)
    ultimately show ?thesis by blast
  qed
qed

lemma pstars_count:
  "pstars s t \<Longrightarrow> count_list t (CHR ''*'') + length s = count_list s (CHR ''*'') + length t"
  by (induction rule: pstars.induct) auto

lemma loop_step_progress:
  "loop_step T s = s \<or> count_list s (CHR ''*'') < count_list (loop_step T s) (CHR ''*'')"
  using pstars_count[OF loop_step_pstars[of s T]] loop_step_longer[of T s] by fastforce

subsection \<open>The prepared string is prepared\<close>

lemma scientific_pass_none: "\<not> has_scientific x \<Longrightarrow> scientific_pass f x = x"
  by (induction x) (auto simp: scientific_pass.simps split: option.splits)

lemma scientific_step_none: "\<not> has_scientific x \<Longrightarrow> scientific_step S x = x"
  by (simp add: scientific_step_def scientific_pass_none)

lemma match_scientific_e:
  assumes "match_scientific s = Some (m, rest)"
  shows "contains_e s"
proof -
  define r0 where "r0 = dropWhile (\<lambda>c. c = CHR ''-'') s"
  define r1 where "r1 = dropWhile is_digit r0"
  define r2 where "r2 = dropWhile (\<lambda>c. c = CHR ''.'') r1"
  define r3 where "r3 = dropWhile is_digit r2"
  from assms obtain x r4 where r3: "r3 = x # r4" and x: "x = CHR ''e'' \<or> x = CHR ''E''"
    unfolding match_scientific_def Let_def r0_def r1_def r2_def r3_def
    by (auto split: if_splits list.splits)
  have "x \<in> set r3" using r3 by simp
  then have "x \<in> set s"
    unfolding r3_def r2_def r1_def r0_def by (auto dest!: set_dropWhileD)
  then show ?thesis using x by (auto simp: contains_e_def list_ex_iff)
qed

lemma has_scientific_contains_e: "has_scientific x \<Longrightarrow> contains_e x"
proof (induction x)
  case Nil
  then show ?case by simp
next
  case (Cons c cs)
  then show ?case
    using match_scientific_e[of "c # cs"] by (auto simp: contains_e_def)
qed

lemma zero_classes: "is_ident (CHR ''0'')" "\<not> is_space (CHR ''0'')" "is_digit (CHR ''0'')"
  by (simp_all add: is_ident_def is_digit_def is_space_def)

text \<open>What every prepared text has, whatever the first two steps did.\<close>

lemma prepareExpression_prepared:
  assumes pp: "preprocessors S = []"
  shows "imp_ok Q0 (prepareExpression T S e) \<and> split_ok T S (prepareExpression T S e)
         \<and> brackets_ok (prepareExpression T S e) \<and> prepareExpression T S e \<noteq> []
         \<and> loop_step T (prepareExpression T S e) = prepareExpression T S e"
proof -
  define s0 where "s0 = scientific_step S (collapse_spaces e)"
  define s1 where "s1 = imp Q0 s0"
  define s2 where "s2 = split_pass T S s1"
  define s3 where "s3 = brackets_pass s2"
  have out: "prepareExpression T S e = prepare_loop T (if s3 = [] then ''0'' else s3)"
    using pp by (simp add: prepareExpression_def implied_pass_None s0_def s1_def s2_def s3_def)
  show ?thesis
  proof (cases "s3 = []")
    case True
    have "prepare_loop T ''0'' = ''0''"
      by (rule prepare_loop_id) (simp add: loop_step.simps zero_classes)
    with True out have x: "prepareExpression T S e = ''0''" by simp
    have "split_ok T S ''0''"
      using split_ok_run[of "''0''" "[]" T S]
      by (simp add: zero_classes split_run_single split_ok.simps)
    moreover have "loop_step T ''0'' = ''0''"
      by (simp add: loop_step.simps zero_classes)
    ultimately show ?thesis unfolding x by simp
  next
    case False
    define x where "x = prepare_loop T s3"
    have ps23: "pstars s2 s3" unfolding s3_def by (rule brackets_pass_pstars)
    have "imp_ok Q0 s1" unfolding s1_def by (rule imp_ok_imp)
    then have "imp_ok Q0 s2" unfolding s2_def by (rule imp_ok_split_pass)
    then have "imp_ok Q0 s3" using ps23 pstars_imp_ok by blast
    then have 3: "imp_ok Q0 x"
      unfolding x_def using pstars_imp_ok
      by (intro prepare_loop_preserves[where Pr = "imp_ok Q0"])
    have "split_ok T S s2" unfolding s2_def by (rule split_ok_pass)
    then have "split_ok T S s3" using ps23 pstars_split_ok by blast
    then have 4: "split_ok T S x"
      unfolding x_def using pstars_split_ok
      by (intro prepare_loop_preserves[where Pr = "split_ok T S"])
    have "brackets_ok s3" unfolding s3_def by (rule brackets_ok_pass)
    then have 5: "brackets_ok x"
      unfolding x_def using pstars_brackets_ok'
      by (intro prepare_loop_preserves[where Pr = brackets_ok])
    have "s3 \<noteq> []" by (rule False)
    then have 6: "x \<noteq> []"
      unfolding x_def using pstars_length
      by (intro prepare_loop_preserves[where Pr = "\<lambda>s. s \<noteq> []"]) fastforce+
    have 7: "loop_step T x = x"
      unfolding x_def by (rule prepare_loop_fixpoint)
    have "prepareExpression T S e = x"
      using out False by (simp add: x_def)
    then show ?thesis using 3 4 5 6 7 by simp
  qed
qed

lemma prepareExpression_id:
  assumes "preprocessors S = []" and "collapse_spaces x = x" and "scientific_step S x = x"
    and "imp_ok Q0 x" and "split_ok T S x" and "brackets_ok x" and "x \<noteq> []"
    and "loop_step T x = x"
  shows "prepareExpression T S x = x"
proof -
  have "implied_pass None x = x"
    using assms(4) by (simp add: implied_pass_None imp_ok_id)
  moreover have "split_pass T S x = x" using assms(5) by (rule split_ok_id)
  moreover have "brackets_pass x = x" using assms(6) by (rule brackets_ok_id)
  moreover have "prepare_loop T x = x" using assms(8) by (rule prepare_loop_id)
  ultimately show ?thesis
    using assms(1,2,3,7) by (simp add: prepareExpression_def)
qed

lemma prepareExpression_idempotent:
  assumes "preprocessors S = []"
    and "collapse_spaces (prepareExpression T S e) = prepareExpression T S e"
    and "\<not> has_scientific (prepareExpression T S e)"
  shows "prepareExpression T S (prepareExpression T S e) = prepareExpression T S e"
  using prepareExpression_prepared[OF assms(1), of T e] assms(2)
    scientific_step_none[OF assms(3), of S]
  by (intro prepareExpression_id[OF assms(1)]) simp_all

text \<open>An input without the letter \<open>e\<close> is prepared to a text of that kind.\<close>

lemma collapse_spaces_set: "set (collapse_spaces s) \<subseteq> insert (CHR '' '') (set s)"
proof (induction s rule: collapse_spaces.induct)
  case 1
  then show ?case by simp
next
  case (2 c cs)
  show ?case
  proof (cases "is_space c")
    case True
    have "set (dropWhile is_space cs) \<subseteq> set cs"
      by (auto dest: set_dropWhileD)
    with True "2.IH"(1) show ?thesis by auto
  next
    case False
    with "2.IH"(2) show ?thesis by auto
  qed
qed

lemma collapse_spaces_contains_e: "\<not> contains_e s \<Longrightarrow> \<not> contains_e (collapse_spaces s)"
  using collapse_spaces_set[of s] by (auto simp: contains_e_def list_ex_iff)

lemma prepared_without_e:
  assumes pp: "preprocessors S = []" and ne: "\<not> contains_e e"
  shows "collapse_spaces (prepareExpression T S e) = prepareExpression T S e
         \<and> \<not> has_scientific (prepareExpression T S e)"
proof -
  define s0 where "s0 = collapse_spaces e"
  define s1 where "s1 = imp Q0 s0"
  define s2 where "s2 = split_pass T S s1"
  define s3 where "s3 = brackets_pass s2"
  have e0: "\<not> contains_e s0"
    unfolding s0_def using ne by (rule collapse_spaces_contains_e)
  have out: "prepareExpression T S e = prepare_loop T (if s3 = [] then ''0'' else s3)"
    using pp e0
    by (simp add: prepareExpression_def scientific_step_def implied_pass_None s0_def s1_def
          s2_def s3_def)
  show ?thesis
  proof (cases "s3 = []")
    case True
    have "prepare_loop T ''0'' = ''0''"
      by (rule prepare_loop_id) (simp add: loop_step.simps zero_classes)
    with True out have x: "prepareExpression T S e = ''0''" by simp
    have "\<not> contains_e ''0''" by (simp add: contains_e_def)
    then have "\<not> has_scientific ''0''" using has_scientific_contains_e by blast
    moreover have "collapse_spaces ''0'' = ''0''" by (simp add: zero_classes)
    ultimately show ?thesis unfolding x by simp
  next
    case False
    define x where "x = prepare_loop T s3"
    have st01: "stars s0 s1" unfolding s1_def by (rule stars_imp)
    have st12: "stars s1 s2" unfolding s2_def by (rule stars_split_pass)
    have st23: "stars s2 s3" unfolding s3_def by (intro pstars_stars brackets_pass_pstars)
    have "space_ok s0" unfolding s0_def by (rule space_ok_collapse)
    then have "space_ok s3"
      using st01 st12 st23 stars_space_ok by blast
    then have 1: "space_ok x"
      unfolding x_def using stars_space_ok[OF pstars_stars]
      by (intro prepare_loop_preserves[where Pr = space_ok])
    have "\<not> contains_e s3"
      using e0 st01 st12 st23 stars_contains_e by blast
    then have 2: "\<not> contains_e x"
      unfolding x_def using stars_contains_e[OF pstars_stars]
      by (intro prepare_loop_preserves[where Pr = "\<lambda>s. \<not> contains_e s"])
    have "prepareExpression T S e = x"
      using out False by (simp add: x_def)
    then show ?thesis
      using space_ok_id[OF 1] 2 has_scientific_contains_e by auto
  qed
qed

text \<open>
  Claim C5, as amended. With no preprocessor registered, \<^verbatim>\<open>prepareExpression\<close> gives back its
  own result for every input whose prepared text holds no scientific literal (no match of
  the pattern of the scientific-notation step) and no white space other than single
  spaces; the letter \<^verbatim>\<open>e\<close> may well be in it. (White space can only be left where
  \<^verbatim>\<open>scientificToDecimal\<close> returned some or returned nothing, and an input without the letter
  \<^verbatim>\<open>e\<close> is prepared to a text of that kind, by \<open>prepared_without_e\<close>.) On every input the
  loop ends, after no more rounds than there are places to rewrite, in a string that one
  more replacement does not change, and one replacement either leaves the string as it is
  or raises the number of \<^verbatim>\<open>*\<close>.
\<close>

theorem prepareExpression_idempotent_without_literal:
  "(preprocessors S = []
      \<and> \<not> has_scientific (prepareExpression T S e)
      \<and> collapse_spaces (prepareExpression T S e) = prepareExpression T S e
      \<longrightarrow> prepareExpression T S (prepareExpression T S e) = prepareExpression T S e)
   \<and> loop_step T (prepare_loop T s) = prepare_loop T s
   \<and> (\<exists>n \<le> sites (CHR ''*'' # s). prepare_loop T s = (loop_step T ^^ n) s)
   \<and> (loop_step T s = s \<or> count_list s (CHR ''*'') < count_list (loop_step T s) (CHR ''*''))"
  using prepareExpression_idempotent[of S T e] prepare_loop_fixpoint[of T s]
    prepare_loop_iterations[of s T] loop_step_progress[of T s]
  by blast

text \<open>
  On \<^verbatim>\<open>e^(2x)\<close>, prepared to \<^verbatim>\<open>e^(2*x)\<close>, which holds the letter \<^verbatim>\<open>e\<close> and no scientific literal;
  on \<^verbatim>\<open>2x(1e1)(y)sin(x)\<close>, where the scientific-notation step leaves none; and with the loop
  on \<^verbatim>\<open>x)y(\<close>, which takes two rounds.
\<close>

theorem prepareExpression_idempotent_without_literal_witness:
  "prepareExpression deps0 settings0 ''e^(2x)'' = ''e^(2*x)''
   \<and> prepareExpression deps0 settings0 (prepareExpression deps0 settings0 ''e^(2x)'')
       = prepareExpression deps0 settings0 ''e^(2x)''
   \<and> prepareExpression deps0 settings0 ''2x(1e1)(y)sin(x)'' = ''2*x*(10)*(y)*sin(x)''
   \<and> prepareExpression deps0 settings0 (prepareExpression deps0 settings0 ''2x(1e1)(y)sin(x)'')
       = prepareExpression deps0 settings0 ''2x(1e1)(y)sin(x)''
   \<and> prepare_loop deps0 ''x)y('' = ''x)*y*(''
   \<and> loop_step deps0 (prepare_loop deps0 ''x)y('') = prepare_loop deps0 ''x)y(''"
proof -
  have a: "preprocessors settings0 = []
      \<and> \<not> has_scientific (prepareExpression deps0 settings0 ''e^(2x)'')
      \<and> collapse_spaces (prepareExpression deps0 settings0 ''e^(2x)'')
          = prepareExpression deps0 settings0 ''e^(2x)''"
    by code_simp
  have a': "preprocessors settings0 = []
      \<and> \<not> has_scientific (prepareExpression deps0 settings0 ''2x(1e1)(y)sin(x)'')
      \<and> collapse_spaces (prepareExpression deps0 settings0 ''2x(1e1)(y)sin(x)'')
          = prepareExpression deps0 settings0 ''2x(1e1)(y)sin(x)''"
    by code_simp
  have b: "prepareExpression deps0 settings0 ''e^(2x)'' = ''e^(2*x)''"
    "prepareExpression deps0 settings0 ''2x(1e1)(y)sin(x)'' = ''2*x*(10)*(y)*sin(x)''"
    by code_simp+
  have c: "prepare_loop deps0 ''x)y('' = ''x)*y*(''"
    by code_simp
  show ?thesis
    using prepareExpression_idempotent_without_literal
            [of settings0 deps0 "''e^(2x)''" "''x)y(''"]
          prepareExpression_idempotent_without_literal
            [of settings0 deps0 "''2x(1e1)(y)sin(x)''" "''x)y(''"] a a' b c
    by simp
qed

text \<open>
  Claim C5 as stated fails. On \<^verbatim>\<open>a1e1e1\<close> the scientific-notation step rewrites \<^verbatim>\<open>1e1\<close> to
  \<^verbatim>\<open>10\<close>, which with the \<^verbatim>\<open>e1\<close> that follows is a scientific literal again: the result
  \<^verbatim>\<open>a10e1\<close> is prepared to \<^verbatim>\<open>a100\<close>.
\<close>

theorem prepareExpression_scientific_counterexample:
  "preprocessors settings0 = []
   \<and> prepareExpression deps0 settings0 ''a1e1e1'' = ''a10e1''
   \<and> prepareExpression deps0 settings0 (prepareExpression deps0 settings0 ''a1e1e1'') = ''a100''"
  by code_simp

end
